(* ===== verification/Wire_Prelude.thy ===== *)
theory Wire_Prelude
  imports Main "HOL-Library.Word"
begin

text \<open>
  The prelude: what every component of the wire-test harness uses of Python and of its standard
  library. Exceptions are values of \<open>py_error\<close>, a fallible call returns \<open>'a result\<close> and
  calls are sequenced with \<open>rbind\<close>; \<open>bytes\<close> is a list of octets (8-bit words), Python's
  unbounded integers are \<open>int\<close>, and lengths and positions, which never go below zero in the
  modelled code, are \<open>nat\<close>. The big-endian integer conversions and the \<open>struct\<close> formats
  the code uses are here, with the lemmas that make them inverse to each other.
\<close>

unbundle bit_operations_syntax

section \<open>Exceptions and sequencing\<close>

datatype py_error =
    IndexError
  | KeyError
  | TypeError
  | ValueError
  | OverflowError
  | StructError
  | UnicodeEncodeError
  | AttributeError
  | RuntimeError
  | OSError
  | SystemExit

type_synonym 'a result = "py_error + 'a"
type_synonym octet = "8 word"
type_synonym octets = "octet list"

named_theorems codec_simps \<open>evaluation of encoders on values in range\<close>
named_theorems tag_intros \<open>octet strings that are exactly one tag\<close>
named_theorems balanced_intros \<open>octet strings that are complete runs of tags\<close>

definition rbind :: "'a result \<Rightarrow> ('a \<Rightarrow> 'b result) \<Rightarrow> 'b result" where
  "rbind m f = (case m of Inl e \<Rightarrow> Inl e | Inr x \<Rightarrow> f x)"

lemma rbind_Inl [simp]: "rbind (Inl e) f = Inl e"
  by (simp add: rbind_def)

lemma rbind_Inr [simp]: "rbind (Inr x) f = f x"
  by (simp add: rbind_def)

lemma rbind_Inr_right [simp]: "rbind m Inr = m"
  by (cases m) auto

lemma rbind_assoc [simp]: "rbind (rbind m f) g = rbind m (\<lambda>x. rbind (f x) g)"
  by (cases m) auto

lemma rbind_eq_Inr: "rbind m f = Inr y \<longleftrightarrow> (\<exists>x. m = Inr x \<and> f x = Inr y)"
  by (cases m) auto

lemma rbind_eq_Inl: "rbind m f = Inl e \<longleftrightarrow> m = Inl e \<or> (\<exists>x. m = Inr x \<and> f x = Inl e)"
  by (cases m) auto

lemma rbind_InrE [elim]:
  assumes "rbind m f = Inr y"
  obtains x where "m = Inr x" and "f x = Inr y"
  using assms by (cases m) auto

lemma rbind_cong [fundef_cong]:
  assumes "m = m'" and "\<And>x. m' = Inr x \<Longrightarrow> f x = f' x"
  shows "rbind m f = rbind m' f'"
  using assms by (cases m') auto

text \<open>\<open>try: ... except (IndexError, struct.error): return None\<close>.\<close>

definition except_none :: "'a option result \<Rightarrow> 'a option result" where
  "except_none m = (case m of
     Inl e \<Rightarrow> (if e = IndexError \<or> e = StructError then Inr None else Inl e)
   | Inr x \<Rightarrow> Inr x)"

lemma except_none_Inr [simp]: "except_none (Inr x) = Inr x"
  by (simp add: except_none_def)

lemma except_none_eq_Inl:
  "except_none m = Inl e \<longleftrightarrow> m = Inl e \<and> e \<noteq> IndexError \<and> e \<noteq> StructError"
  by (cases m) (auto simp: except_none_def)

text \<open>A Python sum of octet strings, each of which may raise: evaluated from left to right.\<close>

fun cat :: "octets result list \<Rightarrow> octets result" where
  "cat [] = Inr []"
| "cat (r # rs) = rbind r (\<lambda>x. rbind (cat rs) (\<lambda>y. Inr (x @ y)))"

lemma cat_append: "cat (rs @ ss) = rbind (cat rs) (\<lambda>x. rbind (cat ss) (\<lambda>y. Inr (x @ y)))"
  by (induction rs) (auto simp: rbind_assoc)

lemma cat_map_Inr [simp]: "cat (map (\<lambda>x. Inr (f x)) xs) = Inr (concat (map f xs))"
  by (induction xs) auto

lemma cat_eq_Inr_Cons:
  "cat (r # rs) = Inr z \<longleftrightarrow> (\<exists>x y. r = Inr x \<and> cat rs = Inr y \<and> z = x @ y)"
  by (auto simp: rbind_eq_Inr)

section \<open>Indexing and slicing\<close>

text \<open>\<open>data[position]\<close> for a position that is not negative.\<close>

definition index :: "'a list \<Rightarrow> nat \<Rightarrow> 'a result" where
  "index xs i = (if i < length xs then Inr (xs ! i) else Inl IndexError)"

lemma index_append_right [simp]:
  "index (pre @ xs) (length pre + i) = index xs i"
  by (simp add: index_def)

lemma index_append_left: "i < length xs \<Longrightarrow> index (xs @ ys) i = index xs i"
  by (simp add: index_def nth_append)

lemma index_Cons_0 [simp]: "index (x # xs) 0 = Inr x"
  by (simp add: index_def)

lemma index_Cons_Suc [simp]: "index (x # xs) (Suc i) = index xs i"
  by (simp add: index_def)

lemma index_Cons_numeral [simp]: "index (x # xs) (numeral n) = index xs (numeral n - 1)"
  by (simp add: index_def nth_Cons')

lemma index_Nil [simp]: "index [] i = Inl IndexError"
  by (simp add: index_def)

lemma index_eq_Inr: "index xs i = Inr x \<longleftrightarrow> i < length xs \<and> x = xs ! i"
  by (auto simp: index_def)

lemma index_eq_Inl: "index xs i = Inl e \<longleftrightarrow> length xs \<le> i \<and> e = IndexError"
  by (auto simp: index_def)

text \<open>\<open>data[a:b]\<close>: never raises, and is cut at the end of \<open>data\<close>.\<close>

definition py_slice :: "'a list \<Rightarrow> nat \<Rightarrow> nat \<Rightarrow> 'a list" where
  "py_slice xs a b = take (b - a) (drop a xs)"

lemma slice_append_right [simp]:
  "py_slice (pre @ xs) (length pre + a) (length pre + b) = py_slice xs a b"
  by (simp add: py_slice_def)

lemma slice_append_left: "b \<le> length xs \<Longrightarrow> py_slice (xs @ ys) a b = py_slice xs a b"
  by (simp add: py_slice_def)

lemma slice_middle: "py_slice (pre @ xs @ suf) (length pre) (length pre + length xs) = xs"
  by (simp add: py_slice_def)

lemma length_slice: "length (py_slice xs a b) = min (b - a) (length xs - a)"
  by (simp add: py_slice_def)

section \<open>Integers as octets, big-endian\<close>

definition octet_of :: "int \<Rightarrow> octet" where
  "octet_of v = word_of_int v"

primrec be_octets :: "nat \<Rightarrow> int \<Rightarrow> octets" where
  "be_octets 0 v = []"
| "be_octets (Suc n) v = be_octets n (v div 256) @ [octet_of v]"

text \<open>\<open>int.from_bytes(octets, "big")\<close>.\<close>

definition from_bytes :: "octets \<Rightarrow> int" where
  "from_bytes bs = foldl (\<lambda>acc b. acc * 256 + uint b) 0 bs"

lemma uint_octet_of: "uint (octet_of v) = v mod 256"
  by (simp add: octet_of_def uint_word_of_int)

lemma octet_of_uint [simp]: "octet_of (uint b) = b"
  by (simp add: octet_of_def)

lemma uint_octet_less: "uint (b :: octet) < 256"
  using uint_lt2p [of b] by simp

lemma length_be_octets [simp]: "length (be_octets n v) = n"
  by (induction n arbitrary: v) auto

lemma from_bytes_Nil [simp]: "from_bytes [] = 0"
  by (simp add: from_bytes_def)

lemma from_bytes_snoc: "from_bytes (bs @ [b]) = from_bytes bs * 256 + uint b"
  by (simp add: from_bytes_def)

lemma from_bytes_single [simp]: "from_bytes [b] = uint b"
  by (simp add: from_bytes_def)

lemma from_bytes_be_octets_mod: "from_bytes (be_octets n v) = v mod 256 ^ n"
proof (induction n arbitrary: v)
  case 0
  then show ?case by simp
next
  case (Suc n)
  have "v mod 256 ^ Suc n = 256 * (v div 256 mod 256 ^ n) + v mod 256"
    using zmod_zmult2_eq [of "256 ^ n" v 256] by simp
  with Suc show ?case by (simp add: from_bytes_snoc uint_octet_of)
qed

lemma from_bytes_be_octets [simp]:
  "0 \<le> v \<Longrightarrow> v < 256 ^ n \<Longrightarrow> from_bytes (be_octets n v) = v"
  by (simp add: from_bytes_be_octets_mod)

lemma from_bytes_nonneg [simp]: "0 \<le> from_bytes bs"
  by (induction bs rule: rev_induct) (auto simp: from_bytes_snoc)

lemma from_bytes_less: "from_bytes bs < 256 ^ length bs"
proof (induction bs rule: rev_induct)
  case Nil
  then show ?case by simp
next
  case (snoc b bs)
  then show ?case using uint_octet_less [of b] by (simp add: from_bytes_snoc)
qed

lemma be_octets_from_bytes: "be_octets (length bs) (from_bytes bs) = bs"
proof (induction bs rule: rev_induct)
  case Nil
  then show ?case by simp
next
  case (snoc b bs)
  have "(from_bytes bs * 256 + uint b) div 256 = from_bytes bs"
    using uint_octet_less [of b] by simp
  moreover have "uint (octet_of (from_bytes bs * 256 + uint b)) = uint b"
    using uint_octet_less [of b] by (simp add: uint_octet_of)
  ultimately show ?case using snoc by (simp add: from_bytes_snoc word_uint_eq_iff)
qed

text \<open>\<open>value.to_bytes(length, "big")\<close>, and with \<open>signed=True\<close>.\<close>

definition to_bytes :: "int \<Rightarrow> nat \<Rightarrow> octets result" where
  "to_bytes v n = (if 0 \<le> v \<and> v < 256 ^ n then Inr (be_octets n v) else Inl OverflowError)"

definition to_bytes_signed :: "int \<Rightarrow> nat \<Rightarrow> octets result" where
  "to_bytes_signed v n =
     (if - (256 ^ n) \<le> 2 * v \<and> 2 * v < 256 ^ n then Inr (be_octets n (v mod 256 ^ n))
      else Inl OverflowError)"

text \<open>\<open>int.from_bytes(octets, "big", signed=True)\<close>.\<close>

definition from_bytes_signed :: "octets \<Rightarrow> int" where
  "from_bytes_signed bs =
     (let v = from_bytes bs in if 256 ^ length bs \<le> 2 * v then v - 256 ^ length bs else v)"

lemma from_bytes_signed_to_bytes:
  assumes "to_bytes_signed v n = Inr bs" and "0 < n"
  shows "from_bytes_signed bs = v"
proof -
  have range: "- (256 ^ n) \<le> 2 * v" "2 * v < 256 ^ n" and bs: "bs = be_octets n (v mod 256 ^ n)"
    using assms(1) by (auto simp: to_bytes_signed_def split: if_splits)
  have len: "length bs = n" and val: "from_bytes bs = v mod 256 ^ n"
    by (simp_all add: bs from_bytes_be_octets_mod)
  show ?thesis
  proof (cases "0 \<le> v")
    case True
    with range have "v mod 256 ^ n = v" by (simp)
    with range True show ?thesis by (simp add: from_bytes_signed_def len val Let_def)
  next
    case False
    have "v mod 256 ^ n = (v + 256 ^ n) mod 256 ^ n" by simp
    also have "\<dots> = v + 256 ^ n"
      using range False by (intro mod_pos_pos_trivial) auto
    finally show ?thesis
      using range False by (simp add: from_bytes_signed_def len val Let_def)
  qed
qed

text \<open>\<open>bytes([...])\<close>: a \<open>ValueError\<close> unless every element is in \<open>range(256)\<close>.\<close>

definition py_bytes :: "int list \<Rightarrow> octets result" where
  "py_bytes vs = (if list_all (\<lambda>v. 0 \<le> v \<and> v < 256) vs then Inr (map octet_of vs) else Inl ValueError)"

lemma py_bytes_in_range [codec_simps]:
  "list_all (\<lambda>v. 0 \<le> v \<and> v < 256) vs \<Longrightarrow> py_bytes vs = Inr (map octet_of vs)"
  by (simp add: py_bytes_def)

section \<open>The struct formats the code uses\<close>

definition pack_B :: "int \<Rightarrow> octets result" where
  "pack_B v = (if 0 \<le> v \<and> v < 256 then Inr (be_octets 1 v) else Inl StructError)"

definition pack_H :: "int \<Rightarrow> octets result" where
  "pack_H v = (if 0 \<le> v \<and> v < 65536 then Inr (be_octets 2 v) else Inl StructError)"

definition pack_I :: "int \<Rightarrow> octets result" where
  "pack_I v = (if 0 \<le> v \<and> v < 4294967296 then Inr (be_octets 4 v) else Inl StructError)"

definition unpack_H :: "octets \<Rightarrow> int result" where
  "unpack_H bs = (if length bs = 2 then Inr (from_bytes bs) else Inl StructError)"

definition unpack_I :: "octets \<Rightarrow> int result" where
  "unpack_I bs = (if length bs = 4 then Inr (from_bytes bs) else Inl StructError)"

lemma unpack_H_be_octets [simp]: "0 \<le> v \<Longrightarrow> v < 65536 \<Longrightarrow> unpack_H (be_octets 2 v) = Inr v"
  using from_bytes_be_octets [of v 2] by (simp add: unpack_H_def)

lemma unpack_I_be_octets [simp]: "0 \<le> v \<Longrightarrow> v < 4294967296 \<Longrightarrow> unpack_I (be_octets 4 v) = Inr v"
  using from_bytes_be_octets [of v 4] by (simp add: unpack_I_def)

lemma unpack_I_range: "unpack_I bs = Inr v \<Longrightarrow> 0 \<le> v \<and> v < 4294967296"
  using from_bytes_less [of bs] by (auto simp: unpack_I_def split: if_splits)

end
