(* ===== verification/Py_Text.thy ===== *)
theory Py_Text
  imports Wire_Prelude
begin

text \<open>
  Python's \<open>str\<close> as a list of code points, with the two conversions the harness uses:
  \<open>text.encode("utf-8")\<close>, which raises \<open>UnicodeEncodeError\<close> on a surrogate, and
  \<open>octets.decode("utf-8", errors="replace")\<close>, which replaces every maximal ill-formed
  subsequence with U+FFFD. Decoding an encoded string gives it back.
\<close>

section \<open>Definitions\<close>

type_synonym pystr = "nat list"

text \<open>A literal of the source as code points.\<close>

definition py_text :: "string \<Rightarrow> pystr" where
  "py_text s = map of_char s"

definition octet_nat :: "nat \<Rightarrow> octet" where
  "octet_nat n = word_of_nat n"

definition utf8_point :: "nat \<Rightarrow> octets result" where
  "utf8_point c =
     (if c < 0x80 then Inr [octet_nat c]
      else if c < 0x800 then Inr (map octet_nat [0xC0 + c div 64, 0x80 + c mod 64])
      else if 0xD800 \<le> c \<and> c \<le> 0xDFFF \<or> 0x110000 \<le> c then Inl UnicodeEncodeError
      else if c < 0x10000 then
        Inr (map octet_nat [0xE0 + c div 4096, 0x80 + c div 64 mod 64, 0x80 + c mod 64])
      else
        Inr (map octet_nat [0xF0 + c div 262144, 0x80 + c div 4096 mod 64,
                            0x80 + c div 64 mod 64, 0x80 + c mod 64]))"

definition utf8_encode :: "pystr \<Rightarrow> octets result" where
  "utf8_encode s = cat (map utf8_point s)"

text \<open>
  The continuation octets after a lead octet: \<open>k\<close> are still wanted, the next one in
  \<open>lo .. hi\<close>; an octet that does not fit is left for the next code point.
\<close>

fun utf8_tail :: "nat \<Rightarrow> nat \<Rightarrow> nat \<Rightarrow> nat \<Rightarrow> octets \<Rightarrow> nat \<times> octets" where
  "utf8_tail 0 lo hi acc bs = (acc, bs)"
| "utf8_tail (Suc k) lo hi acc [] = (0xFFFD, [])"
| "utf8_tail (Suc k) lo hi acc (c # bs) =
     (if lo \<le> unat c \<and> unat c \<le> hi then utf8_tail k 0x80 0xBF (acc * 64 + (unat c - 0x80)) bs
      else (0xFFFD, c # bs))"

definition utf8_lead :: "nat \<Rightarrow> octets \<Rightarrow> nat \<times> octets" where
  "utf8_lead b bs =
     (if b < 0x80 then (b, bs)
      else if 0xC2 \<le> b \<and> b \<le> 0xDF then utf8_tail 1 0x80 0xBF (b - 0xC0) bs
      else if b = 0xE0 then utf8_tail 2 0xA0 0xBF 0 bs
      else if b = 0xED then utf8_tail 2 0x80 0x9F 0xD bs
      else if 0xE1 \<le> b \<and> b \<le> 0xEF then utf8_tail 2 0x80 0xBF (b - 0xE0) bs
      else if b = 0xF0 then utf8_tail 3 0x90 0xBF 0 bs
      else if 0xF1 \<le> b \<and> b \<le> 0xF3 then utf8_tail 3 0x80 0xBF (b - 0xF0) bs
      else if b = 0xF4 then utf8_tail 3 0x80 0x8F 4 bs
      else (0xFFFD, bs))"

lemma utf8_tail_length: "length (snd (utf8_tail k lo hi acc bs)) \<le> length bs"
  by (induction k lo hi acc bs rule: utf8_tail.induct) auto

lemma utf8_lead_length: "length (snd (utf8_lead b bs)) \<le> length bs"
  by (simp add: utf8_lead_def utf8_tail_length)

function utf8_decode :: "octets \<Rightarrow> pystr" where
  "utf8_decode [] = []"
| "utf8_decode (b # bs) =
     (let r = utf8_lead (unat b) bs in fst r # utf8_decode (snd r))"
  by pat_completeness auto
termination
  by (relation "measure length") (auto simp: utf8_lead_length less_Suc_eq_le)

section \<open>Decoding what was encoded\<close>

lemma unat_octet_nat: "n < 256 \<Longrightarrow> unat (octet_nat n) = n"
  by (simp add: octet_nat_def unat_of_nat)

lemma utf8_tail_fits:
  "lo \<le> n \<Longrightarrow> n \<le> hi \<Longrightarrow> hi < 256 \<Longrightarrow>
   utf8_tail (Suc k) lo hi acc (octet_nat n # bs) = utf8_tail k 0x80 0xBF (acc * 64 + (n - 0x80)) bs"
  by (simp add: unat_octet_nat)

lemma utf8_decode_2:
  assumes "0x80 \<le> c" and "c < 0x800"
  shows "utf8_lead (0xC0 + c div 64) (octet_nat (0x80 + c mod 64) # r) = (c, r)"
proof -
  have "c div 64 \<ge> 2" "c div 64 < 32" using assms by auto
  then show ?thesis by (simp add: utf8_lead_def unat_octet_nat)
qed

lemma split_64: "c = 64 * (c div 64) + c mod (64 :: nat)"
  by simp

lemma digits_64_3: "c = 4096 * (c div 4096) + 64 * (c div 64 mod 64) + c mod (64 :: nat)"
proof -
  have "c div 4096 = c div 64 div 64" by (simp add: div_mult2_eq [symmetric])
  with split_64 [of c] split_64 [of "c div 64"] show ?thesis by linarith
qed

lemma digits_64_4:
  "c = 262144 * (c div 262144) + 4096 * (c div 4096 mod 64) + 64 * (c div 64 mod 64) + c mod (64 :: nat)"
proof -
  have "c div 262144 = c div 4096 div 64" by (simp add: div_mult2_eq [symmetric])
  with digits_64_3 [of c] split_64 [of "c div 4096"] show ?thesis by linarith
qed

lemma utf8_decode_3:
  assumes "0x800 \<le> c" and "c < 0x10000" and "\<not> (0xD800 \<le> c \<and> c \<le> 0xDFFF)"
  shows "utf8_lead (0xE0 + c div 4096)
           (octet_nat (0x80 + c div 64 mod 64) # octet_nat (0x80 + c mod 64) # r) = (c, r)"
proof -
  define a b d where "a = c div 4096" and "b = c div 64 mod 64" and "d = c mod 64"
  have c: "c = 4096 * a + 64 * b + d"
    unfolding a_def b_def d_def by (rule digits_64_3)
  have "b < 64" "d < 64" and a: "a < 16"
    using assms(2) by (auto simp: a_def b_def d_def)
  have "a = 0 \<Longrightarrow> b \<ge> 32" and "a = 13 \<Longrightarrow> b < 32"
    using assms c \<open>b < 64\<close> \<open>d < 64\<close> by auto
  then have "utf8_lead (0xE0 + a) (octet_nat (0x80 + b) # octet_nat (0x80 + d) # r) = (c, r)"
    using a \<open>b < 64\<close> \<open>d < 64\<close> by (auto simp: utf8_lead_def unat_octet_nat numeral_2_eq_2 c)
  then show ?thesis by (simp add: a_def b_def d_def)
qed

lemma utf8_decode_4:
  assumes "0x10000 \<le> c" and "c < 0x110000"
  shows "utf8_lead (0xF0 + c div 262144)
           (octet_nat (0x80 + c div 4096 mod 64) # octet_nat (0x80 + c div 64 mod 64)
             # octet_nat (0x80 + c mod 64) # r) = (c, r)"
proof -
  define a b d e where "a = c div 262144" and "b = c div 4096 mod 64"
    and "d = c div 64 mod 64" and "e = c mod 64"
  have c: "c = 262144 * a + 4096 * b + 64 * d + e"
    unfolding a_def b_def d_def e_def by (rule digits_64_4)
  have "b < 64" "d < 64" "e < 64" and a: "a \<le> 4"
    using assms(2) by (auto simp: a_def b_def d_def e_def)
  have "a = 0 \<Longrightarrow> b \<ge> 16" and "b < 16 \<or> a < 4"
    using assms c a \<open>b < 64\<close> \<open>d < 64\<close> \<open>e < 64\<close> by auto
  then have "utf8_lead (0xF0 + a)
      (octet_nat (0x80 + b) # octet_nat (0x80 + d) # octet_nat (0x80 + e) # r) = (c, r)"
    using a \<open>b < 64\<close> \<open>d < 64\<close> \<open>e < 64\<close>
    by (auto simp: utf8_lead_def unat_octet_nat numeral_3_eq_3 c)
  then show ?thesis by (simp add: a_def b_def d_def e_def)
qed

lemma utf8_decode_point:
  assumes "utf8_point c = Inr e"
  shows "utf8_decode (e @ r) = c # utf8_decode r"
proof -
  consider "c < 0x80" | "0x80 \<le> c" "c < 0x800"
    | "0x800 \<le> c" "c < 0x10000" "\<not> (0xD800 \<le> c \<and> c \<le> 0xDFFF)"
    | "0x10000 \<le> c" "c < 0x110000"
    using assms by (fastforce simp: utf8_point_def split: if_splits)
  then show ?thesis
  proof cases
    case 1
    with assms show ?thesis by (auto simp: utf8_point_def unat_octet_nat utf8_lead_def)
  next
    case 2
    then have "0xC0 + c div 64 < 256" by auto
    with 2 assms utf8_decode_2 [OF 2] show ?thesis
      by (auto simp: utf8_point_def unat_octet_nat Let_def)
  next
    case 3
    then have "0xE0 + c div 4096 < 256" by auto
    with 3 assms utf8_decode_3 [OF 3] show ?thesis
      by (auto simp: utf8_point_def unat_octet_nat Let_def split: if_splits)
  next
    case 4
    then have "0xF0 + c div 262144 < 256" by auto
    with 4 assms utf8_decode_4 [OF 4] show ?thesis
      by (auto simp: utf8_point_def unat_octet_nat Let_def)
  qed
qed

lemma utf8_decode_encode: "utf8_encode s = Inr bs \<Longrightarrow> utf8_decode bs = s"
proof (induction s arbitrary: bs)
  case Nil
  then show ?case by (simp add: utf8_encode_def)
next
  case (Cons c s)
  then obtain e r where "utf8_point c = Inr e" and "utf8_encode s = Inr r" and "bs = e @ r"
    by (auto simp: utf8_encode_def rbind_eq_Inr)
  with Cons.IH show ?case by (simp add: utf8_decode_point)
qed

text \<open>ASCII text is one octet per character.\<close>

lemma utf8_encode_ascii:
  "list_all (\<lambda>c. c < 128) s \<Longrightarrow> utf8_encode s = Inr (map octet_nat s)"
  by (induction s) (auto simp: utf8_encode_def utf8_point_def)

end
