(* ===== verification/Py_Float.thy ===== *)
theory Py_Float
  imports Wire_Prelude
begin

text \<open>
  Python floats as IEEE 754 binary64 bit patterns, and the \<open>struct\<close> formats \<open>">f"\<close> and
  \<open>">d"\<close>. Packing with \<open>">f"\<close> rounds to the nearest binary32 number, ties to even, and raises
  \<open>OverflowError\<close> when a finite number rounds to infinity; unpacking widens exactly. A NaN
  keeps its sign and the top of its payload and comes out quiet, which is what the conversion
  instructions of current processors do. Every binary32 pattern that is not a NaN survives
  unpacking followed by packing.
\<close>

section \<open>Definitions\<close>

type_synonym py_float = "64 word"

text \<open>\<open>bit_len n\<close> is the number of binary digits of \<open>n\<close> (\<open>int.bit_length\<close>).\<close>

fun bit_len :: "nat \<Rightarrow> nat" where
  "bit_len n = (if n = 0 then 0 else Suc (bit_len (n div 2)))"

declare bit_len.simps [simp del]

definition widen :: "int \<Rightarrow> int" where
  "widen w =
     (let s = w div 2 ^ 31 mod 2; e = w div 2 ^ 23 mod 2 ^ 8; m = w mod 2 ^ 23 in
      s * 2 ^ 63 +
      (if e = 255 then 2047 * 2 ^ 52 + (if m = 0 then 0 else (m OR 2 ^ 22) * 2 ^ 29)
       else if e = 0 then
         (if m = 0 then 0
          else let k = bit_len (nat m) - 1 in (int k + 874) * 2 ^ 52 + (m * 2 ^ (52 - k) - 2 ^ 52))
       else (e + 896) * 2 ^ 52 + m * 2 ^ 29))"

text \<open>\<open>x / 2 ^ n\<close> rounded to the nearest integer, ties to even.\<close>

definition round_shift :: "int \<Rightarrow> nat \<Rightarrow> int" where
  "round_shift x n =
     (let q = x div 2 ^ n; r = x mod 2 ^ n in
      if 2 ^ n < 2 * r \<or> 2 ^ n = 2 * r \<and> odd q then q + 1 else q)"

definition narrow :: "int \<Rightarrow> int result" where
  "narrow w =
     (let s = w div 2 ^ 63 mod 2; e = w div 2 ^ 52 mod 2 ^ 11; m = w mod 2 ^ 52 in
      if e = 2047 then
        Inr (s * 2 ^ 31 + 255 * 2 ^ 23 + (if m = 0 then 0 else (m div 2 ^ 29) OR 2 ^ 22))
      else if e = 0 then Inr (s * 2 ^ 31)
      else if 897 \<le> e then
        (let b = (e - 897) * 2 ^ 23 + round_shift (2 ^ 52 + m) 29 in
         if 255 * 2 ^ 23 \<le> b then Inl OverflowError else Inr (s * 2 ^ 31 + b))
      else Inr (s * 2 ^ 31 + round_shift (2 ^ 52 + m) (nat (926 - e))))"

definition pack_f :: "py_float \<Rightarrow> octets result" where
  "pack_f x = rbind (narrow (uint x)) (\<lambda>w. Inr (be_octets 4 w))"

definition unpack_f :: "octets \<Rightarrow> py_float result" where
  "unpack_f bs = (if length bs = 4 then Inr (word_of_int (widen (from_bytes bs))) else Inl StructError)"

definition unpack_d :: "octets \<Rightarrow> py_float result" where
  "unpack_d bs = (if length bs = 8 then Inr (word_of_int (from_bytes bs)) else Inl StructError)"

definition is_nan32 :: "int \<Rightarrow> bool" where
  "is_nan32 w \<longleftrightarrow> w div 2 ^ 23 mod 2 ^ 8 = 255 \<and> w mod 2 ^ 23 \<noteq> 0"

text \<open>A Python float that binary32 represents exactly, NaN apart.\<close>

definition is_real32 :: "py_float \<Rightarrow> bool" where
  "is_real32 x = (case narrow (uint x) of
     Inl _ \<Rightarrow> False
   | Inr w \<Rightarrow> 0 \<le> w \<and> w < 2 ^ 32 \<and> \<not> is_nan32 w \<and> widen w = uint x)"

section \<open>Widening and narrowing again\<close>

lemma round_shift_exact: "round_shift (q * 2 ^ n) n = q"
  by (simp add: round_shift_def Let_def)

lemma bit_len_bounds:
  "0 < n \<Longrightarrow> 0 < bit_len n \<and> 2 ^ (bit_len n - 1) \<le> n \<and> n < 2 ^ bit_len n"
proof (induction n rule: bit_len.induct)
  case (1 n)
  show ?case
  proof (cases "n div 2 = 0")
    case True
    with 1 have "n = 1" by auto
    then show ?thesis by (simp add: bit_len.simps [of "Suc 0"] bit_len.simps [of 0])
  next
    case False
    let ?k = "bit_len (n div 2)"
    have IH: "0 < ?k" "2 ^ (?k - 1) \<le> n div 2" "n div 2 < 2 ^ ?k"
      using "1.IH" "1.prems" False by auto
    have "2 ^ ?k = 2 * (2 :: nat) ^ (?k - 1)" using IH(1) by (cases ?k) auto
    then have "2 ^ ?k \<le> n" "n < 2 * 2 ^ ?k" using IH(2,3) by linarith+
    with 1 show ?thesis by (simp add: bit_len.simps [of n])
  qed
qed

lemma fields64:
  fixes s e m :: int
  assumes "0 \<le> s" "s < 2" "0 \<le> e" "e < 2048" "0 \<le> m" "m < 2 ^ 52"
  shows "(s * 2 ^ 63 + (e * 2 ^ 52 + m)) div 2 ^ 63 mod 2 = s"
    and "(s * 2 ^ 63 + (e * 2 ^ 52 + m)) div 2 ^ 52 mod 2 ^ 11 = e"
    and "(s * 2 ^ 63 + (e * 2 ^ 52 + m)) mod 2 ^ 52 = m"
proof -
  have w: "s * 2 ^ 63 + (e * 2 ^ 52 + m) = m + (s * 2 ^ 11 + e) * 2 ^ 52" by simp
  have d: "(m + (s * 2 ^ 11 + e) * 2 ^ 52) div 2 ^ 52 = s * 2 ^ 11 + e"
    using assms(5,6) by (subst div_mult_self1) simp_all
  show "(s * 2 ^ 63 + (e * 2 ^ 52 + m)) div 2 ^ 63 mod 2 = s" using assms by auto
  show "(s * 2 ^ 63 + (e * 2 ^ 52 + m)) div 2 ^ 52 mod 2 ^ 11 = e"
    unfolding w d using assms(3,4) by simp
  show "(s * 2 ^ 63 + (e * 2 ^ 52 + m)) mod 2 ^ 52 = m"
    unfolding w using assms(5,6) by (subst mod_mult_self1) simp
qed

lemma fields32:
  fixes w :: int
  assumes "0 \<le> w" "w < 2 ^ 32"
  shows "w = w div 2 ^ 31 mod 2 * 2 ^ 31 + (w div 2 ^ 23 mod 2 ^ 8 * 2 ^ 23 + w mod 2 ^ 23)"
proof -
  define q h t r where "q = w div 2 ^ 23" and "h = w div 2 ^ 31" and "t = q mod 2 ^ 8" and "r = w mod 2 ^ 23"
  have "w = q * 2 ^ 23 + r" unfolding q_def r_def by (rule div_mult_mod_eq [symmetric])
  moreover have "q = h * 2 ^ 8 + t"
    using div_mult_mod_eq [of q "2 ^ 8"] by (simp add: zdiv_zmult2_eq [symmetric] q_def h_def t_def)
  moreover have "h mod 2 = h" using assms by (auto simp: h_def)
  ultimately have "w = h mod 2 * 2 ^ 31 + (t * 2 ^ 23 + r)" by simp
  then show ?thesis unfolding q_def h_def t_def r_def .
qed

lemma narrow_fields:
  fixes s e m :: int
  assumes "0 \<le> s" "s < 2" "0 \<le> e" "e < 2048" "0 \<le> m" "m < 2 ^ 52"
  shows "narrow (s * 2 ^ 63 + (e * 2 ^ 52 + m)) =
     (if e = 2047 then
        Inr (s * 2 ^ 31 + 255 * 2 ^ 23 + (if m = 0 then 0 else (m div 2 ^ 29) OR 2 ^ 22))
      else if e = 0 then Inr (s * 2 ^ 31)
      else if 897 \<le> e then
        (let b = (e - 897) * 2 ^ 23 + round_shift (2 ^ 52 + m) 29 in
         if 255 * 2 ^ 23 \<le> b then Inl OverflowError else Inr (s * 2 ^ 31 + b))
      else Inr (s * 2 ^ 31 + round_shift (2 ^ 52 + m) (nat (926 - e))))"
  unfolding narrow_def Let_def fields64 [OF assms] ..

lemma narrow_widen_normal:
  fixes s e m :: int
  assumes "0 \<le> s" "s < 2" "0 < e" "e < 255" "0 \<le> m" "m < 2 ^ 23"
  shows "narrow (s * 2 ^ 63 + ((e + 896) * 2 ^ 52 + m * 2 ^ 29)) = Inr (s * 2 ^ 31 + (e * 2 ^ 23 + m))"
proof -
  have "2 ^ 52 + m * 2 ^ 29 = (2 ^ 23 + m) * (2 :: int) ^ 29" by simp
  then have r: "round_shift (2 ^ 52 + m * 2 ^ 29) 29 = 2 ^ 23 + m" by (metis round_shift_exact)
  show ?thesis
    by (subst narrow_fields) (use assms in \<open>auto simp: r [simplified] Let_def\<close>)
qed

lemma subnormal_bounds:
  fixes m :: int
  assumes "0 < m" "m < 2 ^ 23" and k: "k = bit_len (nat m) - 1"
  shows "k < 23" and "2 ^ 52 \<le> m * 2 ^ (52 - k)" and "m * 2 ^ (52 - k) < 2 ^ 53"
proof -
  have b: "2 ^ k \<le> nat m" "nat m < 2 ^ (k + 1)"
    using bit_len_bounds [of "nat m"] assms(1) by (auto simp: k)
  then have bi: "2 ^ k \<le> m" "m < 2 ^ (k + 1)" using assms(1) by (auto simp: nat_less_iff le_nat_iff)
  have "(2 :: int) ^ k < 2 ^ 23" using bi(1) assms(2) by linarith
  then show k23: "k < 23" by (simp only: power_strict_increasing_iff)
  have split: "(2 :: int) ^ 52 = 2 ^ k * 2 ^ (52 - k)"
    using k23 by (simp add: power_add [symmetric] del: power_Suc)
  show "2 ^ 52 \<le> m * 2 ^ (52 - k)"
    unfolding split using bi(1) by (intro mult_right_mono) auto
  have "m * 2 ^ (52 - k) < 2 ^ (k + 1) * 2 ^ (52 - k)"
    using bi(2) by (intro mult_strict_right_mono) auto
  also have "\<dots> = 2 * (2 ^ k * 2 ^ (52 - k))" by simp
  also have "\<dots> = 2 ^ 53" unfolding split [symmetric] by simp
  finally show "m * 2 ^ (52 - k) < 2 ^ 53" .
qed

lemma narrow_widen_subnormal:
  fixes s m :: int
  assumes "0 \<le> s" "s < 2" "0 < m" "m < 2 ^ 23" and k: "k = bit_len (nat m) - 1"
  shows "narrow (s * 2 ^ 63 + ((int k + 874) * 2 ^ 52 + (m * 2 ^ (52 - k) - 2 ^ 52)))
    = Inr (s * 2 ^ 31 + m)"
proof -
  note b = subnormal_bounds [OF assms(3,4) k]
  have n: "nat (926 - (int k + 874)) = 52 - k" using b(1) by auto
  show ?thesis
    by (subst narrow_fields) (use assms b n in \<open>auto simp: round_shift_exact\<close>)
qed

text \<open>The four shapes of a binary32 number that is not a NaN.\<close>

lemma widen_cases:
  assumes "0 \<le> w" "w < 2 ^ 32" and "\<not> is_nan32 w"
  obtains (Infinite) s where "0 \<le> s" "s < 2" "w = s * 2 ^ 31 + (255 * 2 ^ 23 + 0)"
      "widen w = s * 2 ^ 63 + (2047 * 2 ^ 52 + 0)"
  | (Zero) s where "0 \<le> s" "s < 2" "w = s * 2 ^ 31" "widen w = s * 2 ^ 63 + (0 * 2 ^ 52 + 0)"
  | (Subnormal) s m k where "0 \<le> s" "s < 2" "w = s * 2 ^ 31 + m" "0 < m" "m < 2 ^ 23"
      "k = bit_len (nat m) - 1"
      "widen w = s * 2 ^ 63 + ((int k + 874) * 2 ^ 52 + (m * 2 ^ (52 - k) - 2 ^ 52))"
  | (Normal) s e m where "0 \<le> s" "s < 2" "w = s * 2 ^ 31 + (e * 2 ^ 23 + m)" "0 < e" "e < 255"
      "0 \<le> m" "m < 2 ^ 23" "widen w = s * 2 ^ 63 + ((e + 896) * 2 ^ 52 + m * 2 ^ 29)"
proof -
  define s e m where "s = w div 2 ^ 31 mod 2" and "e = w div 2 ^ 23 mod 2 ^ 8" and "m = w mod 2 ^ 23"
  have w: "w = s * 2 ^ 31 + (e * 2 ^ 23 + m)"
    unfolding s_def e_def m_def by (rule fields32 [OF assms(1,2)])
  have r: "0 \<le> s" "s < 2" "0 \<le> e" "e < 256" "0 \<le> m" "m < 2 ^ 23"
    by (simp_all add: s_def e_def m_def)
  have wide: "widen w = s * 2 ^ 63 +
      (if e = 255 then 2047 * 2 ^ 52 + (if m = 0 then 0 else (m OR 2 ^ 22) * 2 ^ 29)
       else if e = 0 then
         (if m = 0 then 0
          else let k = bit_len (nat m) - 1 in (int k + 874) * 2 ^ 52 + (m * 2 ^ (52 - k) - 2 ^ 52))
       else (e + 896) * 2 ^ 52 + m * 2 ^ 29)"
    by (simp add: widen_def Let_def s_def e_def m_def)
  consider "e = 255" "m = 0" | "e = 0" "m = 0" | "e = 0" "0 < m" | "0 < e" "e < 255"
    using assms(3) r by (fastforce simp: is_nan32_def e_def m_def)
  then show thesis
  proof cases
    case 1
    with r w wide show ?thesis by (intro Infinite [of s]) simp_all
  next
    case 2
    with r w wide show ?thesis by (intro Zero [of s]) simp_all
  next
    case 3
    with r w wide show ?thesis by (intro Subnormal [of s m "bit_len (nat m) - 1"]) (simp_all add: Let_def)
  next
    case 4
    with r w wide show ?thesis by (intro Normal [of s e m]) simp_all
  qed
qed

lemma narrow_widen:
  assumes "0 \<le> w" "w < 2 ^ 32" and "\<not> is_nan32 w"
  shows "narrow (widen w) = Inr w"
  using assms
proof (cases w rule: widen_cases)
  case (Infinite s)
  then show ?thesis using narrow_fields [of s 2047 0] by simp
next
  case (Zero s)
  then show ?thesis using narrow_fields [of s 0 0] by simp
next
  case (Subnormal s m k)
  from narrow_widen_subnormal [OF Subnormal(1,2,4,5,6)] show ?thesis
    unfolding Subnormal(7) by (simp add: Subnormal(3))
next
  case (Normal s e m)
  from narrow_widen_normal [OF Normal(1,2,4-7)] show ?thesis
    unfolding Normal(8) by (simp add: Normal(3))
qed

lemma widen_range:
  assumes "0 \<le> w" "w < 2 ^ 32" and "\<not> is_nan32 w"
  shows "0 \<le> widen w \<and> widen w < 2 ^ 64"
  using assms
proof (cases w rule: widen_cases)
  case (Subnormal s m k)
  with subnormal_bounds [OF Subnormal(4-6)] show ?thesis by simp
qed simp_all

lemma unpack_f_pack_f:
  assumes "is_real32 x"
  obtains bs where "pack_f x = Inr bs" and "length bs = 4" and "unpack_f bs = Inr x"
proof -
  from assms obtain w where w: "narrow (uint x) = Inr w" "widen w = uint x" "0 \<le> w" "w < 256 ^ 4"
    by (auto simp: is_real32_def split: sum.splits)
  from w(3,4) have "from_bytes (be_octets 4 w) = w" by (rule from_bytes_be_octets)
  with w have "unpack_f (be_octets 4 w) = Inr x" by (simp add: unpack_f_def)
  moreover have "pack_f x = Inr (be_octets 4 w)" using w(1) by (simp add: pack_f_def)
  ultimately show thesis using that length_be_octets by blast
qed

lemma pack_f_unpack_f:
  assumes "length bs = 4" and "\<not> is_nan32 (from_bytes bs)"
  shows "pack_f (word_of_int (widen (from_bytes bs))) = Inr bs"
proof -
  have r: "0 \<le> from_bytes bs" "from_bytes bs < 2 ^ 32"
    using from_bytes_less [of bs] assms(1) by simp_all
  have "uint (word_of_int (widen (from_bytes bs)) :: 64 word) = widen (from_bytes bs)"
    using widen_range [OF r assms(2)] by (simp add: uint_word_of_int)
  then show ?thesis
    using narrow_widen [OF r assms(2)] be_octets_from_bytes [of bs] assms(1)
    by (simp add: pack_f_def)
qed

end
