(* ===== verification/Codec_Encode.thy ===== *)
theory Codec_Encode
  imports Codec_Numbers Py_Text Py_Float
begin

text \<open>
  The encoders of \<^verbatim>\<open>src/wiretest/codec.py\<close> (lines 212-562): BVLL messages, NPDUs,
  tagged values and APDUs, each as a function to an octet string or to the exception the code
  raises. Keyword arguments with a default of \<open>None\<close> are \<open>option\<close> values. The lemmas say
  which arguments an encoder accepts and what octets it makes of them.
\<close>

section \<open>BVLL and NPDU\<close>

definition bvll :: "int \<Rightarrow> octets \<Rightarrow> octets result" where
  "bvll function body =
     cat [pack_B BVLC_TYPE, pack_B function, pack_H (4 + int (length body)), Inr body]"

definition bvlc :: "octets \<Rightarrow> bool \<Rightarrow> octets result" where
  "bvlc npdu_octets broadcast =
     bvll (if broadcast then BVLC_ORIGINAL_BROADCAST else BVLC_ORIGINAL_UNICAST) npdu_octets"

definition forwarded_npdu :: "octets \<Rightarrow> octets \<Rightarrow> octets result" where
  "forwarded_npdu originating_mac npdu_octets = bvll BVLC_FORWARDED_NPDU (originating_mac @ npdu_octets)"

definition distribute_broadcast_to_network :: "octets \<Rightarrow> octets result" where
  "distribute_broadcast_to_network npdu_octets = bvll BVLC_DISTRIBUTE_BROADCAST_TO_NETWORK npdu_octets"

definition register_foreign_device :: "int \<Rightarrow> octets result" where
  "register_foreign_device time_to_live =
     rbind (pack_H time_to_live) (bvll BVLC_REGISTER_FOREIGN_DEVICE)"

definition read_broadcast_distribution_table :: "octets result" where
  "read_broadcast_distribution_table = bvll BVLC_READ_BROADCAST_DISTRIBUTION_TABLE []"

definition read_foreign_device_table :: "octets result" where
  "read_foreign_device_table = bvll BVLC_READ_FOREIGN_DEVICE_TABLE []"

definition delete_foreign_device_table_entry :: "octets \<Rightarrow> octets result" where
  "delete_foreign_device_table_entry entry_mac = bvll BVLC_DELETE_FOREIGN_DEVICE_TABLE_ENTRY entry_mac"

definition write_broadcast_distribution_table :: "(octets \<times> octets) list \<Rightarrow> octets result" where
  "write_broadcast_distribution_table entries =
     bvll BVLC_WRITE_BROADCAST_DISTRIBUTION_TABLE (concat (map (\<lambda>(address, mask). address @ mask) entries))"

text \<open>The keyword arguments of \<open>npdu()\<close> and their defaults.\<close>

record npdu_args =
  arg_network_message :: "int option"
  arg_dnet :: "int option"
  arg_dadr :: octets
  arg_snet :: "int option"
  arg_sadr :: octets
  arg_expecting_reply :: bool
  arg_hop_count :: int

definition npdu_defaults :: npdu_args where
  "npdu_defaults = \<lparr>arg_network_message = None, arg_dnet = None, arg_dadr = [], arg_snet = None,
     arg_sadr = [], arg_expecting_reply = False, arg_hop_count = 255\<rparr>"

definition npdu_control :: "npdu_args \<Rightarrow> int" where
  "npdu_control a =
     (if arg_network_message a \<noteq> None then 0x80 else 0) OR
     (if arg_dnet a \<noteq> None then 0x20 else 0) OR
     (if arg_snet a \<noteq> None then 0x08 else 0) OR
     (if arg_expecting_reply a then 0x04 else 0)"

definition npdu :: "octets \<Rightarrow> npdu_args \<Rightarrow> octets result" where
  "npdu payload a =
     cat ([py_bytes [0x01, npdu_control a]] @
          (case arg_dnet a of None \<Rightarrow> []
           | Some dnet \<Rightarrow> [pack_H dnet, pack_B (int (length (arg_dadr a))), Inr (arg_dadr a)]) @
          (case arg_snet a of None \<Rightarrow> []
           | Some snet \<Rightarrow> [pack_H snet, pack_B (int (length (arg_sadr a))), Inr (arg_sadr a)]) @
          (if arg_dnet a \<noteq> None then [py_bytes [arg_hop_count a]] else []) @
          (case arg_network_message a of None \<Rightarrow> [] | Some m \<Rightarrow> [py_bytes [m]]) @
          [Inr payload])"

section \<open>Tagged values\<close>

definition object_id :: "int \<Rightarrow> int \<Rightarrow> octets result" where
  "object_id object_type instance_number = pack_I (push_bit 22 object_type OR instance_number)"

fun unsigned_octets_from :: "nat list \<Rightarrow> int \<Rightarrow> octets result" where
  "unsigned_octets_from [] v = Inl ValueError"
| "unsigned_octets_from (n # ns) v =
     (if v < push_bit (8 * n) 1 then to_bytes v n else unsigned_octets_from ns v)"

definition unsigned_octets :: "int \<Rightarrow> octets result" where
  "unsigned_octets v = unsigned_octets_from [1, 2, 3, 4] v"

definition context_unsigned :: "int \<Rightarrow> int \<Rightarrow> octets result" where
  "context_unsigned tag v =
     rbind (unsigned_octets v) (\<lambda>body.
     cat [py_bytes [push_bit 4 tag OR 0x08 OR int (length body)], Inr body])"

definition context_object_id :: "int \<Rightarrow> int \<Rightarrow> int \<Rightarrow> octets result" where
  "context_object_id tag object_type instance_number =
     cat [py_bytes [push_bit 4 tag OR 0x08 OR 4], object_id object_type instance_number]"

definition context_octet_string :: "int \<Rightarrow> octets \<Rightarrow> octets result" where
  "context_octet_string tag octets =
     (if length octets < 5
      then cat [py_bytes [push_bit 4 tag OR 0x08 OR int (length octets)], Inr octets]
      else cat [py_bytes [push_bit 4 tag OR 0x08 OR 5, int (length octets)], Inr octets])"

definition opening_tag :: "int \<Rightarrow> octets result" where
  "opening_tag tag = py_bytes [push_bit 4 tag OR 0x0E]"

definition closing_tag :: "int \<Rightarrow> octets result" where
  "closing_tag tag = py_bytes [push_bit 4 tag OR 0x0F]"

definition application_unsigned :: "int \<Rightarrow> octets result" where
  "application_unsigned v =
     rbind (unsigned_octets v) (\<lambda>body. cat [py_bytes [0x20 OR int (length body)], Inr body])"

definition application_enumerated :: "int \<Rightarrow> octets result" where
  "application_enumerated v =
     rbind (unsigned_octets v) (\<lambda>body. cat [py_bytes [0x90 OR int (length body)], Inr body])"

definition application_null :: "octets result" where
  "application_null = py_bytes [0x00]"

definition application_boolean :: "bool \<Rightarrow> octets result" where
  "application_boolean v = py_bytes [if v then 0x11 else 0x10]"

definition application_real :: "py_float \<Rightarrow> octets result" where
  "application_real v = cat [py_bytes [0x44], pack_f v]"

definition application_object_id :: "int \<Rightarrow> int \<Rightarrow> octets result" where
  "application_object_id object_type instance_number =
     cat [py_bytes [0xC4], object_id object_type instance_number]"

text \<open>\<open>b"\x00" + text.encode("utf-8")\<close>.\<close>

definition text_body :: "pystr \<Rightarrow> octets result" where
  "text_body s = rbind (utf8_encode s) (\<lambda>u. Inr (0 # u))"

definition application_character_string :: "pystr \<Rightarrow> octets result" where
  "application_character_string s =
     rbind (text_body s) (\<lambda>body.
     if length body < 5 then cat [py_bytes [0x70 OR int (length body)], Inr body]
     else cat [py_bytes [0x75, int (length body)], Inr body])"

section \<open>Requests and answers\<close>

definition confirmed_request :: "int \<Rightarrow> int \<Rightarrow> octets \<Rightarrow> octets result" where
  "confirmed_request invoke_id service parameters =
     cat [py_bytes [0x00, 0x05, invoke_id, service], Inr parameters]"

definition read_property_request :: "int \<Rightarrow> int \<Rightarrow> int \<Rightarrow> int \<Rightarrow> int option \<Rightarrow> octets result" where
  "read_property_request invoke_id object_type instance_number property_identifier array_index =
     rbind (cat ([context_object_id 0 object_type instance_number,
                  context_unsigned 1 property_identifier] @
                 (case array_index of None \<Rightarrow> [] | Some i \<Rightarrow> [context_unsigned 2 i])))
       (confirmed_request invoke_id SERVICE_READ_PROPERTY)"

definition write_property_request ::
  "int \<Rightarrow> int \<Rightarrow> int \<Rightarrow> int \<Rightarrow> octets \<Rightarrow> int option \<Rightarrow> int option \<Rightarrow> octets result" where
  "write_property_request invoke_id object_type instance_number property_identifier value_octets
       priority array_index =
     rbind (cat ([context_object_id 0 object_type instance_number,
                  context_unsigned 1 property_identifier] @
                 (case array_index of None \<Rightarrow> [] | Some i \<Rightarrow> [context_unsigned 2 i]) @
                 [opening_tag 3, Inr value_octets, closing_tag 3] @
                 (case priority of None \<Rightarrow> [] | Some p \<Rightarrow> [context_unsigned 4 p])))
       (confirmed_request invoke_id SERVICE_WRITE_PROPERTY)"

definition reinitialize_device_request :: "int \<Rightarrow> int \<Rightarrow> pystr option \<Rightarrow> octets result" where
  "reinitialize_device_request invoke_id state password =
     rbind (cat ([context_unsigned 0 state] @
                 (case password of None \<Rightarrow> []
                  | Some p \<Rightarrow>
                      [rbind (text_body p) (\<lambda>body.
                       cat [if length body < 5 then py_bytes [0x18 OR int (length body)]
                            else py_bytes [0x1D, int (length body)], Inr body])])))
       (confirmed_request invoke_id SERVICE_REINITIALIZE_DEVICE)"

definition read_property_ack :: "int \<Rightarrow> int \<Rightarrow> int \<Rightarrow> int \<Rightarrow> octets \<Rightarrow> octets result" where
  "read_property_ack invoke_id object_type instance_number property_identifier value_octets =
     cat [py_bytes [0x30, invoke_id, SERVICE_READ_PROPERTY],
          context_object_id 0 object_type instance_number, context_unsigned 1 property_identifier,
          opening_tag 3, Inr value_octets, closing_tag 3]"

definition error_pdu :: "int \<Rightarrow> int \<Rightarrow> int \<Rightarrow> int \<Rightarrow> octets result" where
  "error_pdu invoke_id service error_class error_code =
     cat [py_bytes [0x50, invoke_id, service], application_enumerated error_class,
          application_enumerated error_code]"

text \<open>\<open>who_is(low, None)\<close> compares \<open>None\<close> with an integer, a \<open>TypeError\<close>.\<close>

definition who_is :: "int option \<Rightarrow> int option \<Rightarrow> octets result" where
  "who_is low high =
     cat ([py_bytes [0x10, SERVICE_WHO_IS]] @
          (case low of None \<Rightarrow> []
           | Some l \<Rightarrow> [context_unsigned 0 l,
                        (case high of None \<Rightarrow> Inl TypeError | Some h \<Rightarrow> context_unsigned 1 h)]))"

definition i_am :: "int \<Rightarrow> int \<Rightarrow> int \<Rightarrow> int \<Rightarrow> octets result" where
  "i_am device_instance vendor_identifier max_apdu segmentation =
     cat [py_bytes [0x10, SERVICE_I_AM], application_object_id OBJECT_TYPE_DEVICE device_instance,
          application_unsigned max_apdu, application_enumerated segmentation,
          application_unsigned vendor_identifier]"

text \<open>A property reference: the identifier and the array index, \<open>None\<close> for a bare identifier.\<close>

type_synonym reference = "int \<times> int option"

definition read_access_specification :: "int \<Rightarrow> int \<Rightarrow> reference list \<Rightarrow> octets result" where
  "read_access_specification object_type instance_number property_identifiers =
     cat ([context_object_id 0 object_type instance_number, opening_tag 1] @
          concat (map (\<lambda>(property_identifier, array_index).
            context_unsigned 0 property_identifier #
            (case array_index of None \<Rightarrow> [] | Some i \<Rightarrow> [context_unsigned 1 i])) property_identifiers) @
          [closing_tag 1])"

definition list_element_request ::
  "int \<Rightarrow> int \<Rightarrow> int \<Rightarrow> int \<Rightarrow> int \<Rightarrow> octets list \<Rightarrow> octets result" where
  "list_element_request invoke_id service object_type instance_number property_identifier elements =
     rbind (cat [context_object_id 0 object_type instance_number, context_unsigned 1 property_identifier,
                 opening_tag 3, Inr (concat elements), closing_tag 3])
       (confirmed_request invoke_id service)"

definition simple_ack :: "int \<Rightarrow> int \<Rightarrow> octets result" where
  "simple_ack invoke_id service = py_bytes [push_bit 4 PDU_SIMPLE_ACK, invoke_id, service]"

definition reject_pdu :: "int \<Rightarrow> int \<Rightarrow> octets result" where
  "reject_pdu invoke_id reason = py_bytes [push_bit 4 PDU_REJECT, invoke_id, reason]"

definition abort_pdu :: "int \<Rightarrow> int \<Rightarrow> bool \<Rightarrow> octets result" where
  "abort_pdu invoke_id reason server =
     py_bytes [push_bit 4 PDU_ABORT OR (if server then 1 else 0), invoke_id, reason]"

section \<open>Signed, bit-string, date and time values\<close>

fun signed_octets_from :: "nat list \<Rightarrow> int \<Rightarrow> octets result" where
  "signed_octets_from [] v = Inl ValueError"
| "signed_octets_from (n # ns) v =
     (if - push_bit (8 * n - 1) 1 \<le> v \<and> v < push_bit (8 * n - 1) 1 then to_bytes_signed v n
      else signed_octets_from ns v)"

definition signed_octets :: "int \<Rightarrow> octets result" where
  "signed_octets v = signed_octets_from [1, 2, 3, 4] v"

definition application_signed :: "int \<Rightarrow> octets result" where
  "application_signed v =
     rbind (signed_octets v) (\<lambda>body. cat [py_bytes [0x30 OR int (length body)], Inr body])"

definition application_octet_string :: "octets \<Rightarrow> octets result" where
  "application_octet_string octets =
     (if length octets < 5 then cat [py_bytes [0x60 OR int (length octets)], Inr octets]
      else if length octets < 254 then cat [py_bytes [0x65, int (length octets)], Inr octets]
      else cat [py_bytes [0x65, 254], pack_H (int (length octets)), Inr octets])"

definition context_signed :: "int \<Rightarrow> int \<Rightarrow> octets result" where
  "context_signed tag v =
     rbind (signed_octets v) (\<lambda>body.
     cat [py_bytes [push_bit 4 tag OR 0x08 OR int (length body)], Inr body])"

definition context_real :: "int \<Rightarrow> py_float \<Rightarrow> octets result" where
  "context_real tag v = cat [py_bytes [push_bit 4 tag OR 0x08 OR 4], pack_f v]"

definition context_boolean :: "int \<Rightarrow> bool \<Rightarrow> octets result" where
  "context_boolean tag v = py_bytes [push_bit 4 tag OR 0x08 OR 1, if v then 1 else 0]"

text \<open>The \<open>for index, bit in enumerate(bits)\<close> loop over the octet array.\<close>

fun set_bits :: "nat \<Rightarrow> bool list \<Rightarrow> octets \<Rightarrow> octets" where
  "set_bits i [] octets = octets"
| "set_bits i (b # bits) octets =
     set_bits (Suc i) bits
       (if b then octets[i div 8 := octets ! (i div 8) OR drop_bit (i mod 8) 0x80] else octets)"

definition application_bit_string :: "bool list \<Rightarrow> octets result" where
  "application_bit_string bits =
     (let octets = set_bits 0 bits (replicate ((length bits + 7) div 8) 0) in
      rbind (cat [py_bytes [int (length octets * 8) - int (length bits)], Inr octets]) (\<lambda>body.
      cat [py_bytes [0x80 OR int (length body)], Inr body]))"

definition context_bit_string :: "int \<Rightarrow> bool list \<Rightarrow> octets result" where
  "context_bit_string tag bits =
     rbind (application_bit_string bits) (\<lambda>octets.
     let body = drop 1 octets in
     cat [py_bytes [push_bit 4 tag OR 0x08 OR int (length body)], Inr body])"

definition status_flags :: "bool list \<Rightarrow> octets result" where
  "status_flags bits = application_bit_string bits"

definition application_date :: "int \<Rightarrow> int \<Rightarrow> int \<Rightarrow> int \<Rightarrow> octets result" where
  "application_date year month day weekday = py_bytes [0xA4, year - 1900, month, day, weekday]"

definition application_time :: "int \<Rightarrow> int \<Rightarrow> int \<Rightarrow> int \<Rightarrow> octets result" where
  "application_time hour minute second hundredths = py_bytes [0xB4, hour, minute, second, hundredths]"

definition context_character_string :: "int \<Rightarrow> pystr \<Rightarrow> octets result" where
  "context_character_string tag s =
     rbind (text_body s) (\<lambda>body.
     if length body < 5 then cat [py_bytes [push_bit 4 tag OR 0x08 OR int (length body)], Inr body]
     else cat [py_bytes [push_bit 4 tag OR 0x08 OR 5, int (length body)], Inr body])"

definition context_enumerated :: "int \<Rightarrow> int \<Rightarrow> octets result" where
  "context_enumerated tag v = context_unsigned tag v"

definition rpm_property_result :: "int \<times> octets option \<Rightarrow> octets result list" where
  "rpm_property_result r =
     (case r of (property_identifier, value_octets) \<Rightarrow>
      context_unsigned 2 property_identifier #
      (case value_octets of
         None \<Rightarrow> [opening_tag 5, application_enumerated ERROR_CLASS_PROPERTY,
                  application_enumerated ERROR_CODE_UNKNOWN_PROPERTY, closing_tag 5]
       | Some v \<Rightarrow> [opening_tag 4, Inr v, closing_tag 4]))"

definition read_property_multiple_ack ::
  "int \<Rightarrow> (int \<times> int \<times> (int \<times> octets option) list) list \<Rightarrow> octets result" where
  "read_property_multiple_ack invoke_id results =
     rbind (cat (concat (map (\<lambda>(object_type, instance_number, properties).
              [context_object_id 0 object_type instance_number, opening_tag 1] @
              concat (map rpm_property_result properties) @ [closing_tag 1]) results))) (\<lambda>body.
     cat [py_bytes [push_bit 4 PDU_COMPLEX_ACK, invoke_id, SERVICE_READ_PROPERTY_MULTIPLE], Inr body])"

definition write_group_request ::
  "int \<Rightarrow> int \<Rightarrow> (int \<times> octets \<times> int option) list \<Rightarrow> bool option \<Rightarrow> octets result" where
  "write_group_request group_number write_priority change_list inhibit_delay =
     rbind (cat (concat (map (\<lambda>(channel, value_octets, overriding_priority).
              context_unsigned 0 channel #
              (case overriding_priority of None \<Rightarrow> [] | Some p \<Rightarrow> [context_unsigned 1 p]) @
              [Inr value_octets]) change_list))) (\<lambda>change_octets.
     rbind (cat ([context_unsigned 0 group_number, context_unsigned 1 write_priority,
                  opening_tag 2, Inr change_octets, closing_tag 2] @
                 (case inhibit_delay of None \<Rightarrow> [] | Some d \<Rightarrow> [py_bytes [0x39, if d then 1 else 0]])))
       (\<lambda>parameters.
     cat [py_bytes [push_bit 4 PDU_UNCONFIRMED_REQUEST, SERVICE_WRITE_GROUP], Inr parameters]))"

end
