(* ===== verification/Codec_Tag.thy ===== *)
theory Codec_Tag
  imports Codec_Encode
begin

text \<open>
  Tags (clause 20.2.1): \<open>read_tag\<close> of \<^verbatim>\<open>src/wiretest/codec.py\<close>, the two loop shapes every
  decoder of the harness is built from (over all tags of an octet string, and up to the closing
  tag that matches an opening tag), and the theory that connects them to the encoders: an octet
  string \<open>is_tag\<close> when it is exactly one tag, and it is \<open>balanced\<close> when it is a complete run
  of tags whose opening and closing tags match. Both are kept under concatenation, and reading
  them inside any larger octet string gives the same tags.
\<close>

section \<open>Reading one tag\<close>

datatype kind = Open | Close | Value

record tag =
  tag_number :: int
  tag_context :: bool
  tag_kind :: kind
  tag_body :: octets
  tag_next :: nat

text \<open>The length octets that follow when the three-bit length field is 5.\<close>

definition extended_length :: "octets \<Rightarrow> nat \<Rightarrow> (int \<times> nat) result" where
  "extended_length data position =
     rbind (index data position) (\<lambda>l.
     if uint l = 254 then
       rbind (unpack_H (py_slice data (position + 1) (position + 3))) (\<lambda>v. Inr (v, position + 3))
     else if uint l = 255 then
       rbind (unpack_I (py_slice data (position + 1) (position + 5))) (\<lambda>v. Inr (v, position + 5))
     else Inr (uint l, position + 1))"

text \<open>The tag number: the high half of the first octet, or the next octet when that is 15.\<close>

definition tag_number_field :: "octets \<Rightarrow> nat \<Rightarrow> octet \<Rightarrow> (int \<times> nat) result" where
  "tag_number_field data position first =
     (if drop_bit 4 (uint first) = 0x0F
      then rbind (index data position) (\<lambda>n. Inr (uint n, position + 1))
      else Inr (drop_bit 4 (uint first), position))"

text \<open>What follows the tag number, from the class bit and the length field of the first octet.\<close>

definition tag_content :: "octets \<Rightarrow> bool \<Rightarrow> int \<Rightarrow> int \<Rightarrow> nat \<Rightarrow> tag result" where
  "tag_content data is_context length_value number position =
     (if is_context \<and> length_value = 6 then
        Inr \<lparr>tag_number = number, tag_context = True, tag_kind = Open, tag_body = [], tag_next = position\<rparr>
      else if is_context \<and> length_value = 7 then
        Inr \<lparr>tag_number = number, tag_context = True, tag_kind = Close, tag_body = [], tag_next = position\<rparr>
      else
      rbind (if length_value = 5 then extended_length data position else Inr (length_value, position))
        (\<lambda>(length_value, position).
      if \<not> is_context \<and> number = 1 then
        rbind (py_bytes [length_value]) (\<lambda>body.
        Inr \<lparr>tag_number = number, tag_context = False, tag_kind = Value, tag_body = body, tag_next = position\<rparr>)
      else
        Inr \<lparr>tag_number = number, tag_context = is_context, tag_kind = Value,
             tag_body = py_slice data position (position + nat length_value),
             tag_next = position + nat length_value\<rparr>))"

definition read_tag :: "octets \<Rightarrow> nat \<Rightarrow> tag result" where
  "read_tag data position =
     rbind (index data position) (\<lambda>first.
     rbind (tag_number_field data (position + 1) first) (\<lambda>(number, position).
     tag_content data (uint first AND 0x08 \<noteq> 0) (uint first AND 0x07) number position))"

section \<open>Progress, shifting and extending\<close>

lemma extended_length_progress:
  "extended_length data p = Inr (v, q) \<Longrightarrow> p < q"
  by (auto simp: extended_length_def rbind_eq_Inr split: if_splits)

lemma tag_content_progress: "tag_content data c l n p = Inr t \<Longrightarrow> p \<le> tag_next t"
  by (fastforce simp: tag_content_def rbind_eq_Inr split: if_splits prod.splits
      dest: extended_length_progress)

lemma read_tag_progress:
  assumes "read_tag data p = Inr t"
  shows "p < length data \<and> p < tag_next t"
proof -
  from assms obtain first n q where "index data p = Inr first"
    and "tag_number_field data (p + 1) first = Inr (n, q)"
    and "tag_content data (uint first AND 0x08 \<noteq> 0) (uint first AND 0x07) n q = Inr t"
    by (auto simp: read_tag_def rbind_eq_Inr)
  then show ?thesis
    by (auto simp: index_eq_Inr tag_number_field_def rbind_eq_Inr split: if_splits
        dest!: tag_content_progress)
qed

lemma read_tag_past_end: "length data \<le> p \<Longrightarrow> read_tag data p = Inl IndexError"
  by (simp add: read_tag_def index_def)

lemma extended_length_shift:
  "extended_length (pre @ d) (length pre + p)
     = rbind (extended_length d p) (\<lambda>(v, q). Inr (v, length pre + q))"
proof -
  have "py_slice (pre @ d) (length pre + p + 1) (length pre + p + 3) = py_slice d (p + 1) (p + 3)"
    and "py_slice (pre @ d) (length pre + p + 1) (length pre + p + 5) = py_slice d (p + 1) (p + 5)"
    by (simp_all only: add.assoc slice_append_right)
  then show ?thesis
    by (cases "index d p") (simp_all only: extended_length_def index_append_right, auto simp: add.assoc [symmetric])
qed

definition shift_tag :: "nat \<Rightarrow> tag \<Rightarrow> tag" where
  "shift_tag n t = t\<lparr>tag_next := n + tag_next t\<rparr>"

lemma shift_tag_simps [simp]:
  "tag_number (shift_tag n t) = tag_number t" "tag_context (shift_tag n t) = tag_context t"
  "tag_kind (shift_tag n t) = tag_kind t" "tag_body (shift_tag n t) = tag_body t"
  "tag_next (shift_tag n t) = n + tag_next t"
  by (simp_all add: shift_tag_def)

lemma tag_content_shift:
  "tag_content (pre @ d) c l n (length pre + p)
     = rbind (tag_content d c l n p) (\<lambda>t. Inr (shift_tag (length pre) t))"
proof -
  have s: "py_slice (pre @ d) (length pre + a) (length pre + a + b) = py_slice d a (a + b)" for a b
    using slice_append_right [of pre d a "a + b"] by (simp add: add.assoc)
  show ?thesis
  proof (cases "l = 5")
    case True
    then show ?thesis
      by (cases "extended_length d p")
        (auto simp: tag_content_def extended_length_shift s shift_tag_def add.assoc)
  next
    case False
    then show ?thesis
      by (auto simp: tag_content_def s shift_tag_def)
  qed
qed

lemma read_tag_shift:
  "read_tag (pre @ d) (length pre + p) = rbind (read_tag d p) (\<lambda>t. Inr (shift_tag (length pre) t))"
proof (cases "index d p")
  case (Inr first)
  have i: "index (pre @ d) (length pre + (p + 1)) = index d (p + 1)"
    by (rule index_append_right)
  have "tag_number_field (pre @ d) (length pre + (p + 1)) first
      = rbind (tag_number_field d (p + 1) first) (\<lambda>(n, q). Inr (n, length pre + q))"
    unfolding tag_number_field_def i by (cases "index d (p + 1)") auto
  with Inr show ?thesis
    by (cases "tag_number_field d (p + 1) first")
      (auto simp: read_tag_def tag_content_shift split: prod.splits)
qed (simp add: read_tag_def)

lemma extended_length_extend:
  assumes "extended_length d p = Inr (v, q)" and "q \<le> length d"
  shows "extended_length (d @ suf) p = Inr (v, q)"
  using assms
  by (auto simp: extended_length_def rbind_eq_Inr index_eq_Inr nth_append slice_append_left
      split: if_splits)

lemma tag_content_extend:
  assumes "tag_content d c l n p = Inr t" and "tag_next t \<le> length d"
  shows "tag_content (d @ suf) c l n p = Inr t"
proof (cases "c \<and> (l = 6 \<or> l = 7)")
  case True
  with assms show ?thesis by (auto simp: tag_content_def)
next
  case False
  with assms(1) obtain v q where l: "(if l = 5 then extended_length d p else Inr (l, p)) = Inr (v, q)"
    and t: "(if \<not> c \<and> n = 1 then
        rbind (py_bytes [v]) (\<lambda>body. Inr \<lparr>tag_number = n, tag_context = False, tag_kind = Value,
          tag_body = body, tag_next = q\<rparr>)
      else Inr \<lparr>tag_number = n, tag_context = c, tag_kind = Value,
        tag_body = py_slice d q (q + nat v), tag_next = q + nat v\<rparr>) = Inr t"
    by (auto simp: tag_content_def rbind_eq_Inr split: if_splits)
  have "q \<le> tag_next t" using t by (auto simp: rbind_eq_Inr split: if_splits)
  with l assms(2) have "(if l = 5 then extended_length (d @ suf) p else Inr (l, p)) = Inr (v, q)"
    by (auto intro: extended_length_extend split: if_splits)
  with False t assms(2) show ?thesis
    by (auto simp: tag_content_def slice_append_left split: if_splits)
qed

lemma read_tag_extend:
  assumes "read_tag d p = Inr t" and "tag_next t \<le> length d"
  shows "read_tag (d @ suf) p = Inr t"
proof -
  from assms(1) obtain first n q where f: "index d p = Inr first"
    and n: "tag_number_field d (p + 1) first = Inr (n, q)"
    and c: "tag_content d (uint first AND 0x08 \<noteq> 0) (uint first AND 0x07) n q = Inr t"
    by (auto simp: read_tag_def rbind_eq_Inr)
  have "index (d @ suf) p = Inr first" using f by (auto simp: index_eq_Inr nth_append)
  moreover have "tag_number_field (d @ suf) (p + 1) first = Inr (n, q)"
    using n by (auto simp: tag_number_field_def rbind_eq_Inr index_eq_Inr nth_append split: if_splits)
  ultimately show ?thesis
    using tag_content_extend [OF c assms(2)] by (simp add: read_tag_def)
qed

section \<open>The two loops over tags\<close>

text \<open>
  \<open>while position < len(data): ... = read_tag(data, position)\<close>: the loop body is a step on the
  loop's variables, which sees the position the tag starts at and the tag.
\<close>

function tag_loop :: "octets \<Rightarrow> (nat \<Rightarrow> tag \<Rightarrow> 's \<Rightarrow> 's result) \<Rightarrow> nat \<Rightarrow> 's \<Rightarrow> 's result" where
  "tag_loop data step position s =
     (if position < length data then
        rbind (read_tag data position) (\<lambda>t.
        rbind (step position t s) (\<lambda>s'. tag_loop data step (tag_next t) s'))
      else Inr s)"
  by pat_completeness auto
termination
  by (relation "measure (\<lambda>(data, step, position, s). length data - position)")
    (auto dest: read_tag_progress)

declare tag_loop.simps [simp del]

text \<open>
  \<open>while depth: ...\<close>, from just after an opening tag at depth 1: where the matching closing tag
  starts, and the position after it.
\<close>

function close_of :: "octets \<Rightarrow> nat \<Rightarrow> nat \<Rightarrow> (nat \<times> nat) result" where
  "close_of data depth position =
     rbind (read_tag data position) (\<lambda>t.
     case tag_kind t of
       Open \<Rightarrow> close_of data (depth + 1) (tag_next t)
     | Close \<Rightarrow> (if depth \<le> 1 then Inr (position, tag_next t) else close_of data (depth - 1) (tag_next t))
     | Value \<Rightarrow> close_of data depth (tag_next t))"
  by pat_completeness auto
termination
  by (relation "measure (\<lambda>(data, depth, position). length data - position)")
    (auto dest: read_tag_progress)

declare close_of.simps [simp del]

lemma close_of_progress: "close_of data d p = Inr (a, b) \<Longrightarrow> p \<le> a \<and> a < b \<and> p < length data"
proof (induction data d p rule: close_of.induct)
  case (1 data d p)
  from "1.prems" obtain t where t: "read_tag data p = Inr t"
    by (subst (asm) close_of.simps) (auto simp: rbind_eq_Inr)
  from read_tag_progress [OF t] "1.prems" "1.IH" [OF t] show ?case
    by (auto simp: close_of.simps [of data d p] t split: kind.splits if_splits; fastforce)
qed

section \<open>Octet strings that are one tag\<close>

definition is_tag :: "octets \<Rightarrow> int \<Rightarrow> bool \<Rightarrow> kind \<Rightarrow> octets \<Rightarrow> bool" where
  "is_tag c number is_context k body \<longleftrightarrow>
     read_tag c 0 = Inr \<lparr>tag_number = number, tag_context = is_context, tag_kind = k,
       tag_body = body, tag_next = length c\<rparr>"

lemma read_tag_at:
  assumes "is_tag c number is_context k body"
  shows "read_tag (pre @ c @ suf) (length pre) =
    Inr \<lparr>tag_number = number, tag_context = is_context, tag_kind = k, tag_body = body,
      tag_next = length pre + length c\<rparr>"
proof -
  have "read_tag (c @ suf) 0 = Inr \<lparr>tag_number = number, tag_context = is_context, tag_kind = k,
      tag_body = body, tag_next = length c\<rparr>"
    using assms by (intro read_tag_extend) (simp_all add: is_tag_def)
  with read_tag_shift [of pre "c @ suf" 0] show ?thesis by (simp add: shift_tag_def)
qed

lemma is_tag_nonempty: "is_tag c n x k b \<Longrightarrow> c \<noteq> []"
  by (auto simp: is_tag_def read_tag_def)

lemma tag_loop_at:
  assumes "is_tag c number is_context k body"
  shows "tag_loop (pre @ c @ suf) step (length pre) s =
    rbind (step (length pre) \<lparr>tag_number = number, tag_context = is_context, tag_kind = k,
        tag_body = body, tag_next = length pre + length c\<rparr> s)
      (tag_loop ((pre @ c) @ suf) step (length (pre @ c)))"
proof -
  have "tag_loop (pre @ c @ suf) step (length pre) s =
      rbind (read_tag (pre @ c @ suf) (length pre)) (\<lambda>t.
      rbind (step (length pre) t s) (\<lambda>s'. tag_loop (pre @ c @ suf) step (tag_next t) s'))"
    using is_tag_nonempty [OF assms] by (subst tag_loop.simps) simp
  then show ?thesis unfolding read_tag_at [OF assms] by simp
qed

lemma tag_loop_end: "tag_loop data step (length data) s = Inr s"
  by (subst tag_loop.simps) simp

section \<open>Complete runs of tags\<close>

function balanced_from :: "octets \<Rightarrow> nat \<Rightarrow> nat \<Rightarrow> bool" where
  "balanced_from data depth position =
     (if position < length data then
        (case read_tag data position of
           Inl _ \<Rightarrow> False
         | Inr t \<Rightarrow> (case tag_kind t of
             Open \<Rightarrow> balanced_from data (depth + 1) (tag_next t)
           | Close \<Rightarrow> depth > 0 \<and> balanced_from data (depth - 1) (tag_next t)
           | Value \<Rightarrow> balanced_from data depth (tag_next t)))
      else position = length data \<and> depth = 0)"
  by pat_completeness auto
termination
  by (relation "measure (\<lambda>(data, depth, position). length data - position)")
    (auto dest: read_tag_progress)

declare balanced_from.simps [simp del]

definition balanced :: "octets \<Rightarrow> bool" where
  "balanced data = balanced_from data 0 0"

lemma balanced_from_end: "balanced_from data d p \<Longrightarrow> p \<le> length data"
  by (subst (asm) balanced_from.simps) (auto split: if_splits)

lemma balanced_from_shift: "balanced_from (pre @ data) d (length pre + p) = balanced_from data d p"
proof (induction data d p rule: balanced_from.induct)
  case (1 data d p)
  show ?case
  proof (cases "read_tag data p")
    case (Inl e)
    then show ?thesis
      by (simp add: balanced_from.simps [of data d p] balanced_from.simps [of "pre @ data" d "length pre + p"]
          read_tag_shift)
  next
    case (Inr t)
    with 1 read_tag_progress [OF Inr] show ?thesis
      by (cases "tag_kind t")
        (simp_all add: balanced_from.simps [of data d p]
          balanced_from.simps [of "pre @ data" d "length pre + p"] read_tag_shift)
  qed
qed

lemma balanced_from_step:
  assumes "balanced_from data d p" and "p < length data"
  obtains t where "read_tag data p = Inr t" and "tag_next t \<le> length data"
    and "tag_kind t = Open \<Longrightarrow> balanced_from data (Suc d) (tag_next t)"
    and "tag_kind t = Close \<Longrightarrow> 0 < d \<and> balanced_from data (d - 1) (tag_next t)"
    and "tag_kind t = Value \<Longrightarrow> balanced_from data d (tag_next t)"
proof -
  from assms obtain t where t: "read_tag data p = Inr t"
    by (subst (asm) balanced_from.simps) (auto split: sum.splits)
  with assms have "(case tag_kind t of Open \<Rightarrow> balanced_from data (d + 1) (tag_next t)
      | Close \<Rightarrow> d > 0 \<and> balanced_from data (d - 1) (tag_next t)
      | Value \<Rightarrow> balanced_from data d (tag_next t))"
    by (subst (asm) balanced_from.simps) simp
  with t show thesis
    by (intro that [of t]) (auto split: kind.splits dest: balanced_from_end)
qed

text \<open>Induction over a complete run: the last position, and one rule per kind of tag.\<close>

lemma balanced_from_induct [consumes 1, case_names End Open Close Value]:
  assumes "balanced_from data d p"
    and "P (length data) 0"
    and "\<And>d p t. read_tag data p = Inr t \<Longrightarrow> tag_next t \<le> length data \<Longrightarrow> tag_kind t = Open \<Longrightarrow>
      P (tag_next t) (Suc d) \<Longrightarrow> P p d"
    and "\<And>d p t. read_tag data p = Inr t \<Longrightarrow> tag_next t \<le> length data \<Longrightarrow> tag_kind t = Close \<Longrightarrow>
      P (tag_next t) d \<Longrightarrow> P p (Suc d)"
    and "\<And>d p t. read_tag data p = Inr t \<Longrightarrow> tag_next t \<le> length data \<Longrightarrow> tag_kind t = Value \<Longrightarrow>
      P (tag_next t) d \<Longrightarrow> P p d"
  shows "P p d"
  using assms(1)
proof (induction "length data - p" arbitrary: d p rule: less_induct)
  case less
  show ?case
  proof (cases "p < length data")
    case False
    with less.prems have "p = length data" "d = 0"
      by (subst (asm) balanced_from.simps; simp)+
    with assms(2) show ?thesis by simp
  next
    case True
    from balanced_from_step [OF less.prems True] obtain t where t: "read_tag data p = Inr t"
      and n: "tag_next t \<le> length data"
      and k: "tag_kind t = Open \<Longrightarrow> balanced_from data (Suc d) (tag_next t)"
        "tag_kind t = Close \<Longrightarrow> 0 < d \<and> balanced_from data (d - 1) (tag_next t)"
        "tag_kind t = Value \<Longrightarrow> balanced_from data d (tag_next t)" by blast
    have less': "length data - tag_next t < length data - p"
      using read_tag_progress [OF t] by auto
    show ?thesis
    proof (cases "tag_kind t")
      case Open
      with less.hyps [OF less' k(1)] show ?thesis using assms(3) [OF t n] by simp
    next
      case Close
      with k(2) obtain d' where "d = Suc d'" by (cases d) auto
      with Close less.hyps [OF less', of d'] k(2) show ?thesis using assms(4) [OF t n] by simp
    next
      case Value
      with less.hyps [OF less' k(3)] show ?thesis using assms(5) [OF t n] by simp
    qed
  qed
qed

lemma balanced_from_append:
  assumes "balanced_from data d p"
  shows "balanced_from (data @ suf) (d + k) p = balanced_from (data @ suf) k (length data)"
  using assms
proof (induction rule: balanced_from_induct)
  case (Open d p t)
  then show ?case
    using read_tag_progress [OF Open(1)] read_tag_extend [OF Open(1,2), of suf]
    by (subst balanced_from.simps) simp
next
  case (Close d p t)
  then show ?case
    using read_tag_progress [OF Close(1)] read_tag_extend [OF Close(1,2), of suf]
    by (subst balanced_from.simps) simp
next
  case (Value d p t)
  then show ?case
    using read_tag_progress [OF Value(1)] read_tag_extend [OF Value(1,2), of suf]
    by (subst balanced_from.simps) simp
qed simp

lemma balanced_Nil [simp, balanced_intros]: "balanced []"
  by (simp add: balanced_def balanced_from.simps)

lemma balanced_append [balanced_intros]: "balanced a \<Longrightarrow> balanced b \<Longrightarrow> balanced (a @ b)"
  using balanced_from_append [of a 0 0 b 0] balanced_from_shift [of a b 0 0] by (simp add: balanced_def)

lemma balanced_concat: "(\<And>x. x \<in> set xs \<Longrightarrow> balanced x) \<Longrightarrow> balanced (concat xs)"
  by (induction xs) (auto intro: balanced_append)

lemma balanced_value: "is_tag c n x Value b \<Longrightarrow> balanced c"
  using is_tag_nonempty [of c n x Value b]
  by (simp add: balanced_def balanced_from.simps [of c 0 0] balanced_from.simps [of c 0 "length c"] is_tag_def)

text \<open>Inside any octet string, a complete run leaves the depth of the closing-tag loop as it was.\<close>

lemma close_of_run:
  assumes "balanced_from v d p"
  shows "close_of (pre @ v @ suf) (Suc d) (length pre + p) = close_of (pre @ v @ suf) 1 (length pre + length v)"
  using assms
proof (induction rule: balanced_from_induct)
  case (Open d p t)
  have "read_tag (pre @ v @ suf) (length pre + p) = Inr (shift_tag (length pre) t)"
    using read_tag_shift [of pre "v @ suf" p] read_tag_extend [OF Open(1,2), of suf] by simp
  with Open show ?case by (subst close_of.simps) simp
next
  case (Close d p t)
  have "read_tag (pre @ v @ suf) (length pre + p) = Inr (shift_tag (length pre) t)"
    using read_tag_shift [of pre "v @ suf" p] read_tag_extend [OF Close(1,2), of suf] by simp
  with Close show ?case by (subst close_of.simps) simp
next
  case (Value d p t)
  have "read_tag (pre @ v @ suf) (length pre + p) = Inr (shift_tag (length pre) t)"
    using read_tag_shift [of pre "v @ suf" p] read_tag_extend [OF Value(1,2), of suf] by simp
  with Value show ?case by (subst close_of.simps) simp
qed simp

lemma close_of_balanced:
  assumes "balanced v" and "is_tag c n x Close b"
  shows "close_of (pre @ v @ c @ suf) 1 (length pre)
    = Inr (length pre + length v, length pre + length v + length c)"
proof -
  have "close_of (pre @ v @ c @ suf) 1 (length pre) = close_of (pre @ v @ c @ suf) 1 (length pre + length v)"
    using close_of_run [of v 0 0 pre "c @ suf"] assms(1) by (simp add: balanced_def)
  moreover have "read_tag (pre @ v @ c @ suf) (length pre + length v) =
      Inr \<lparr>tag_number = n, tag_context = x, tag_kind = Close, tag_body = b,
        tag_next = length pre + length v + length c\<rparr>"
    using read_tag_at [OF assms(2), of "pre @ v" suf] by simp
  ultimately show ?thesis by (simp add: close_of.simps [of _ "Suc 0" "length pre + length v"])
qed

lemma balanced_constructed:
  assumes "is_tag opn n x Open b" and "balanced v" and "is_tag cls m y Close b'"
  shows "balanced (opn @ v @ cls)"
proof -
  let ?d = "opn @ v @ cls"
  have o: "read_tag ?d 0 = Inr \<lparr>tag_number = n, tag_context = x, tag_kind = Open, tag_body = b,
      tag_next = length opn\<rparr>"
    using read_tag_at [OF assms(1), of "[]" "v @ cls"] by simp
  have c: "read_tag cls 0 = Inr \<lparr>tag_number = m, tag_context = y, tag_kind = Close, tag_body = b',
      tag_next = length cls\<rparr>"
    using assms(3) by (simp add: is_tag_def)
  have "balanced_from (v @ cls) 1 0 = balanced_from cls 1 0"
    using balanced_from_append [of v 0 0 cls 1] balanced_from_shift [of v cls 1 0] assms(2)
    by (simp add: balanced_def)
  also have "\<dots>"
    using c is_tag_nonempty [OF assms(3)]
    by (simp add: balanced_from.simps [of cls "Suc 0" 0] balanced_from.simps [of cls 0 "length cls"])
  finally have "balanced_from ?d 1 (length opn)"
    using balanced_from_shift [of opn "v @ cls" 1 0] by simp
  then show ?thesis
    using o is_tag_nonempty [OF assms(1)] by (simp add: balanced_def balanced_from.simps [of ?d 0 0])
qed

section \<open>The encoders make tags\<close>

text \<open>The header octet: tag number, class bit and length field side by side.\<close>

lemma or_low_bits:
  assumes "0 \<le> b" and "b < 2 ^ n"
  shows "push_bit n a OR b = a * 2 ^ n + (b :: int)"
proof -
  have low: "bit b k \<Longrightarrow> k < n" for k
    using assms by (metis bit_take_bit_iff take_bit_int_eq_self)
  then have "push_bit n a AND b = 0"
    by (intro bit_eqI) (auto simp: bit_and_iff bit_push_bit_iff dest!: low)
  then have "push_bit n a OR b = push_bit n a + b"
    by (rule disjunctive_add_eq_or [symmetric])
  then show ?thesis by (simp add: push_bit_eq_mult)
qed

lemma or_8: "0 \<le> l \<Longrightarrow> l < 8 \<Longrightarrow> 8 OR l = 8 + (l :: int)"
  using or_low_bits [of l 3 1] by (simp add: push_bit_eq_mult)

lemma header_context [codec_simps]:
  "0 \<le> l \<Longrightarrow> l < 8 \<Longrightarrow> push_bit 4 t OR (8 OR l) = t * 16 + 8 + (l :: int)"
  using or_low_bits [of "8 + l" 4 t] by (simp add: or_8)

lemma header_context' [codec_simps]:
  "0 \<le> l \<Longrightarrow> l < 8 \<Longrightarrow> push_bit 4 t OR 8 OR l = t * 16 + 8 + (l :: int)"
  by (simp add: or.assoc header_context)

lemma and_8: "(x AND 8 \<noteq> 0) = odd (x div (8 :: int))"
  using and_exp_eq_0_iff_not_bit [of x 3] by (simp add: bit_iff_odd)

lemma and_7: "x AND 7 = x mod (8 :: int)"
  using take_bit_eq_mask [of 3 x] by (simp add: take_bit_eq_mod mask_eq_exp_minus_1)

lemma header_fields:
  assumes "0 \<le> t" "t < 15" "0 \<le> l" "l < 8"
  shows "uint (octet_of (t * 16 + 8 + l)) = t * 16 + 8 + l"
    and "drop_bit 4 (t * 16 + 8 + l) = t"
    and "(t * 16 + 8 + l) AND 8 \<noteq> 0" and "(t * 16 + 8 + l) AND 7 = l"
    and "uint (octet_of (t * 16 + l)) = t * 16 + l"
    and "drop_bit 4 (t * 16 + l) = t"
    and "(t * 16 + l) AND 8 = 0" and "(t * 16 + l) AND 7 = l"
proof -
  have "(t * 16 + 8 + l) div 8 = 2 * t + 1" "(t * 16 + l) div 8 = 2 * t" using assms by auto
  then show "(t * 16 + 8 + l) AND 8 \<noteq> 0" "(t * 16 + l) AND 8 = 0"
    using and_8 [of "t * 16 + 8 + l"] and_8 [of "t * 16 + l"] by simp_all
  show "(t * 16 + 8 + l) AND 7 = l" "(t * 16 + l) AND 7 = l"
    unfolding and_7 using assms by presburger+
qed (use assms in \<open>auto simp: uint_octet_of drop_bit_eq_div\<close>)

text \<open>A context or application tag whose length field holds the length.\<close>

lemma is_tag_context [tag_intros]:
  assumes "0 \<le> t" "t < 15" "length body < 5"
  shows "is_tag (octet_of (t * 16 + 8 + int (length body)) # body) t True Value body"
  using header_fields [OF assms(1,2), of "int (length body)"] assms
  by (simp add: is_tag_def read_tag_def tag_number_field_def tag_content_def py_slice_def)

lemma is_tag_context_long [tag_intros]:
  assumes "0 \<le> t" "t < 15" "length body < 254"
  shows "is_tag (octet_of (t * 16 + 8 + 5) # octet_of (int (length body)) # body) t True Value body"
  using header_fields [OF assms(1,2), of 5] assms
  by (simp add: is_tag_def read_tag_def tag_number_field_def tag_content_def py_slice_def
      extended_length_def uint_octet_of)

lemma is_tag_application [tag_intros]:
  assumes "0 \<le> t" "t < 15" "t \<noteq> 1" "length body < 5"
  shows "is_tag (octet_of (t * 16 + int (length body)) # body) t False Value body"
  using header_fields [OF assms(1,2), of "int (length body)"] assms
  by (simp add: is_tag_def read_tag_def tag_number_field_def tag_content_def py_slice_def)

lemma is_tag_application_long [tag_intros]:
  assumes "0 \<le> t" "t < 15" "t \<noteq> 1" "length body < 254"
  shows "is_tag (octet_of (t * 16 + 5) # octet_of (int (length body)) # body) t False Value body"
  using header_fields [OF assms(1,2), of 5] assms
  by (simp add: is_tag_def read_tag_def tag_number_field_def tag_content_def py_slice_def
      extended_length_def uint_octet_of)

lemma is_tag_application_254 [tag_intros]:
  assumes "0 \<le> t" "t < 15" "t \<noteq> 1" "length body < 65536"
  shows "is_tag (octet_of (t * 16 + 5) # octet_of 254 # be_octets 2 (int (length body)) @ body) t False Value body"
  using header_fields [OF assms(1,2), of 5] assms
  by (simp add: is_tag_def read_tag_def tag_number_field_def tag_content_def py_slice_def
      extended_length_def uint_octet_of)

lemma is_tag_application_boolean [tag_intros]:
  assumes "0 \<le> l" "l < 5"
  shows "is_tag [octet_of (16 + l)] 1 False Value [octet_of l]"
  using header_fields [of 1 l] assms
  by (simp add: is_tag_def read_tag_def tag_number_field_def tag_content_def py_bytes_def)

lemma is_tag_opening [tag_intros]:
  assumes "0 \<le> t" "t < 15"
  shows "is_tag [octet_of (t * 16 + 14)] t True Open []"
  using assms header_fields [OF assms, of 6]
  by (simp add: add.commute is_tag_def read_tag_def tag_number_field_def tag_content_def)

lemma is_tag_closing [tag_intros]:
  assumes "0 \<le> t" "t < 15"
  shows "is_tag [octet_of (t * 16 + 15)] t True Close []"
  using assms header_fields [OF assms, of 7]
  by (simp add: add.commute is_tag_def read_tag_def tag_number_field_def tag_content_def)

section \<open>Closed forms of the encoders\<close>

text \<open>
  What clause 20.2.1 prescribes for a primitive tag with a number below 15: the length in the
  header octet when it is below 5, else one further octet, else 254 and two octets.
\<close>

definition length_octets :: "nat \<Rightarrow> octets" where
  "length_octets n =
     (if n < 5 then [] else if n < 254 then [octet_of (int n)] else octet_of 254 # be_octets 2 (int n))"

definition ctx_prim :: "int \<Rightarrow> octets \<Rightarrow> octets" where
  "ctx_prim t body =
     octet_of (t * 16 + 8 + (if length body < 5 then int (length body) else 5)) # length_octets (length body) @ body"

definition app_prim :: "int \<Rightarrow> octets \<Rightarrow> octets" where
  "app_prim t body =
     octet_of (t * 16 + (if length body < 5 then int (length body) else 5)) # length_octets (length body) @ body"

definition open_prim :: "int \<Rightarrow> octets" where
  "open_prim t = [octet_of (t * 16 + 14)]"

definition close_prim :: "int \<Rightarrow> octets" where
  "close_prim t = [octet_of (t * 16 + 15)]"

definition u_octets :: "int \<Rightarrow> octets" where
  "u_octets v = be_octets (if v < 256 then 1 else if v < 65536 then 2 else if v < 16777216 then 3 else 4) v"

definition s_octets :: "int \<Rightarrow> octets" where
  "s_octets v =
     (let n = (if - 128 \<le> v \<and> v < 128 then 1 else if - 32768 \<le> v \<and> v < 32768 then 2
               else if - 8388608 \<le> v \<and> v < 8388608 then 3 else 4)
      in be_octets n (v mod 256 ^ n))"

definition oid :: "int \<Rightarrow> int \<Rightarrow> octets" where
  "oid object_type instance_number = be_octets 4 (object_type * 4194304 + instance_number)"

text \<open>The ranges the encoders accept.\<close>

abbreviation (input) unsigned8 :: "int \<Rightarrow> bool" where "unsigned8 v \<equiv> 0 \<le> v \<and> v < 256"
abbreviation (input) unsigned32 :: "int \<Rightarrow> bool" where "unsigned32 v \<equiv> 0 \<le> v \<and> v < 4294967296"
abbreviation (input) signed32 :: "int \<Rightarrow> bool" where "signed32 v \<equiv> - 2147483648 \<le> v \<and> v < 2147483648"
abbreviation (input) object_range :: "int \<Rightarrow> int \<Rightarrow> bool" where
  "object_range object_type instance_number \<equiv>
     0 \<le> object_type \<and> object_type < 1024 \<and> 0 \<le> instance_number \<and> instance_number \<le> MAX_INSTANCE"

lemma is_tag_ctx_prim [tag_intros]:
  assumes "0 \<le> t" "t < 15" "length body < 65536"
  shows "is_tag (ctx_prim t body) t True Value body"
proof (cases "length body < 254")
  case True
  with assms is_tag_context [of t body] is_tag_context_long [of t body] show ?thesis
    by (auto simp: ctx_prim_def length_octets_def)
next
  case False
  with header_fields [OF assms(1,2), of 5] assms show ?thesis
    by (simp add: ctx_prim_def length_octets_def is_tag_def read_tag_def tag_number_field_def
        tag_content_def py_slice_def extended_length_def uint_octet_of)
qed

lemma is_tag_app_prim [tag_intros]:
  assumes "0 \<le> t" "t < 15" "t \<noteq> 1" "length body < 65536"
  shows "is_tag (app_prim t body) t False Value body"
  using assms is_tag_application [of t body] is_tag_application_long [of t body]
    is_tag_application_254 [of t body]
  by (auto simp: app_prim_def length_octets_def)

lemma is_tag_open_prim [tag_intros]: "0 \<le> t \<Longrightarrow> t < 15 \<Longrightarrow> is_tag (open_prim t) t True Open []"
  unfolding open_prim_def by (rule is_tag_opening)

lemma is_tag_close_prim [tag_intros]: "0 \<le> t \<Longrightarrow> t < 15 \<Longrightarrow> is_tag (close_prim t) t True Close []"
  unfolding close_prim_def by (rule is_tag_closing)

lemma balanced_ctx_prim [balanced_intros]:
  "0 \<le> t \<Longrightarrow> t < 15 \<Longrightarrow> length body < 65536 \<Longrightarrow> balanced (ctx_prim t body)"
  by (rule balanced_value, rule is_tag_ctx_prim)

lemma balanced_app_prim [balanced_intros]:
  "0 \<le> t \<Longrightarrow> t < 15 \<Longrightarrow> t \<noteq> 1 \<Longrightarrow> length body < 65536 \<Longrightarrow> balanced (app_prim t body)"
  by (rule balanced_value, rule is_tag_app_prim)

lemma balanced_open_close [balanced_intros]:
  "0 \<le> t \<Longrightarrow> t < 15 \<Longrightarrow> balanced v \<Longrightarrow> balanced (open_prim t @ v @ close_prim t)"
  by (rule balanced_constructed [OF is_tag_open_prim _ is_tag_close_prim])

lemma unsigned_octets_eq [codec_simps]:
  "unsigned32 v \<Longrightarrow> unsigned_octets v = Inr (u_octets v)"
  by (simp add: unsigned_octets_def to_bytes_def u_octets_def push_bit_eq_mult)

lemma u_octets_length: "length (u_octets v) < 5" "0 < length (u_octets v)"
  by (simp_all add: u_octets_def)

lemma from_bytes_u_octets [simp]: "unsigned32 v \<Longrightarrow> from_bytes (u_octets v) = v"
  by (simp add: u_octets_def from_bytes_be_octets_mod)

lemma signed_octets_eq [codec_simps]:
  "signed32 v \<Longrightarrow> signed_octets v = Inr (s_octets v)"
  by (simp add: signed_octets_def to_bytes_signed_def s_octets_def push_bit_eq_mult Let_def)

lemma s_octets_length: "length (s_octets v) < 5" "0 < length (s_octets v)"
  by (simp_all add: s_octets_def Let_def)

lemma from_bytes_signed_s_octets [simp]:
  assumes "signed32 v" shows "from_bytes_signed (s_octets v) = v"
proof -
  define n :: nat where "n = length (s_octets v)"
  have "to_bytes_signed v n = Inr (s_octets v)"
    using assms by (simp add: n_def s_octets_def to_bytes_signed_def Let_def)
  then show ?thesis by (rule from_bytes_signed_to_bytes) (simp add: n_def s_octets_def Let_def)
qed

lemma object_id_eq [codec_simps]:
  "object_range ot i \<Longrightarrow> object_id ot i = Inr (oid ot i)"
  using or_low_bits [of i 22 ot] by (simp add: object_id_def pack_I_def oid_def)

lemma oid_length [simp]: "length (oid ot i) = 4"
  by (simp add: oid_def)

lemma unpack_I_oid [simp]:
  "object_range ot i \<Longrightarrow> unpack_I (oid ot i) = Inr (ot * 4194304 + i)"
  by (simp add: oid_def)

lemma header_app: "0 \<le> l \<Longrightarrow> l < 8 \<Longrightarrow> (t * 16) OR l = t * 16 + (l :: int)"
  using or_low_bits [of l 4 t] by (simp add: push_bit_eq_mult)

lemma context_unsigned_eq [codec_simps]:
  "0 \<le> t \<Longrightarrow> t < 15 \<Longrightarrow> unsigned32 v \<Longrightarrow> context_unsigned t v = Inr (ctx_prim t (u_octets v))"
  using u_octets_length(1) [of v]
  by (simp add: context_unsigned_def unsigned_octets_eq header_context ctx_prim_def length_octets_def
      py_bytes_def or.assoc)

lemma context_enumerated_eq [codec_simps]:
  "0 \<le> t \<Longrightarrow> t < 15 \<Longrightarrow> unsigned32 v \<Longrightarrow> context_enumerated t v = Inr (ctx_prim t (u_octets v))"
  by (simp add: context_enumerated_def context_unsigned_eq)

lemma context_signed_eq [codec_simps]:
  "0 \<le> t \<Longrightarrow> t < 15 \<Longrightarrow> signed32 v \<Longrightarrow> context_signed t v = Inr (ctx_prim t (s_octets v))"
  using s_octets_length(1) [of v]
  by (simp add: context_signed_def signed_octets_eq header_context ctx_prim_def length_octets_def
      py_bytes_def or.assoc)

lemma context_object_id_eq [codec_simps]:
  "0 \<le> t \<Longrightarrow> t < 15 \<Longrightarrow> object_range ot i \<Longrightarrow> context_object_id t ot i = Inr (ctx_prim t (oid ot i))"
  using header_context [of 4 t]
  by (simp add: context_object_id_def object_id_eq ctx_prim_def length_octets_def py_bytes_def or.assoc)

lemma context_boolean_eq [codec_simps]:
  "0 \<le> t \<Longrightarrow> t < 15 \<Longrightarrow> context_boolean t v = Inr (ctx_prim t [of_bool v])"
  using header_context [of 1 t]
  by (simp add: context_boolean_def ctx_prim_def length_octets_def py_bytes_def or.assoc octet_of_def)

lemma opening_tag_eq [codec_simps]: "0 \<le> t \<Longrightarrow> t < 15 \<Longrightarrow> opening_tag t = Inr (open_prim t)"
  using or_low_bits [of 14 4 t] by (simp add: opening_tag_def open_prim_def py_bytes_def)

lemma closing_tag_eq [codec_simps]: "0 \<le> t \<Longrightarrow> t < 15 \<Longrightarrow> closing_tag t = Inr (close_prim t)"
  using or_low_bits [of 15 4 t] by (simp add: closing_tag_def close_prim_def py_bytes_def)

lemma application_unsigned_eq [codec_simps]:
  "unsigned32 v \<Longrightarrow> application_unsigned v = Inr (app_prim 2 (u_octets v))"
  using u_octets_length(1) [of v] header_app [of "int (length (u_octets v))" 2]
  by (simp add: application_unsigned_def unsigned_octets_eq app_prim_def length_octets_def py_bytes_def)

lemma application_enumerated_eq [codec_simps]:
  "unsigned32 v \<Longrightarrow> application_enumerated v = Inr (app_prim 9 (u_octets v))"
  using u_octets_length(1) [of v] header_app [of "int (length (u_octets v))" 9]
  by (simp add: application_enumerated_def unsigned_octets_eq app_prim_def length_octets_def py_bytes_def)

lemma application_signed_eq [codec_simps]:
  "signed32 v \<Longrightarrow> application_signed v = Inr (app_prim 3 (s_octets v))"
  using s_octets_length(1) [of v] header_app [of "int (length (s_octets v))" 3]
  by (simp add: application_signed_def signed_octets_eq app_prim_def length_octets_def py_bytes_def)

lemma application_object_id_eq [codec_simps]:
  "object_range ot i \<Longrightarrow> application_object_id ot i = Inr (app_prim 12 (oid ot i))"
  by (simp add: application_object_id_def object_id_eq app_prim_def length_octets_def py_bytes_def)

lemma application_null_eq [codec_simps]: "application_null = Inr (app_prim 0 [])"
  by (simp add: application_null_def app_prim_def length_octets_def py_bytes_def)

lemma application_octet_string_eq [codec_simps]:
  "length b < 65536 \<Longrightarrow> application_octet_string b = Inr (app_prim 6 b)"
  using header_app [of "int (length b)" 6]
  by (simp add: application_octet_string_def app_prim_def length_octets_def py_bytes_def pack_H_def)

lemma text_body_eq [codec_simps]: "utf8_encode s = Inr u \<Longrightarrow> text_body s = Inr (0 # u)"
  by (simp add: text_body_def)

lemma application_character_string_eq [codec_simps]:
  assumes "utf8_encode s = Inr u" "length u < 253"
  shows "application_character_string s = Inr (app_prim 7 (0 # u))"
  using assms header_app [of "int (length (0 # u))" 7]
  by (simp add: application_character_string_def text_body_eq app_prim_def length_octets_def py_bytes_def)

lemma context_character_string_eq [codec_simps]:
  assumes "0 \<le> t" "t < 15" "utf8_encode s = Inr u" "length u < 253"
  shows "context_character_string t s = Inr (ctx_prim t (0 # u))"
  using assms header_context [of "int (length (0 # u))" t] header_context [of 5 t]
  by (simp add: context_character_string_def text_body_eq ctx_prim_def length_octets_def py_bytes_def or.assoc)

lemma context_octet_string_eq [codec_simps]:
  assumes "0 \<le> t" "t < 15" "length b < 254"
  shows "context_octet_string t b = Inr (ctx_prim t b)"
  using assms header_context [of "int (length b)" t] header_context [of 5 t]
  by (simp add: context_octet_string_def ctx_prim_def length_octets_def py_bytes_def or.assoc)

lemma application_real_eq [codec_simps]:
  "pack_f x = Inr b \<Longrightarrow> length b = 4 \<Longrightarrow> application_real x = Inr (app_prim 4 b)"
  by (simp add: application_real_def app_prim_def length_octets_def py_bytes_def)

lemma context_real_eq [codec_simps]:
  "0 \<le> t \<Longrightarrow> t < 15 \<Longrightarrow> pack_f x = Inr b \<Longrightarrow> length b = 4 \<Longrightarrow> context_real t x = Inr (ctx_prim t b)"
  using header_context [of 4 t]
  by (simp add: context_real_def ctx_prim_def length_octets_def py_bytes_def or.assoc)

end
