(* ===== verification/Codec_Frame.thy ===== *)
theory Codec_Frame
  imports Codec_Tag
begin

text \<open>
  Received datagrams: the address text of \<open>mac_text\<close> and the class \<open>Frame\<close> of
  \<^verbatim>\<open>src/wiretest/codec.py\<close> (lines 210-214 and 569-681). The constructor's decoding is
  a function from the datagram to the decoded record, or to the exception it lets through: an NPDU
  that ends inside its address fields raises. The main lemma says that decoding inverts \<open>npdu\<close> and
  \<open>bvlc\<close>.
\<close>

section \<open>Addresses as text\<close>

type_synonym address = "pystr \<times> int"

text \<open>Decimal digits of a number, and the two lower-case hexadecimal digits of an octet.\<close>

fun decimal :: "nat \<Rightarrow> pystr" where
  "decimal n = (if n < 10 then [48 + n] else decimal (n div 10) @ [48 + n mod 10])"

definition hex_digit :: "nat \<Rightarrow> nat" where
  "hex_digit d = (if d < 10 then 48 + d else 87 + d)"

definition hex_text :: "octets \<Rightarrow> pystr" where
  "hex_text bs = concat (map (\<lambda>b. [hex_digit (unat b div 16), hex_digit (unat b mod 16)]) bs)"

text \<open>\<open>socket.inet_ntoa\<close>: four octets as dotted decimal, else an \<open>OSError\<close>.\<close>

definition inet_ntoa :: "octets \<Rightarrow> pystr result" where
  "inet_ntoa bs = (case bs of
     [a, b, c, d] \<Rightarrow> Inr (decimal (unat a) @ [46] @ decimal (unat b) @ [46] @
                         decimal (unat c) @ [46] @ decimal (unat d))
   | _ \<Rightarrow> Inl OSError)"

text \<open>\<open>mac()\<close>: what \<open>socket.inet_aton\<close> makes of the address text is the C library's, a parameter.\<close>

definition mac :: "(pystr \<Rightarrow> octets result) \<Rightarrow> pystr \<Rightarrow> int \<Rightarrow> octets result" where
  "mac inet_aton ip port = cat [inet_aton ip, pack_H port]"

definition mac_text :: "octets \<Rightarrow> pystr result" where
  "mac_text octets =
     (if length octets = 6 then
        rbind (inet_ntoa (take 4 octets)) (\<lambda>ip.
        rbind (unpack_H (drop 4 octets)) (\<lambda>port.
        Inr (ip @ [58] @ decimal (nat port))))
      else Inr (hex_text octets))"

section \<open>Decoding a datagram\<close>

record frame =
  frame_raw :: octets
  frame_source :: address
  bvlc_function :: "int option"
  bvll_data :: octets
  originating_mac :: octets
  has_npdu :: bool
  snet :: "int option"
  sadr :: octets
  dnet :: "int option"
  dadr :: octets
  expecting_reply :: bool
  network_message :: "int option"
  payload :: octets
  frame_ok :: bool

definition frame_init :: "octets \<Rightarrow> address \<Rightarrow> frame" where
  "frame_init data source =
     \<lparr>frame_raw = data, frame_source = source, bvlc_function = None, bvll_data = [],
      originating_mac = [], has_npdu = False, snet = None, sadr = [], dnet = None, dadr = [],
      expecting_reply = False, network_message = None, payload = [], frame_ok = False\<rparr>"

text \<open>\<open>net, length = struct.unpack(">HB", ...)\<close> and the address octets that follow.\<close>

definition net_address :: "octets \<Rightarrow> nat \<Rightarrow> (int \<times> octets \<times> nat) result" where
  "net_address octets position =
     (let head = py_slice octets position (position + 3) in
      if length head = 3 then
        (let n = unat (head ! 2) in
         Inr (from_bytes (take 2 head), py_slice octets (position + 3) (position + 3 + n), position + 3 + n))
      else Inl StructError)"

text \<open>The three optional parts of an NPDU, each from the position it starts at to the position after it.\<close>

definition decode_destination :: "octets \<Rightarrow> int \<Rightarrow> frame \<Rightarrow> nat \<Rightarrow> (frame \<times> nat) result" where
  "decode_destination octets control f position =
     (if control AND 0x20 \<noteq> 0
      then rbind (net_address octets position) (\<lambda>(net, adr, q). Inr (f\<lparr>dnet := Some net, dadr := adr\<rparr>, q))
      else Inr (f, position))"

definition decode_source :: "octets \<Rightarrow> int \<Rightarrow> frame \<Rightarrow> nat \<Rightarrow> (frame \<times> nat) result" where
  "decode_source octets control f position =
     (if control AND 0x08 \<noteq> 0
      then rbind (net_address octets position) (\<lambda>(net, adr, q). Inr (f\<lparr>snet := Some net, sadr := adr\<rparr>, q))
      else Inr (f, position))"

definition decode_message :: "octets \<Rightarrow> int \<Rightarrow> frame \<Rightarrow> nat \<Rightarrow> (frame \<times> nat) result" where
  "decode_message octets control f position =
     (if control AND 0x80 \<noteq> 0
      then rbind (index octets position) (\<lambda>m.
           Inr (f\<lparr>network_message := Some (uint m)\<rparr>, if uint m \<ge> 0x80 then position + 3 else position + 1))
      else Inr (f, position))"

text \<open>The NPDU part of \<open>_decode\<close>, from \<open>octets = data[offset:]\<close> on.\<close>

definition decode_npdu :: "octets \<Rightarrow> frame \<Rightarrow> frame result" where
  "decode_npdu octets f =
     (if length octets < 2 \<or> uint (octets ! 0) \<noteq> 0x01 then Inr (f\<lparr>frame_ok := False\<rparr>)
      else
        let control = uint (octets ! 1);
            f = f\<lparr>has_npdu := True, expecting_reply := (control AND 0x04 \<noteq> 0)\<rparr> in
        rbind (decode_destination octets control f 2) (\<lambda>(f, position).
        rbind (decode_source octets control f position) (\<lambda>(f, position).
        rbind (decode_message octets control f (if control AND 0x20 \<noteq> 0 then position + 1 else position))
          (\<lambda>(f, position).
        Inr (f\<lparr>payload := drop position octets, frame_ok := True\<rparr>)))))"

definition decode_frame :: "octets \<Rightarrow> frame \<Rightarrow> frame result" where
  "decode_frame data f =
     (if length data < 4 \<or> uint (data ! 0) \<noteq> BVLC_TYPE then Inr (f\<lparr>frame_ok := False\<rparr>)
      else
        let function = uint (data ! 1);
            f = f\<lparr>bvlc_function := Some function, bvll_data := drop 4 data\<rparr> in
        if function \<notin> set BVLC_FUNCTIONS_WITH_NPDU then Inr (f\<lparr>frame_ok := True\<rparr>)
        else if function = BVLC_FORWARDED_NPDU
          then decode_npdu (drop 10 data) (f\<lparr>originating_mac := py_slice data 4 10\<rparr>)
          else decode_npdu (drop 4 data) f)"

definition Frame :: "octets \<Rightarrow> address \<Rightarrow> frame result" where
  "Frame data source = decode_frame data (frame_init data source)"

section \<open>What a frame says\<close>

definition pdu_type :: "frame \<Rightarrow> int option" where
  "pdu_type f =
     (if network_message f = None \<and> payload f \<noteq> [] then Some (drop_bit 4 (uint (payload f ! 0))) else None)"

definition invoke_id :: "frame \<Rightarrow> int option result" where
  "invoke_id f =
     (if pdu_type f \<in> Some ` {PDU_SIMPLE_ACK, PDU_COMPLEX_ACK, PDU_ERROR, PDU_REJECT, PDU_ABORT}
      then rbind (index (payload f) 1) (\<lambda>b. Inr (Some (uint b)))
      else if pdu_type f = Some PDU_CONFIRMED_REQUEST \<and> length (payload f) > 2
      then Inr (Some (uint (payload f ! 2)))
      else Inr None)"

definition service :: "frame \<Rightarrow> int option result" where
  "service f =
     (if pdu_type f \<in> Some ` {PDU_SIMPLE_ACK, PDU_COMPLEX_ACK, PDU_ERROR}
      then rbind (index (payload f) 2) (\<lambda>b. Inr (Some (uint b)))
      else if pdu_type f = Some PDU_CONFIRMED_REQUEST \<and> length (payload f) > 3
      then Inr (Some (uint (payload f ! 3)))
      else if pdu_type f = Some PDU_UNCONFIRMED_REQUEST \<and> length (payload f) > 1
      then Inr (Some (uint (payload f ! 1)))
      else Inr None)"

definition result_code :: "frame \<Rightarrow> int option" where
  "result_code f =
     (if bvlc_function f = Some BVLC_RESULT \<and> length (bvll_data f) \<ge> 2
      then Some (from_bytes (take 2 (bvll_data f))) else None)"

text \<open>\<open>range(0, len(data) - 9, 10)\<close>: the ten-octet entries of a table; a shorter rest is left out.\<close>

fun table_entries :: "octets \<Rightarrow> octets list" where
  "table_entries data = (if length data < 10 then [] else take 10 data # table_entries (drop 10 data))"

declare table_entries.simps [simp del]

fun rmap :: "('a \<Rightarrow> 'b result) \<Rightarrow> 'a list \<Rightarrow> 'b list result" where
  "rmap f [] = Inr []"
| "rmap f (x # xs) = rbind (f x) (\<lambda>y. rbind (rmap f xs) (\<lambda>ys. Inr (y # ys)))"

definition bdt_entries :: "frame \<Rightarrow> (pystr \<times> pystr) list option result" where
  "bdt_entries f =
     (if bvlc_function f \<noteq> Some BVLC_READ_BROADCAST_DISTRIBUTION_TABLE_ACK then Inr None
      else rbind (rmap (\<lambda>e. rbind (mac_text (take 6 e)) (\<lambda>a. rbind (inet_ntoa (drop 6 e)) (\<lambda>m. Inr (a, m))))
                    (table_entries (bvll_data f))) (\<lambda>es. Inr (Some es)))"

definition fdt_entries :: "frame \<Rightarrow> (pystr \<times> int \<times> int) list option result" where
  "fdt_entries f =
     (if bvlc_function f \<noteq> Some BVLC_READ_FOREIGN_DEVICE_TABLE_ACK then Inr None
      else rbind (rmap (\<lambda>e. rbind (mac_text (take 6 e)) (\<lambda>a.
                            rbind (unpack_H (py_slice e 6 8)) (\<lambda>ttl.
                            rbind (unpack_H (py_slice e 8 10)) (\<lambda>remaining. Inr (a, ttl, remaining)))))
                    (table_entries (bvll_data f))) (\<lambda>es. Inr (Some es)))"

text \<open>\<open>range(0, len(payload) - 1, 2)\<close>: the two-octet network numbers.\<close>

fun network_numbers :: "octets \<Rightarrow> int list" where
  "network_numbers (a # b # rest) = from_bytes [a, b] # network_numbers rest"
| "network_numbers _ = []"

definition networks :: "frame \<Rightarrow> int list" where
  "networks f = network_numbers (payload f)"

section \<open>Decoding inverts encoding\<close>

text \<open>The arguments of \<open>npdu()\<close> that fit their fields, with a network message type below X'80'.\<close>

definition npdu_fits :: "npdu_args \<Rightarrow> bool" where
  "npdu_fits a \<longleftrightarrow>
     (case arg_dnet a of None \<Rightarrow> True
      | Some n \<Rightarrow> 0 \<le> n \<and> n < 65536 \<and> length (arg_dadr a) < 256) \<and>
     (case arg_snet a of None \<Rightarrow> True
      | Some n \<Rightarrow> 0 \<le> n \<and> n < 65536 \<and> length (arg_sadr a) < 256) \<and>
     0 \<le> arg_hop_count a \<and> arg_hop_count a < 256 \<and>
     (case arg_network_message a of None \<Rightarrow> True | Some m \<Rightarrow> 0 \<le> m \<and> m < 0x80)"

text \<open>
  The arguments \<open>npdu()\<close> encodes: a network message type of any one octet. From X'80' on, the decoder
  takes the first two octets after the type for a vendor identifier, which \<open>npdu()\<close> does not write.
\<close>

definition npdu_encodes :: "npdu_args \<Rightarrow> bool" where
  "npdu_encodes a \<longleftrightarrow>
     (case arg_dnet a of None \<Rightarrow> True
      | Some n \<Rightarrow> 0 \<le> n \<and> n < 65536 \<and> length (arg_dadr a) < 256) \<and>
     (case arg_snet a of None \<Rightarrow> True
      | Some n \<Rightarrow> 0 \<le> n \<and> n < 65536 \<and> length (arg_sadr a) < 256) \<and>
     0 \<le> arg_hop_count a \<and> arg_hop_count a < 256 \<and>
     (case arg_network_message a of None \<Rightarrow> True | Some m \<Rightarrow> 0 \<le> m \<and> m < 256)"

definition message_data :: "int option \<Rightarrow> octets \<Rightarrow> octets" where
  "message_data message p = (case message of None \<Rightarrow> p | Some m \<Rightarrow> if 0x80 \<le> m then drop 2 p else p)"

lemma npdu_fits_encodes: "npdu_fits a \<Longrightarrow> npdu_encodes a"
  by (auto simp: npdu_fits_def npdu_encodes_def split: option.splits)

lemma npdu_fits_data: "npdu_fits a \<Longrightarrow> message_data (arg_network_message a) p = p"
  by (auto simp: npdu_fits_def message_data_def split: option.splits)

lemma npdu_control_bits:
  "npdu_control a AND 0x04 \<noteq> 0 \<longleftrightarrow> arg_expecting_reply a"
  "npdu_control a AND 0x08 \<noteq> 0 \<longleftrightarrow> arg_snet a \<noteq> None"
  "npdu_control a AND 0x20 \<noteq> 0 \<longleftrightarrow> arg_dnet a \<noteq> None"
  "npdu_control a AND 0x80 \<noteq> 0 \<longleftrightarrow> arg_network_message a \<noteq> None"
  "0 \<le> npdu_control a" "npdu_control a < 256"
  by (auto simp: npdu_control_def)

text \<open>The octets of the two optional address fields.\<close>

definition net_field :: "int option \<Rightarrow> octets \<Rightarrow> octets" where
  "net_field net adr = (case net of None \<Rightarrow> [] | Some n \<Rightarrow> be_octets 2 n @ octet_of (int (length adr)) # adr)"

lemma net_address_field:
  assumes "0 \<le> n" "n < 65536" "length adr < 256"
  shows "net_address (pre @ net_field (Some n) adr @ suf) (length pre)
    = Inr (n, adr, length pre + length (net_field (Some n) adr))"
proof -
  have "py_slice (pre @ net_field (Some n) adr @ suf) (length pre) (length pre + 3)
      = be_octets 2 n @ [octet_of (int (length adr))]"
    by (simp add: py_slice_def net_field_def)
  moreover have "unat (octet_of (int (length adr))) = length adr"
    using assms by (simp add: unat_eq_nat_uint uint_octet_of)
  moreover have "from_bytes (be_octets 2 n) = n"
    using assms from_bytes_be_octets [of n 2] by simp
  ultimately show ?thesis
    by (simp add: net_address_def Let_def nth_append py_slice_def net_field_def)
qed

text \<open>An NPDU as the parts \<open>decode_npdu\<close> steps over.\<close>

definition npdu_tail :: "octets \<Rightarrow> npdu_args \<Rightarrow> octets" where
  "npdu_tail payload_octets a =
     (if arg_dnet a \<noteq> None then [octet_of (arg_hop_count a)] else []) @
     (case arg_network_message a of None \<Rightarrow> [] | Some m \<Rightarrow> [octet_of m]) @ payload_octets"

lemma npdu_octets:
  assumes "npdu_encodes a"
  shows "npdu p a = Inr ([1, octet_of (npdu_control a)] @
    (net_field (arg_dnet a) (arg_dadr a) @ net_field (arg_snet a) (arg_sadr a) @ npdu_tail p a))"
  using assms npdu_control_bits(5,6) [of a]
  by (auto simp: npdu_def npdu_encodes_def npdu_tail_def net_field_def py_bytes_def pack_H_def pack_B_def
      octet_of_def split: option.splits)

lemma npdu_eq:
  assumes "npdu_fits a"
  shows "npdu p a = Inr ([1, octet_of (npdu_control a)] @
    (net_field (arg_dnet a) (arg_dadr a) @ net_field (arg_snet a) (arg_sadr a) @ npdu_tail p a))"
  by (rule npdu_octets [OF npdu_fits_encodes [OF assms]])

lemma decode_npdu_npdu:
  assumes "npdu_encodes a" and "npdu p a = Inr octets"
  shows "decode_npdu octets f = Inr (f\<lparr>has_npdu := True, expecting_reply := arg_expecting_reply a,
    dnet := (if arg_dnet a = None then dnet f else arg_dnet a),
    dadr := (if arg_dnet a = None then dadr f else arg_dadr a),
    snet := (if arg_snet a = None then snet f else arg_snet a),
    sadr := (if arg_snet a = None then sadr f else arg_sadr a),
    network_message := (if arg_network_message a = None then network_message f else arg_network_message a),
    payload := message_data (arg_network_message a) p, frame_ok := True\<rparr>)"
proof -
  let ?D = "net_field (arg_dnet a) (arg_dadr a)" and ?S = "net_field (arg_snet a) (arg_sadr a)"
  let ?pre = "[1, octet_of (npdu_control a)]" and ?tail = "npdu_tail p a"
  have oct: "octets = ?pre @ ?D @ ?S @ ?tail" using assms npdu_octets by simp
  have ctl: "uint (octet_of (npdu_control a)) = npdu_control a"
    using npdu_control_bits(5,6) [of a] by (simp add: uint_octet_of)
  have d: "net_address octets 2 = Inr (n, arg_dadr a, 2 + length ?D)" if "arg_dnet a = Some n" for n
    using net_address_field [of n "arg_dadr a" ?pre] that assms(1) by (simp add: oct npdu_encodes_def numeral_2_eq_2)
  have s: "net_address octets (2 + length ?D) = Inr (n, arg_sadr a, 2 + length ?D + length ?S)"
    if "arg_snet a = Some n" for n
    using net_address_field [of n "arg_sadr a" "?pre @ ?D"] that assms(1) by (simp add: oct npdu_encodes_def numeral_2_eq_2)
  define q where "q = 2 + length ?D + length ?S"
  have d': "decode_destination octets (npdu_control a) g 2 =
      Inr (g\<lparr>dnet := (if arg_dnet a = None then dnet g else arg_dnet a),
        dadr := (if arg_dnet a = None then dadr g else arg_dadr a)\<rparr>, 2 + length ?D)" for g
    unfolding decode_destination_def npdu_control_bits using d by (cases "arg_dnet a") (simp_all add: net_field_def)
  have s': "decode_source octets (npdu_control a) g (2 + length ?D) =
      Inr (g\<lparr>snet := (if arg_snet a = None then snet g else arg_snet a),
        sadr := (if arg_snet a = None then sadr g else arg_sadr a)\<rparr>, q)" for g
    unfolding decode_source_def npdu_control_bits using s by (cases "arg_snet a") (simp_all add: net_field_def q_def)
  have oct': "octets = (?pre @ ?D @ ?S) @ ?tail" and q: "q = length (?pre @ ?D @ ?S)"
    by (simp_all add: oct q_def)
  have pos: "drop (q + k) octets = drop k ?tail" "index octets (q + k) = index ?tail k" for k
    unfolding oct' q index_append_right by simp_all
  have head: "\<not> (length octets < 2 \<or> uint (octets ! 0) \<noteq> 0x01)" "uint (octets ! 1) = npdu_control a"
    by (simp_all add: oct ctl)
  define h where "h = (if arg_dnet a = None then 0 else 1 :: nat)"
  define k where "k = (case arg_network_message a of None \<Rightarrow> (0 :: nat) | Some m \<Rightarrow> if 0x80 \<le> m then 3 else 1)"
  have h: "(if npdu_control a AND 0x20 \<noteq> 0 then q + 1 else q) = q + h"
    unfolding npdu_control_bits by (simp add: h_def)
  have tail: "index ?tail h = Inr (octet_of m)" "uint (octet_of m) = m"
    if "arg_network_message a = Some m" for m
    using that assms(1) by (auto simp: npdu_tail_def h_def npdu_encodes_def uint_octet_of)
  have m: "decode_message octets (npdu_control a) g (q + h) = Inr (g\<lparr>network_message :=
        (if arg_network_message a = None then network_message g else arg_network_message a)\<rparr>, q + (h + k))" for g
    unfolding decode_message_def npdu_control_bits pos
    by (cases "arg_network_message a") (simp_all add: k_def tail)
  have rest: "drop (q + (h + k)) octets = message_data (arg_network_message a) p"
    unfolding pos by (auto simp: npdu_tail_def h_def k_def message_data_def numeral_3_eq_3 numeral_2_eq_2 split: option.splits)
  show ?thesis
    unfolding decode_npdu_def if_not_P [OF head(1)] head(2) Let_def d' s' h m rest rbind_Inr prod.case
      npdu_control_bits(1) by (simp cong: if_cong split del: if_split)
qed

text \<open>The datagram \<open>bvll\<close> makes of a body that leaves room for the header.\<close>

lemma bvll_eq [codec_simps]:
  assumes "unsigned8 function" and "length body < 65532"
  shows "bvll function body = Inr ([octet_of BVLC_TYPE, octet_of function] @ be_octets 2 (4 + int (length body)) @ body)"
  using assms by (simp add: bvll_def pack_B_def pack_H_def)

text \<open>What a frame decoded from \<open>npdu()\<close> holds.\<close>

definition npdu_frame :: "octets \<Rightarrow> npdu_args \<Rightarrow> int \<Rightarrow> octets \<Rightarrow> address \<Rightarrow> frame" where
  "npdu_frame p a function data source =
     \<lparr>frame_raw = data, frame_source = source, bvlc_function = Some function, bvll_data = drop 4 data,
      originating_mac = [], has_npdu = True, snet = arg_snet a,
      sadr = (if arg_snet a = None then [] else arg_sadr a), dnet = arg_dnet a,
      dadr = (if arg_dnet a = None then [] else arg_dadr a),
      expecting_reply = arg_expecting_reply a, network_message = arg_network_message a,
      payload = p, frame_ok = True\<rparr>"

lemma Frame_bvll_encoded:
  assumes "npdu_encodes a" and "npdu p a = Inr n" and "length n < 65532"
    and "function \<in> {BVLC_DISTRIBUTE_BROADCAST_TO_NETWORK, BVLC_ORIGINAL_UNICAST, BVLC_ORIGINAL_BROADCAST}"
    and "bvll function n = Inr data"
  shows "Frame data source = Inr (npdu_frame (message_data (arg_network_message a) p) a function data source)"
proof -
  have f: "0 \<le> function \<and> function < 256" using assms(4) by auto
  with assms(3,5) have data: "data = [octet_of BVLC_TYPE, octet_of function] @ be_octets 2 (4 + int (length n)) @ n"
    by (simp add: bvll_eq)
  have "drop 4 data = n" "uint (data ! 0) = BVLC_TYPE" "uint (data ! 1) = function" "4 \<le> length data"
    using f by (simp_all add: data uint_octet_of)
  with assms(4) have "Frame data source = decode_npdu n
      ((frame_init data source)\<lparr>bvlc_function := Some function, bvll_data := drop 4 data\<rparr>)"
    by (auto simp: Frame_def decode_frame_def Let_def)
  with decode_npdu_npdu [OF assms(1,2)] show ?thesis
    by (simp add: npdu_frame_def frame_init_def)
qed

lemma Frame_bvll_npdu:
  assumes "npdu_fits a" and "npdu p a = Inr n" and "length n < 65532"
    and "function \<in> {BVLC_DISTRIBUTE_BROADCAST_TO_NETWORK, BVLC_ORIGINAL_UNICAST, BVLC_ORIGINAL_BROADCAST}"
    and "bvll function n = Inr data"
  shows "Frame data source = Inr (npdu_frame p a function data source)"
  using Frame_bvll_encoded [OF npdu_fits_encodes [OF assms(1)] assms(2-)] npdu_fits_data [OF assms(1)] by simp

lemma Frame_forwarded_npdu:
  assumes "npdu_fits a" and "npdu p a = Inr n" and "length m = 6" and "length n < 65526"
    and "forwarded_npdu m n = Inr data"
  shows "Frame data source =
    Inr ((npdu_frame p a BVLC_FORWARDED_NPDU data source)\<lparr>originating_mac := m\<rparr>)"
proof -
  have data: "data = [octet_of BVLC_TYPE, octet_of BVLC_FORWARDED_NPDU] @ be_octets 2 (4 + int (length (m @ n))) @ m @ n"
    using assms(3-5) by (simp add: forwarded_npdu_def bvll_eq)
  have "drop 10 data = n" "py_slice data 4 10 = m" "uint (data ! 0) = BVLC_TYPE"
    "uint (data ! 1) = BVLC_FORWARDED_NPDU" "4 \<le> length data"
    using assms(3) by (simp_all add: data uint_octet_of py_slice_def)
  then have "Frame data source = decode_npdu n ((frame_init data source)\<lparr>bvlc_function := Some BVLC_FORWARDED_NPDU,
      bvll_data := drop 4 data, originating_mac := m\<rparr>)"
    by (auto simp: Frame_def decode_frame_def Let_def)
  with decode_npdu_npdu [OF npdu_fits_encodes [OF assms(1)] assms(2)] npdu_fits_data [OF assms(1)] show ?thesis
    by (simp add: npdu_frame_def frame_init_def)
qed

text \<open>Decoding never touches the octets and the address the frame was made from.\<close>

lemma decode_parts_source:
  "decode_destination octets c f q = Inr (g, r) \<Longrightarrow> frame_source g = frame_source f \<and> frame_raw g = frame_raw f"
  "decode_source octets c f q = Inr (g, r) \<Longrightarrow> frame_source g = frame_source f \<and> frame_raw g = frame_raw f"
  "decode_message octets c f q = Inr (g, r) \<Longrightarrow> frame_source g = frame_source f \<and> frame_raw g = frame_raw f"
  by (auto simp: decode_destination_def decode_source_def decode_message_def rbind_eq_Inr split: if_splits)

lemma decode_npdu_source:
  "decode_npdu octets f = Inr g \<Longrightarrow> frame_source g = frame_source f \<and> frame_raw g = frame_raw f"
  unfolding decode_npdu_def Let_def
  by (auto simp: rbind_eq_Inr split: if_split_asm dest!: decode_parts_source)

lemma Frame_source: "Frame data source = Inr f \<Longrightarrow> frame_source f = source \<and> frame_raw f = data"
  by (auto simp: Frame_def decode_frame_def frame_init_def Let_def split: if_splits dest: decode_npdu_source)

section \<open>Claims\<close>

text \<open>A frame that carries an encoded APDU, for the examples.\<close>

definition example_frame :: "octets result \<Rightarrow> frame" where
  "example_frame apdu = npdu_frame (projr apdu) npdu_defaults BVLC_ORIGINAL_UNICAST [] ([], 0xBAC0)"

text \<open>C17: An NPDU in a unicast, broadcast or distribute-broadcast BVLL message decodes to the frame it
  was made from: destination and source network and address, expecting-reply flag, network message type
  and payload. Only of a network message of a proprietary type, X'80' or above, the decoder keeps the
  payload without its first two octets, which it takes for the vendor identifier; \<open>npdu()\<close> leaves it to
  the caller to have put one there.\<close>
theorem frame_roundtrip:
  assumes a: "npdu_encodes a" and l: "length p \<le> 64000"
    and f: "fn \<in> {BVLC_DISTRIBUTE_BROADCAST_TO_NETWORK, BVLC_ORIGINAL_UNICAST, BVLC_ORIGINAL_BROADCAST}"
  shows "\<exists>data f. rbind (npdu p a) (bvll fn) = Inr data \<and> Frame data source = Inr f \<and> frame_ok f \<and>
    frame_source f = source \<and> bvlc_function f = Some fn \<and>
    payload f = (case arg_network_message a of None \<Rightarrow> p | Some m \<Rightarrow> if 0x80 \<le> m then drop 2 p else p) \<and>
    expecting_reply f = arg_expecting_reply a \<and> network_message f = arg_network_message a \<and>
    dnet f = arg_dnet a \<and> (arg_dnet a \<noteq> None \<longrightarrow> dadr f = arg_dadr a) \<and>
    snet f = arg_snet a \<and> (arg_snet a \<noteq> None \<longrightarrow> sadr f = arg_sadr a)"
proof -
  obtain n where n: "npdu p a = Inr n" "length n < 65532"
    using npdu_octets [OF a, of p] l a
    by (auto simp: net_field_def npdu_tail_def npdu_encodes_def split: option.splits)
  obtain data where d: "bvll fn n = Inr data" using bvll_eq [of fn n] n(2) f by auto
  from Frame_bvll_encoded [OF a n f d, of source] n d show ?thesis by (auto simp: npdu_frame_def message_data_def)
qed

theorem frame_roundtrip_witness:
  "(\<exists>data f. rbind (npdu [0x10, 8] (npdu_defaults\<lparr>arg_dnet := Some 0xFFFF\<rparr>)) (bvll BVLC_ORIGINAL_BROADCAST) = Inr data \<and>
    Frame data ([1], 5) = Inr f \<and> payload f = [0x10, 8] \<and> dnet f = Some 0xFFFF) \<and>
   (\<exists>data f. rbind (npdu [1, 0x85, 7] (npdu_defaults\<lparr>arg_network_message := Some 0x80\<rparr>)) (bvll BVLC_ORIGINAL_UNICAST) = Inr data \<and>
    Frame data ([1], 5) = Inr f \<and> payload f = [7] \<and> network_message f = Some 0x80)"
proof
  have "npdu_encodes (npdu_defaults\<lparr>arg_dnet := Some 0xFFFF\<rparr>)" by code_simp
  from frame_roundtrip [OF this, of "[0x10, 8]" BVLC_ORIGINAL_BROADCAST "([1], 5)"]
  show "\<exists>data f. rbind (npdu [0x10, 8] (npdu_defaults\<lparr>arg_dnet := Some 0xFFFF\<rparr>)) (bvll BVLC_ORIGINAL_BROADCAST) = Inr data \<and>
    Frame data ([1], 5) = Inr f \<and> payload f = [0x10, 8] \<and> dnet f = Some 0xFFFF" by (auto simp: npdu_defaults_def)
  have "npdu_encodes (npdu_defaults\<lparr>arg_network_message := Some 0x80\<rparr>)" by code_simp
  from frame_roundtrip [OF this, of "[1, 0x85, 7]" BVLC_ORIGINAL_UNICAST "([1], 5)"]
  show "\<exists>data f. rbind (npdu [1, 0x85, 7] (npdu_defaults\<lparr>arg_network_message := Some 0x80\<rparr>)) (bvll BVLC_ORIGINAL_UNICAST) = Inr data \<and>
    Frame data ([1], 5) = Inr f \<and> payload f = [7] \<and> network_message f = Some 0x80" by auto
qed

text \<open>A Forwarded-NPDU decodes to the NPDU it carries, with the B/IP address of the originating node.\<close>
theorem forwarded_npdu_roundtrip:
  assumes a: "npdu_fits a" and l: "length p \<le> 64000" and m: "length m = 6"
  shows "\<exists>data f. rbind (npdu p a) (forwarded_npdu m) = Inr data \<and> Frame data source = Inr f \<and> frame_ok f \<and>
    bvlc_function f = Some BVLC_FORWARDED_NPDU \<and> originating_mac f = m \<and> payload f = p \<and>
    network_message f = arg_network_message a \<and> dnet f = arg_dnet a \<and> snet f = arg_snet a \<and>
    (arg_snet a \<noteq> None \<longrightarrow> sadr f = arg_sadr a)"
proof -
  obtain n where n: "npdu p a = Inr n" "length n < 65526"
    using npdu_eq [OF a, of p] l a
    by (auto simp: net_field_def npdu_tail_def npdu_fits_def split: option.splits)
  obtain data where d: "forwarded_npdu m n = Inr data" using bvll_eq [of BVLC_FORWARDED_NPDU "m @ n"] n(2) m
    by (auto simp: forwarded_npdu_def)
  from Frame_forwarded_npdu [OF a n(1) m n(2) d, of source] n d show ?thesis by (auto simp: npdu_frame_def)
qed

theorem forwarded_npdu_roundtrip_witness:
  "\<exists>data f. rbind (npdu [0x10, 8] npdu_defaults) (forwarded_npdu [192, 168, 1, 9, 0xBA, 0xC0]) = Inr data \<and>
    Frame data ([1], 5) = Inr f \<and> payload f = [0x10, 8] \<and> originating_mac f = [192, 168, 1, 9, 0xBA, 0xC0]"
proof -
  have "npdu_fits npdu_defaults" by code_simp
  from forwarded_npdu_roundtrip [OF this, of "[0x10, 8]" "[192, 168, 1, 9, 0xBA, 0xC0]" "([1], 5)"] show ?thesis by auto
qed

text \<open>A datagram whose NPDU announces a destination but ends within its first three octets raises
  struct.error instead of decoding to a frame that is not ok.\<close>
theorem truncated_destination_raises:
  assumes "fn \<in> {BVLC_DISTRIBUTE_BROADCAST_TO_NETWORK, BVLC_ORIGINAL_UNICAST, BVLC_ORIGINAL_BROADCAST}"
    and "uint control AND 0x20 \<noteq> 0" and "length xs < 3"
  shows "Frame ([octet_of BVLC_TYPE, octet_of fn, l1, l2, 1, control] @ xs) source = Inl StructError"
  using assms
  by (auto simp: Frame_def decode_frame_def decode_npdu_def Let_def uint_octet_of decode_destination_def net_address_def py_slice_def)

theorem truncated_destination_raises_witness:
  "Frame [octet_of BVLC_TYPE, octet_of BVLC_ORIGINAL_UNICAST, 0, 7, 1, 0x20, 0xFF] ([1], 5) = Inl StructError"
proof -
  have "uint (0x20 :: octet) AND 0x20 \<noteq> 0" by code_simp
  from truncated_destination_raises [OF _ this, of BVLC_ORIGINAL_UNICAST "[0xFF]" 0 7 "([1], 5)"] show ?thesis by simp
qed

end
