(* ===== verification/Codec_Decode.thy ===== *)
theory Codec_Decode
  imports Codec_Frame "HOL-Library.AList"
begin

text \<open>
  The decoders of \<^verbatim>\<open>src/wiretest/codec.py\<close> (lines 712-937): I-Am, ReadProperty and
  WriteProperty APDUs, runs of tagged primitives, and \<open>decode_application\<close>, whose Python value is
  a \<open>py_value\<close>. A \<open>dict\<close> is an association list in insertion order. The locale
  \<open>primitive_codec\<close> is the contract between an application encoder and \<open>decode_application\<close>;
  it is interpreted for every encoder of \<open>codec.py\<close> the harness writes values with.
\<close>

section \<open>I-Am and ReadProperty\<close>

definition i_am_device_instance :: "octets \<Rightarrow> int option result" where
  "i_am_device_instance apdu =
     (if length apdu < 7 \<or> drop_bit 4 (uint (apdu ! 0)) \<noteq> PDU_UNCONFIRMED_REQUEST \<or>
         uint (apdu ! 1) \<noteq> SERVICE_I_AM then Inr None
      else
      rbind (read_tag apdu 2) (\<lambda>t.
      if tag_context t \<or> tag_number t \<noteq> 12 \<or> length (tag_body t) \<noteq> 4 then Inr None
      else
      rbind (unpack_I (tag_body t)) (\<lambda>identifier.
      Inr (if drop_bit 22 identifier = OBJECT_TYPE_DEVICE then Some (identifier AND MAX_INSTANCE) else None))))"

text \<open>The outer loop of \<open>read_property_value\<close>; its inner loop is \<open>close_of\<close> at depth 1.\<close>

function read_property_value_from :: "octets \<Rightarrow> nat \<Rightarrow> octets option result" where
  "read_property_value_from apdu position =
     (if position < length apdu then
        rbind (read_tag apdu position) (\<lambda>t.
        if tag_context t \<and> tag_number t = 3 \<and> tag_kind t = Open
        then rbind (close_of apdu 1 (tag_next t)) (\<lambda>(tag_start, _).
             Inr (Some (py_slice apdu (tag_next t) tag_start)))
        else read_property_value_from apdu (tag_next t))
      else Inr None)"
  by pat_completeness auto
termination
  by (relation "measure (\<lambda>(apdu, position). length apdu - position)") (auto dest: read_tag_progress)

declare read_property_value_from.simps [simp del]

definition read_property_value :: "octets \<Rightarrow> octets option result" where
  "read_property_value apdu = read_property_value_from apdu 3"

text \<open>The common head of the two request parsers: object identifier and property identifier.\<close>

definition read_object_and_property :: "octets \<Rightarrow> ((int \<times> int \<times> int) \<times> nat) result" where
  "read_object_and_property apdu =
     rbind (read_tag apdu 4) (\<lambda>t.
     rbind (unpack_I (tag_body t)) (\<lambda>raw.
     rbind (read_tag apdu (tag_next t)) (\<lambda>p.
     Inr ((drop_bit 22 raw, raw AND MAX_INSTANCE, from_bytes (tag_body p)), tag_next p))))"

definition parse_read_property_request :: "octets \<Rightarrow> (int \<times> int \<times> int) option result" where
  "parse_read_property_request apdu =
     except_none (rbind (read_object_and_property apdu) (\<lambda>(parsed, position). Inr (Some parsed)))"

text \<open>The same with \<open>with_array_index=True\<close>.\<close>

definition parse_read_property_request_indexed :: "octets \<Rightarrow> ((int \<times> int \<times> int) \<times> int option) option result" where
  "parse_read_property_request_indexed apdu =
     except_none (rbind (read_object_and_property apdu) (\<lambda>(parsed, position).
       if position < length apdu then
         rbind (read_tag apdu position) (\<lambda>t.
         Inr (Some (parsed,
           if tag_context t \<and> tag_number t = 2 \<and> tag_kind t = Value
           then Some (from_bytes (tag_body t)) else None)))
       else Inr (Some (parsed, None))))"

section \<open>Runs of primitives\<close>

definition application_elements :: "octets \<Rightarrow> octets list result" where
  "application_elements octets =
     tag_loop octets (\<lambda>start t elements. Inr (elements @ [py_slice octets start (tag_next t)])) 0 []"

definition application_values :: "octets \<Rightarrow> (int \<times> octets) list result" where
  "application_values octets =
     tag_loop octets (\<lambda>_ t values.
       Inr (if tag_kind t = Value \<and> \<not> tag_context t then values @ [(tag_number t, tag_body t)] else values)) 0 []"

definition context_values :: "octets \<Rightarrow> (int \<times> octets) list result" where
  "context_values octets =
     tag_loop octets (\<lambda>_ t values.
       Inr (if tag_context t \<and> tag_kind t = Value then values @ [(tag_number t, tag_body t)] else values)) 0 []"

definition character_string :: "octets option \<Rightarrow> pystr option result" where
  "character_string v = (case v of
     None \<Rightarrow> Inr None
   | Some [] \<Rightarrow> Inr None
   | Some octets \<Rightarrow>
       rbind (read_tag octets 0) (\<lambda>t.
       Inr (if tag_context t \<or> tag_number t \<noteq> 7 \<or> tag_body t = [] then None
            else Some (utf8_decode (drop 1 (tag_body t))))))"

section \<open>Read access specifications\<close>

type_synonym object_ref = "int \<times> int"
type_synonym members = "(object_ref \<times> int list) list"

definition members_step :: "nat \<Rightarrow> tag \<Rightarrow> members \<times> object_ref option \<Rightarrow> (members \<times> object_ref option) result" where
  "members_step _ t s = (case s of (members, current) \<Rightarrow>
     if tag_kind t = Value \<and> tag_context t \<and> tag_number t = 0 \<and> length (tag_body t) = 4 \<and> current = None then
       rbind (unpack_I (tag_body t)) (\<lambda>raw.
       let key = (drop_bit 22 raw, raw AND MAX_INSTANCE) in
       Inr (AList.update key [] members, Some key))
     else (case current of
       Some key \<Rightarrow>
         if tag_kind t = Value \<and> tag_context t \<and> tag_number t = 0 then
           (case map_of members key of
              None \<Rightarrow> Inl KeyError
            | Some ps \<Rightarrow> Inr (AList.update key (ps @ [from_bytes (tag_body t)]) members, current))
         else if tag_kind t = Close \<and> tag_number t = 1 then Inr (members, None)
         else Inr (members, current)
     | None \<Rightarrow> Inr (members, None)))"

definition read_access_specifications :: "octets \<Rightarrow> members result" where
  "read_access_specifications v = rbind (tag_loop v members_step 0 ([], None)) (\<lambda>(members, _). Inr members)"

section \<open>Values of primitives\<close>

datatype py_value =
    PyNone
  | PyBool bool
  | PyInt int
  | PyFloat py_float
  | PyStr pystr
  | PyBits "bool list"
  | PyObject int int
  | PyBytes octets

text \<open>\<open>xs[:n]\<close>, where a negative bound counts from the end.\<close>

definition py_take :: "'a list \<Rightarrow> int \<Rightarrow> 'a list" where
  "py_take xs n = (if 0 \<le> n then take (nat n) xs else take (nat (int (length xs) + n)) xs)"

definition octet_bits :: "octet \<Rightarrow> bool list" where
  "octet_bits octet = map (\<lambda>position. octet AND drop_bit position 0x80 \<noteq> 0) [0..<8]"

definition decode_bits :: "octets \<Rightarrow> bool list result" where
  "decode_bits body =
     rbind (index body 0) (\<lambda>unused.
     let bits = concat (map octet_bits (drop 1 body)) in
     Inr (if unused \<noteq> 0 then py_take bits (int (length bits) - uint unused) else bits))"

text \<open>What \<open>decode_application\<close> makes of an application tag and its body.\<close>

definition decode_body :: "int \<Rightarrow> octets \<Rightarrow> py_value result" where
  "decode_body number body =
     (if number = TAG_NULL then Inr PyNone
      else if number = TAG_BOOLEAN then rbind (index body 0) (\<lambda>b. Inr (PyBool (b \<noteq> 0)))
      else if number = TAG_UNSIGNED \<or> number = TAG_ENUMERATED then Inr (PyInt (from_bytes body))
      else if number = TAG_SIGNED then Inr (PyInt (from_bytes_signed body))
      else if number = TAG_REAL then rbind (unpack_f body) (\<lambda>x. Inr (PyFloat x))
      else if number = TAG_DOUBLE then rbind (unpack_d body) (\<lambda>x. Inr (PyFloat x))
      else if number = TAG_CHARACTER_STRING then Inr (PyStr (utf8_decode (drop 1 body)))
      else if number = TAG_BIT_STRING then rbind (decode_bits body) (\<lambda>bits. Inr (PyBits bits))
      else if number = TAG_OBJECT_IDENTIFIER then
        rbind (unpack_I body) (\<lambda>raw. Inr (PyObject (drop_bit 22 raw) (raw AND MAX_INSTANCE)))
      else Inr (PyBytes body))"

definition decode_application :: "octets \<Rightarrow> py_value result" where
  "decode_application octets =
     (if octets = [] then Inr PyNone
      else
      rbind (read_tag octets 0) (\<lambda>t.
      if tag_context t \<or> tag_kind t \<noteq> Value then Inr PyNone
      else decode_body (tag_number t) (tag_body t)))"

definition decoded_values :: "octets \<Rightarrow> py_value list result" where
  "decoded_values octets =
     tag_loop octets (\<lambda>start t values.
       if tag_kind t = Value \<and> \<not> tag_context t
       then rbind (decode_application (py_slice octets start (tag_next t))) (\<lambda>v. Inr (values @ [v]))
       else Inr values) 0 []"

definition application_tag :: "octets \<Rightarrow> int option result" where
  "application_tag octets =
     (if octets = [] then Inr None
      else rbind (read_tag octets 0) (\<lambda>t. Inr (if tag_context t then None else Some (tag_number t))))"

section \<open>Errors and WriteProperty\<close>

definition error_class_and_code :: "octets \<Rightarrow> (int \<times> int) option result" where
  "error_class_and_code apdu =
     rbind (application_values (drop 3 apdu)) (\<lambda>values.
     Inr (case values of
       (_, c) # (_, d) # _ \<Rightarrow> Some (from_bytes c, from_bytes d)
     | _ \<Rightarrow> None))"

record write_request =
  wr_object_type :: int
  wr_instance :: int
  wr_property_identifier :: int
  wr_array_index :: "int option"
  wr_value_octets :: octets
  wr_priority :: "int option"

definition parse_write_property_request :: "octets \<Rightarrow> write_request option result" where
  "parse_write_property_request apdu = except_none (
     rbind (index apdu 0) (\<lambda>first.
     rbind (if drop_bit 4 (uint first) \<noteq> PDU_CONFIRMED_REQUEST then Inr True
            else rbind (index apdu 3) (\<lambda>s. Inr (uint s \<noteq> SERVICE_WRITE_PROPERTY))) (\<lambda>other.
     if other then Inr None
     else
     rbind (read_object_and_property apdu) (\<lambda>((object_type, instance_number, property_identifier), position).
     rbind (read_tag apdu position) (\<lambda>t.
     let (array_index, position) =
       (if tag_number t = 2 \<and> tag_kind t = Value then (Some (from_bytes (tag_body t)), tag_next t)
        else (None, position)) in
     rbind (read_tag apdu position) (\<lambda>opn.
     rbind (close_of apdu 1 (tag_next opn)) (\<lambda>(tag_start, position).
     rbind (if position < length apdu
            then rbind (read_tag apdu position) (\<lambda>t. Inr (Some (from_bytes (tag_body t))))
            else Inr None) (\<lambda>priority.
     Inr (Some \<lparr>wr_object_type = object_type, wr_instance = instance_number,
                wr_property_identifier = property_identifier, wr_array_index = array_index,
                wr_value_octets = py_slice apdu (tag_next opn) tag_start,
                wr_priority = priority\<rparr>)))))))))"

section \<open>Object identifiers and requests come back\<close>

lemma object_fields [simp]:
  assumes "object_range ot i"
  shows "drop_bit 22 (ot * 4194304 + i) = ot" and "(ot * 4194304 + i) AND MAX_INSTANCE = i"
proof -
  show "drop_bit 22 (ot * 4194304 + i) = ot"
    using assms by (simp add: drop_bit_eq_div)
  have "(ot * 4194304 + i) AND MAX_INSTANCE = (ot * 4194304 + i) mod 4194304"
    using take_bit_eq_mask [of 22 "ot * 4194304 + i"] by (simp add: take_bit_eq_mod mask_eq_exp_minus_1)
  with assms show "(ot * 4194304 + i) AND MAX_INSTANCE = i" by simp
qed

text \<open>The parameters every request about a property starts with.\<close>

definition property_head :: "int \<Rightarrow> int \<Rightarrow> int \<Rightarrow> octets" where
  "property_head ot i p = ctx_prim 0 (oid ot i) @ ctx_prim 1 (u_octets p)"

lemma small_body: "length (u_octets v) < 65536" "length (s_octets v) < 65536" "length (oid ot i) < 65536"
  using u_octets_length [of v] s_octets_length [of v] by simp_all

lemmas is_tag_unsigned = is_tag_ctx_prim [OF _ _ small_body(1)]
lemmas is_tag_oid = is_tag_ctx_prim [OF _ _ small_body(3)]

lemma read_object_and_property_head:
  assumes "object_range ot i" "unsigned32 p" "length pre = 4"
  shows "read_object_and_property (pre @ property_head ot i p @ rest)
    = Inr ((ot, i, p), length (pre @ property_head ot i p))"
  using read_tag_at [OF is_tag_oid [of 0 ot i], of pre "ctx_prim 1 (u_octets p) @ rest"]
    read_tag_at [OF is_tag_unsigned [of 1 p], of "pre @ ctx_prim 0 (oid ot i)" rest] assms
  by (simp add: read_object_and_property_def property_head_def)

lemma confirmed_request_eq [codec_simps]:
  "unsigned8 iid \<Longrightarrow> unsigned8 srv \<Longrightarrow>
   confirmed_request iid srv ps = Inr ([0, 5, octet_of iid, octet_of srv] @ ps)"
  by (simp add: confirmed_request_def py_bytes_def octet_of_def)

definition optional_unsigned :: "int \<Rightarrow> int option \<Rightarrow> octets" where
  "optional_unsigned t v = (case v of None \<Rightarrow> [] | Some x \<Rightarrow> ctx_prim t (u_octets x))"

abbreviation (input) unsigned32_option :: "int option \<Rightarrow> bool" where
  "unsigned32_option v \<equiv> (case v of None \<Rightarrow> True | Some x \<Rightarrow> unsigned32 x)"

lemma read_property_request_eq [codec_simps]:
  assumes "unsigned8 iid" "object_range ot i" "unsigned32 p" "unsigned32_option ix"
  shows "read_property_request iid ot i p ix
    = Inr ([0, 5, octet_of iid, 12] @ property_head ot i p @ optional_unsigned 2 ix)"
  using assms
  by (cases ix) (simp_all add: read_property_request_def codec_simps property_head_def optional_unsigned_def octet_of_def)

lemma parse_read_property_request_roundtrip:
  assumes "unsigned8 iid" "object_range ot i" "unsigned32 p" "unsigned32_option ix"
  shows "rbind (read_property_request iid ot i p ix) parse_read_property_request_indexed
    = Inr (Some ((ot, i, p), ix))"
proof -
  let ?hd = "[0, 5, octet_of iid, 12]"
  note head = read_object_and_property_head [of ot i p ?hd "optional_unsigned 2 ix"]
  show ?thesis
  proof (cases ix)
    case None
    with assms head show ?thesis
      by (simp add: read_property_request_eq parse_read_property_request_indexed_def optional_unsigned_def)
  next
    case (Some x)
    have "read_tag ((?hd @ property_head ot i p) @ ctx_prim 2 (u_octets x)) (length (?hd @ property_head ot i p))
        = Inr \<lparr>tag_number = 2, tag_context = True, tag_kind = Value, tag_body = u_octets x,
          tag_next = length (?hd @ property_head ot i p) + length (ctx_prim 2 (u_octets x))\<rparr>"
      using read_tag_at [OF is_tag_unsigned [of 2 x], of "?hd @ property_head ot i p" "[]"] by simp
    moreover have "0 < length (ctx_prim 2 (u_octets x))" by (simp add: ctx_prim_def)
    ultimately show ?thesis
      using assms head Some
      by (simp add: read_property_request_eq parse_read_property_request_indexed_def optional_unsigned_def)
  qed
qed

text \<open>The form without the array index drops it.\<close>

lemma parse_read_property_request_drops_index:
  assumes "unsigned8 iid" "object_range ot i" "unsigned32 p" "unsigned32_option ix"
  shows "rbind (read_property_request iid ot i p ix) parse_read_property_request = Inr (Some (ot, i, p))"
  using assms read_object_and_property_head [of ot i p "[0, 5, octet_of iid, 12]" "optional_unsigned 2 ix"]
  by (simp add: read_property_request_eq parse_read_property_request_def)

text \<open>A ReadProperty ComplexACK: skipping tags up to the opening tag 3, and cutting the value out.\<close>

lemma read_property_value_skip:
  assumes "is_tag c n x Value b"
  shows "read_property_value_from (pre @ c @ suf) (length pre)
    = read_property_value_from ((pre @ c) @ suf) (length (pre @ c))"
  using read_tag_at [OF assms, of pre suf] is_tag_nonempty [OF assms]
  by (subst read_property_value_from.simps) simp

lemma read_property_value_open:
  assumes "balanced v"
  shows "read_property_value_from (pre @ open_prim 3 @ v @ close_prim 3 @ suf) (length pre) = Inr (Some v)"
proof -
  let ?d = "pre @ open_prim 3 @ v @ close_prim 3 @ suf"
  have opn: "read_tag ?d (length pre) = Inr \<lparr>tag_number = 3, tag_context = True, tag_kind = Open,
      tag_body = [], tag_next = length (pre @ open_prim 3)\<rparr>"
    using read_tag_at [OF is_tag_open_prim [of 3], of pre "v @ close_prim 3 @ suf"] by simp
  have cls: "close_of ?d 1 (length (pre @ open_prim 3)) =
      Inr (length (pre @ open_prim 3) + length v, length (pre @ open_prim 3) + length v + length (close_prim 3))"
    using close_of_balanced [OF assms is_tag_close_prim [of 3], of "pre @ open_prim 3" suf] by simp
  have cut: "py_slice ?d (length (pre @ open_prim 3)) (length (pre @ open_prim 3) + length v) = v"
    using slice_middle [of "pre @ open_prim 3" v "close_prim 3 @ suf"] by simp
  have "length pre < length ?d" by (simp add: open_prim_def)
  then show ?thesis
    using cls cut by (subst read_property_value_from.simps) (simp add: opn)
qed

definition enclosed :: "int \<Rightarrow> octets \<Rightarrow> octets" where
  "enclosed t v = open_prim t @ v @ close_prim t"

lemma read_property_ack_eq [codec_simps]:
  assumes "unsigned8 iid" "object_range ot i" "unsigned32 p"
  shows "read_property_ack iid ot i p v
    = Inr ([0x30, octet_of iid, 12] @ property_head ot i p @ enclosed 3 v)"
  using assms
  by (simp add: read_property_ack_def codec_simps property_head_def enclosed_def py_bytes_def octet_of_def)

lemma read_property_value_enclosed:
  assumes "balanced v" and "length pre = 3"
  shows "read_property_value (pre @ property_head ot i p @ enclosed 3 v @ suf) = Inr (Some v)"
  using read_property_value_skip [OF is_tag_oid [of 0 ot i], of pre "ctx_prim 1 (u_octets p) @ enclosed 3 v @ suf"]
    read_property_value_skip [OF is_tag_unsigned [of 1 p], of "pre @ ctx_prim 0 (oid ot i)" "enclosed 3 v @ suf"]
    read_property_value_open [OF assms(1), of "pre @ property_head ot i p" suf] assms(2)
  by (simp add: read_property_value_def property_head_def enclosed_def)

lemma read_property_value_roundtrip:
  assumes "unsigned8 iid" "object_range ot i" "unsigned32 p" "balanced v"
  shows "rbind (read_property_ack iid ot i p v) read_property_value = Inr (Some v)"
  using read_property_value_enclosed [OF assms(4), of "[0x30, octet_of iid, 12]" ot i p "[]"] assms
  by (simp add: read_property_ack_eq)

text \<open>WriteProperty, with and without the array index and the priority.\<close>

lemma write_property_request_eq [codec_simps]:
  assumes "unsigned8 iid" "object_range ot i" "unsigned32 p" "unsigned32_option pr" "unsigned32_option ix"
  shows "write_property_request iid ot i p v pr ix = Inr ([0, 5, octet_of iid, 15] @ property_head ot i p @
    optional_unsigned 2 ix @ enclosed 3 v @ optional_unsigned 4 pr)"
  using assms
  by (cases ix; cases pr)
    (simp_all add: write_property_request_def codec_simps property_head_def optional_unsigned_def enclosed_def
      octet_of_def)

lemma close_of_enclosed:
  assumes "balanced v" "0 \<le> t" "t < 15"
  shows "close_of (pre @ enclosed t v @ suf) 1 (length (pre @ open_prim t))
      = Inr (length (pre @ open_prim t @ v), length (pre @ enclosed t v))"
    and "py_slice (pre @ enclosed t v @ suf) (length (pre @ open_prim t)) (length (pre @ open_prim t @ v)) = v"
    and "read_tag (pre @ enclosed t v @ suf) (length pre) = Inr \<lparr>tag_number = t, tag_context = True,
      tag_kind = Open, tag_body = [], tag_next = length (pre @ open_prim t)\<rparr>"
  using close_of_balanced [OF assms(1) is_tag_close_prim [OF assms(2,3)], of "pre @ open_prim t" suf]
    slice_middle [of "pre @ open_prim t" v "close_prim t @ suf"]
    read_tag_at [OF is_tag_open_prim [OF assms(2,3)], of pre "v @ close_prim t @ suf"]
  by (simp_all add: enclosed_def add.assoc)

lemma parse_write_property_request_roundtrip:
  assumes "unsigned8 iid" "object_range ot i" "unsigned32 p" "unsigned32_option pr" "unsigned32_option ix"
    and v: "balanced v"
  shows "rbind (write_property_request iid ot i p v pr ix) parse_write_property_request
    = Inr (Some \<lparr>wr_object_type = ot, wr_instance = i, wr_property_identifier = p, wr_array_index = ix,
        wr_value_octets = v, wr_priority = pr\<rparr>)"
proof -
  define pre where "pre = [0, 5, octet_of iid, 15] @ property_head ot i p"
  let ?ix = "optional_unsigned 2 ix" and ?pr = "optional_unsigned 4 pr"
  let ?a = "(pre @ ?ix) @ enclosed 3 v @ ?pr"
  have a: "write_property_request iid ot i p v pr ix = Inr ?a"
    using assms by (simp add: write_property_request_eq pre_def)
  have head: "read_object_and_property ?a = Inr ((ot, i, p), length pre)"
    using read_object_and_property_head [of ot i p "[0, 5, octet_of iid, 15]" "?ix @ enclosed 3 v @ ?pr"] assms
    by (simp add: pre_def)
  have ix: "read_tag ?a (length pre) = Inr \<lparr>tag_number = 2, tag_context = True, tag_kind = Value,
      tag_body = u_octets x, tag_next = length (pre @ ?ix)\<rparr>" if "ix = Some x" for x
    using read_tag_at [OF is_tag_unsigned [of 2 x], of pre "enclosed 3 v @ ?pr"] that
    by (simp add: optional_unsigned_def)
  have no: "read_tag ?a (length pre) = Inr \<lparr>tag_number = 3, tag_context = True, tag_kind = Open,
      tag_body = [], tag_next = length (pre @ open_prim 3)\<rparr>" if "ix = None"
    using close_of_enclosed(3) [OF v, of 3 pre ?pr] that by (simp add: optional_unsigned_def)
  have pr: "read_tag ?a (length ((pre @ ?ix) @ enclosed 3 v)) = Inr \<lparr>tag_number = 4, tag_context = True,
      tag_kind = Value, tag_body = u_octets x, tag_next = length ?a\<rparr>" if "pr = Some x" for x
    using read_tag_at [OF is_tag_unsigned [of 4 x], of "(pre @ ?ix) @ enclosed 3 v" "[]"] that
    by (simp add: optional_unsigned_def add.assoc)
  note close = close_of_enclosed [OF v, of 3 "pre @ ?ix" ?pr]
  have first: "index ?a 0 = Inr 0" "index ?a 3 = Inr 15" by (simp_all add: pre_def)
  have arr: "rbind (read_tag ?a (length pre)) (\<lambda>t.
      let (array_index, position) = (if tag_number t = 2 \<and> tag_kind t = Value
        then (Some (from_bytes (tag_body t)), tag_next t) else (None, length pre)) in k array_index position)
      = k ix (length (pre @ ?ix))" for k :: "int option \<Rightarrow> nat \<Rightarrow> write_request option result"
    using ix no assms(5) by (cases ix) (simp_all add: optional_unsigned_def)
  show ?thesis
    unfolding a parse_write_property_request_def rbind_Inr first head prod.case arr
    using close pr assms(4) by (cases pr) (simp_all add: optional_unsigned_def ctx_prim_def)
qed

section \<open>Runs of primitives come back\<close>

text \<open>A loop over a run of tags is a fold, when the step looks at the tag only through its fields.\<close>

lemma tag_loop_chunks:
  assumes "\<And>c. c \<in> set cs \<Longrightarrow> is_tag c (num c) (ctx c) (knd c) (bdy c)"
    and "\<And>pre c suf s. c \<in> set cs \<Longrightarrow> data = pre @ c @ suf \<Longrightarrow>
      step (length pre) \<lparr>tag_number = num c, tag_context = ctx c, tag_kind = knd c, tag_body = bdy c,
        tag_next = length pre + length c\<rparr> s = Inr (upd c s)"
    and "data = pre @ concat cs"
  shows "tag_loop data step (length pre) s = Inr (fold upd cs s)"
  using assms
proof (induction cs arbitrary: pre s)
  case Nil
  then show ?case using tag_loop_end [of data step s] by simp
next
  case (Cons c cs)
  have "tag_loop data step (length pre) s = tag_loop data step (length (pre @ c)) (upd c s)"
    using tag_loop_at [OF Cons.prems(1) [of c], of pre "concat cs" step s]
      Cons.prems(2) [of c pre "concat cs" s] Cons.prems(3) by simp
  also have "\<dots> = Inr (fold upd cs (upd c s))"
    by (rule Cons.IH [OF Cons.prems(1,2)]) (simp_all add: Cons.prems(3))
  finally show ?case by simp
qed

lemma application_elements_concat:
  assumes "\<And>c. c \<in> set cs \<Longrightarrow> \<exists>n x k b. is_tag c n x k b"
  shows "application_elements (concat cs) = Inr cs"
proof -
  from assms obtain num ctx knd bdy where t: "\<And>c. c \<in> set cs \<Longrightarrow> is_tag c (num c) (ctx c) (knd c) (bdy c)"
    by metis
  have "tag_loop (concat cs) (\<lambda>start t elements. Inr (elements @ [py_slice (concat cs) start (tag_next t)]))
      (length ([] :: octets)) [] = Inr (fold (\<lambda>c es. es @ [c]) cs [])"
    by (rule tag_loop_chunks [OF t]) (auto simp: slice_middle)
  moreover have "fold (\<lambda>c es. es @ [c]) cs es = es @ cs" for es
    by (induction cs arbitrary: es) auto
  ultimately show ?thesis by (simp add: application_elements_def)
qed

lemma application_values_concat:
  assumes "\<And>c. c \<in> set cs \<Longrightarrow> is_tag c (num c) False Value (bdy c)"
  shows "application_values (concat cs) = Inr (map (\<lambda>c. (num c, bdy c)) cs)"
proof -
  have "tag_loop (concat cs) (\<lambda>_ t values.
       Inr (if tag_kind t = Value \<and> \<not> tag_context t then values @ [(tag_number t, tag_body t)] else values))
      (length ([] :: octets)) [] = Inr (fold (\<lambda>c vs. vs @ [(num c, bdy c)]) cs [])"
    by (rule tag_loop_chunks [OF assms]) auto
  moreover have "fold (\<lambda>c vs. vs @ [(num c, bdy c)]) cs vs = vs @ map (\<lambda>c. (num c, bdy c)) cs" for vs
    by (induction cs arbitrary: vs) auto
  ultimately show ?thesis by (simp add: application_values_def)
qed

lemma context_values_concat:
  assumes "\<And>c. c \<in> set cs \<Longrightarrow> is_tag c (num c) True Value (bdy c)"
  shows "context_values (concat cs) = Inr (map (\<lambda>c. (num c, bdy c)) cs)"
proof -
  have "tag_loop (concat cs) (\<lambda>_ t values.
       Inr (if tag_context t \<and> tag_kind t = Value then values @ [(tag_number t, tag_body t)] else values))
      (length ([] :: octets)) [] = Inr (fold (\<lambda>c vs. vs @ [(num c, bdy c)]) cs [])"
    by (rule tag_loop_chunks [OF assms]) auto
  moreover have "fold (\<lambda>c vs. vs @ [(num c, bdy c)]) cs vs = vs @ map (\<lambda>c. (num c, bdy c)) cs" for vs
    by (induction cs arbitrary: vs) auto
  ultimately show ?thesis by (simp add: context_values_def)
qed

lemma decode_application_tag:
  assumes "is_tag c n False Value b"
  shows "decode_application (c @ rest) = decode_body n b"
    and "application_tag (c @ rest) = Inr (Some n)"
  using read_tag_at [OF assms, of "[]" rest] is_tag_nonempty [OF assms]
  by (simp_all add: decode_application_def application_tag_def)

lemma decoded_values_concat:
  assumes "\<And>c. c \<in> set cs \<Longrightarrow> \<exists>n b v. is_tag c n False Value b \<and> decode_body n b = Inr v"
  shows "decoded_values (concat cs) = Inr (map (\<lambda>c. projr (decode_application c)) cs)"
proof -
  define val where "val c = projr (decode_application c)" for c
  from assms obtain num bdy where t: "\<And>c. c \<in> set cs \<Longrightarrow>
      is_tag c (num c) False Value (bdy c) \<and> (\<exists>v. decode_body (num c) (bdy c) = Inr v)"
    by metis
  have d: "decode_application c = Inr (val c)" if "c \<in> set cs" for c
    using decode_application_tag(1) [of c "num c" "bdy c" "[]"] t [OF that] by (auto simp: val_def)
  have "tag_loop (concat cs) (\<lambda>start t values.
       if tag_kind t = Value \<and> \<not> tag_context t
       then rbind (decode_application (py_slice (concat cs) start (tag_next t))) (\<lambda>v. Inr (values @ [v]))
       else Inr values) (length ([] :: octets)) [] = Inr (fold (\<lambda>c vs. vs @ [val c]) cs [])"
    using t d
    by (intro tag_loop_chunks [where num = num and ctx = "\<lambda>_. False" and knd = "\<lambda>_. Value" and bdy = bdy])
      (auto simp: slice_middle)
  moreover have "fold (\<lambda>c vs. vs @ [val c]) cs vs = vs @ map val cs" for vs
    by (induction cs arbitrary: vs) auto
  ultimately show ?thesis by (simp add: decoded_values_def val_def)
qed

text \<open>The two values of an Error PDU, and the Device instance of an I-Am.\<close>

lemma is_tag_app_unsigned:
  "0 \<le> t \<Longrightarrow> t < 15 \<Longrightarrow> t \<noteq> 1 \<Longrightarrow> is_tag (app_prim t (u_octets v)) t False Value (u_octets v)"
  by (rule is_tag_app_prim) (simp_all add: small_body)

lemma simple_ack_eq [codec_simps]:
  "unsigned8 iid \<Longrightarrow> unsigned8 srv \<Longrightarrow> simple_ack iid srv = Inr [0x20, octet_of iid, octet_of srv]"
  by (simp add: simple_ack_def push_bit_eq_mult py_bytes_def octet_of_def)

lemma error_pdu_eq [codec_simps]:
  assumes "unsigned8 iid" "unsigned8 srv" "unsigned32 c" "unsigned32 d"
  shows "error_pdu iid srv c d = Inr ([0x50, octet_of iid, octet_of srv] @
    app_prim 9 (u_octets c) @ app_prim 9 (u_octets d))"
  using assms by (simp add: error_pdu_def codec_simps py_bytes_def octet_of_def)

lemma application_values_pair:
  assumes "is_tag a n False Value x" "is_tag b m False Value y"
  shows "application_values (a @ b) = Inr [(n, x), (m, y)]"
proof -
  let ?f = "\<lambda>_ t values. Inr (if tag_kind t = Value \<and> \<not> tag_context t
    then values @ [(tag_number t, tag_body t)] else values)"
  show ?thesis
    using tag_loop_at [OF assms(1), of "[]" b ?f "[]"] tag_loop_at [OF assms(2), of a "[]" ?f "[(n, x)]"]
      tag_loop_end [of "a @ b" ?f "[(n, x), (m, y)]"]
    by (simp add: application_values_def)
qed

lemma error_class_and_code_roundtrip:
  assumes "unsigned8 iid" "unsigned8 srv" "unsigned32 c" "unsigned32 d"
  shows "rbind (error_pdu iid srv c d) error_class_and_code = Inr (Some (c, d))"
  using assms application_values_pair [OF is_tag_app_unsigned [of 9 c] is_tag_app_unsigned [of 9 d]]
  by (simp add: error_pdu_eq error_class_and_code_def)

lemma i_am_eq [codec_simps]:
  assumes "0 \<le> d \<and> d \<le> MAX_INSTANCE" "unsigned32 vendor" "unsigned32 apdu" "unsigned32 seg"
  shows "i_am d vendor apdu seg = Inr ([0x10, 0] @ app_prim 12 (oid OBJECT_TYPE_DEVICE d) @
    app_prim 2 (u_octets apdu) @ app_prim 9 (u_octets seg) @ app_prim 2 (u_octets vendor))"
  using assms by (simp add: i_am_def codec_simps py_bytes_def octet_of_def)

lemma i_am_device_instance_roundtrip:
  assumes "0 \<le> d \<and> d \<le> MAX_INSTANCE" "unsigned32 vendor" "unsigned32 apdu" "unsigned32 seg"
  shows "rbind (i_am d vendor apdu seg) i_am_device_instance = Inr (Some d)"
proof -
  have t: "is_tag (app_prim 12 (oid 8 d)) 12 False Value (oid 8 d)"
    by (rule is_tag_app_prim) simp_all
  define rest where "rest = app_prim 2 (u_octets apdu) @ app_prim 9 (u_octets seg) @ app_prim 2 (u_octets vendor)"
  have "length (app_prim 12 (oid 8 d)) = 5" by (simp add: app_prim_def length_octets_def)
  moreover have "read_tag ([0x10, 0] @ app_prim 12 (oid 8 d) @ rest) 2 = Inr \<lparr>tag_number = 12,
      tag_context = False, tag_kind = Value, tag_body = oid 8 d, tag_next = 2 + length (app_prim 12 (oid 8 d))\<rparr>"
    using read_tag_at [OF t, of "[0x10, 0]" rest] by (simp add: numeral_2_eq_2)
  ultimately show ?thesis
    using assms object_fields [of 8 d] by (simp add: i_am_eq i_am_device_instance_def rest_def [symmetric])
qed

section \<open>Bit strings\<close>

abbreviation (input) bit_row :: "octets \<Rightarrow> bool list" where
  "bit_row octets \<equiv> concat (map octet_bits octets)"

lemma octet_bits_length [simp]: "length (octet_bits b) = 8"
  by (simp add: octet_bits_def)

lemma bit_row_length [simp]: "length (bit_row octets) = 8 * length octets"
  by (induction octets) auto

lemma bit_mask_octet: "bit (drop_bit k (0x80 :: octet)) j \<longleftrightarrow> k + j = 7"
proof -
  have "(0x80 :: octet) = 2 ^ 7" by simp
  then show ?thesis by (auto simp only: bit_drop_bit_eq o_def bit_exp_iff possible_bit_word len_of_numeral_defs)
qed

lemma mask_octet: "k < 8 \<Longrightarrow> drop_bit k (0x80 :: octet) = 2 ^ (7 - k)"
  by (rule bit_eqI) (auto simp: bit_mask_octet bit_exp_iff)

lemma octet_bits_nth: "k < 8 \<Longrightarrow> octet_bits b ! k = bit b (7 - k)"
  by (simp add: octet_bits_def mask_octet and_exp_eq_0_iff_not_bit)

lemma octet_bits_zero [simp]: "octet_bits 0 = replicate 8 False"
  by (rule nth_equalityI) (simp_all add: octet_bits_nth)

lemma octet_bits_set: "k < 8 \<Longrightarrow> octet_bits (b OR drop_bit k 0x80) = (octet_bits b)[k := True]"
  by (rule nth_equalityI) (auto simp: octet_bits_nth bit_or_iff bit_mask_octet nth_list_update)

text \<open>Setting a bit in the octet array sets that bit of the row.\<close>

lemma bit_row_set:
  "i < 8 * length octets \<Longrightarrow>
   bit_row (octets[i div 8 := octets ! (i div 8) OR drop_bit (i mod 8) 0x80]) = (bit_row octets)[i := True]"
proof (induction octets arbitrary: i)
  case Nil
  then show ?case by simp
next
  case (Cons b octets)
  show ?case
  proof (cases "i < 8")
    case True
    then show ?thesis by (simp add: octet_bits_set list_update_append)
  next
    case False
    then obtain j where i: "i = 8 + j" using le_Suc_ex [of 8 i] by auto
    with Cons have "bit_row (octets[j div 8 := octets ! (j div 8) OR drop_bit (j mod 8) 0x80]) = (bit_row octets)[j := True]"
      by simp
    moreover have "i div 8 = Suc (j div 8)" using i by simp
    ultimately show ?thesis using i by (simp add: list_update_append)
  qed
qed

lemma set_bits_length [simp]: "length (set_bits i bits octets) = length octets"
  by (induction i bits octets rule: set_bits.induct) auto

lemma set_bits_row:
  assumes "i + length bits \<le> 8 * length octets" and "\<forall>j < length bits. \<not> bit_row octets ! (i + j)"
  shows "bit_row (set_bits i bits octets) = take i (bit_row octets) @ bits @ drop (i + length bits) (bit_row octets)"
  using assms
proof (induction i bits octets rule: set_bits.induct)
  case (1 i octets)
  then show ?case by simp
next
  case (2 i b bits octets)
  define o' where "o' = (if b then octets[i div 8 := octets ! (i div 8) OR drop_bit (i mod 8) 0x80] else octets)"
  have i: "i < length (bit_row octets)" using "2.prems"(1) by simp
  have row: "bit_row o' = (bit_row octets)[i := b]"
  proof (cases b)
    case True
    then show ?thesis using bit_row_set [of i octets] "2.prems"(1) by (simp add: o'_def)
  next
    case False
    then show ?thesis using "2.prems"(2) i by (force simp: o'_def intro: list_update_same_conv [THEN iffD2, symmetric])
  qed
  have "\<forall>j < length bits. \<not> bit_row o' ! (Suc i + j)"
    using "2.prems" unfolding row by (auto simp: nth_list_update)
  moreover have "length o' = length octets" by (simp add: o'_def)
  ultimately have "bit_row (set_bits (Suc i) bits o')
      = take (Suc i) (bit_row o') @ bits @ drop (Suc i + length bits) (bit_row o')"
    using "2.IH" "2.prems"(1) by (simp add: o'_def)
  moreover have "take (Suc i) (bit_row o') = take i (bit_row octets) @ [b]"
    using i by (simp add: row take_Suc_conv_app_nth)
  ultimately show ?case
    using i by (simp add: o'_def [symmetric] row)
qed

text \<open>The body of a bit string: the number of unused bits, then the octets.\<close>

definition bit_body :: "bool list \<Rightarrow> octets" where
  "bit_body bits =
     (let n = (length bits + 7) div 8 in octet_of (int (n * 8) - int (length bits)) # set_bits 0 bits (replicate n 0))"

lemma bit_row_zero [simp]: "concat (replicate n (replicate 8 False)) = replicate (8 * n) False"
  by (induction n) (simp_all add: replicate_add)

lemma bit_body_row:
  defines "n \<equiv> \<lambda>bits :: bool list. (length bits + 7) div 8"
  shows "bit_row (drop 1 (bit_body bits)) = bits @ replicate (8 * n bits - length bits) False"
  using set_bits_row [of 0 bits "replicate (n bits) 0"]
  by (simp add: bit_body_def Let_def n_def)

lemma decode_bits_body: "decode_bits (bit_body bits) = Inr bits"
proof -
  define pad where "pad = 8 * ((length bits + 7) div 8) - length bits"
  have pad: "pad < 8" "8 * ((length bits + 7) div 8) = length bits + pad" by (simp_all add: pad_def)
  have first: "bit_body bits ! 0 = octet_of (int pad)"
  proof -
    have "int ((length bits + 7) div 8 * 8) - int (length bits) = int pad" using pad(2) by linarith
    then show ?thesis by (simp add: bit_body_def Let_def)
  qed
  have "uint (octet_of (int pad)) = int pad" using pad(1) by (simp add: uint_octet_of)
  moreover from this have "octet_of (int pad) = 0 \<longleftrightarrow> pad = 0" by (simp add: word_uint_eq_iff)
  moreover have "bit_row (drop 1 (bit_body bits)) = bits @ replicate pad False"
    using bit_body_row [of bits] by (simp add: pad_def)
  moreover have "index (bit_body bits) 0 = Inr (octet_of (int pad))"
    using first by (simp add: index_def bit_body_def Let_def)
  ultimately show ?thesis by (simp add: decode_bits_def Let_def py_take_def)
qed

lemma bit_body_length: "length (bit_body bits) = Suc ((length bits + 7) div 8)"
  by (simp add: bit_body_def Let_def)

lemma application_bit_string_eq [codec_simps]:
  assumes "length bits \<le> 24"
  shows "application_bit_string bits = Inr (app_prim 8 (bit_body bits))"
proof -
  have "int ((length bits + 7) div 8 * 8) - int (length bits) \<in> {0..<8}" by (auto simp: of_nat_mult)
  moreover have "length (bit_body bits) < 5" using assms by (simp add: bit_body_length)
  ultimately show ?thesis
    using header_app [of "int (length (bit_body bits))" 8]
    by (simp add: application_bit_string_def Let_def py_bytes_def app_prim_def length_octets_def bit_body_def)
qed

lemma context_bit_string_eq [codec_simps]:
  assumes "length bits \<le> 24" "0 \<le> t" "t < 15"
  shows "context_bit_string t bits = Inr (ctx_prim t (bit_body bits))"
proof -
  have "length (bit_body bits) < 5" using assms by (simp add: bit_body_length)
  then show ?thesis
    using assms header_context' [of "int (length (bit_body bits))" t]
    by (simp add: context_bit_string_def application_bit_string_eq app_prim_def ctx_prim_def
        length_octets_def py_bytes_def Let_def)
qed

section \<open>The contract of an application encoder\<close>

text \<open>
  An encoder makes, of every value it accepts, one application tag whose body decodes to that
  value. From this alone: the value comes back through a ReadProperty answer, and a whole array
  comes back element by element.
\<close>

locale primitive_codec =
  fixes encode :: "'a \<Rightarrow> octets result"
    and number :: int
    and valid :: "'a \<Rightarrow> bool"
    and val :: "'a \<Rightarrow> py_value"
  assumes encodes: "valid x \<Longrightarrow> \<exists>c b. encode x = Inr c \<and> is_tag c number False Value b \<and> decode_body number b = Inr (val x)"
begin

lemma encode_ok:
  assumes "valid x"
  obtains c where "encode x = Inr c" and "balanced c"
    and "\<And>rest. decode_application (c @ rest) = Inr (val x)"
    and "\<And>rest. application_tag (c @ rest) = Inr (Some number)"
  using encodes [OF assms] decode_application_tag balanced_value by metis

lemma decode_encode: "valid x \<Longrightarrow> rbind (encode x) decode_application = Inr (val x)"
  using encode_ok [of x] by (metis append_Nil2 rbind_Inr)

lemma tag_encode: "valid x \<Longrightarrow> rbind (encode x) application_tag = Inr (Some number)"
  using encode_ok [of x] by (metis append_Nil2 rbind_Inr)

lemma read_back:
  assumes "valid x" "unsigned8 iid" "object_range ot i" "unsigned32 p"
  shows "rbind (encode x) (\<lambda>v. rbind (read_property_ack iid ot i p v) (\<lambda>apdu.
    rbind (read_property_value apdu) (\<lambda>r. case r of None \<Rightarrow> Inr PyNone | Some octets \<Rightarrow> decode_application octets)))
    = Inr (val x)"
proof -
  obtain c where c: "encode x = Inr c" "balanced c" "decode_application c = Inr (val x)"
    using encode_ok [OF assms(1)] by (metis append_Nil2)
  obtain apdu where "read_property_ack iid ot i p c = Inr apdu" "read_property_value apdu = Inr (Some c)"
    using read_property_value_roundtrip [OF assms(2-4) c(2)] by (auto simp: rbind_eq_Inr)
  with c show ?thesis by simp
qed

lemma decoded_array:
  assumes "\<And>x. x \<in> set xs \<Longrightarrow> valid x"
  shows "rbind (cat (map encode xs)) decoded_values = Inr (map val xs)"
proof -
  from assms obtain c b where e: "\<And>x. x \<in> set xs \<Longrightarrow> encode x = Inr (c x) \<and>
      is_tag (c x) number False Value (b x) \<and> decode_body number (b x) = Inr (val x)"
    using encodes by metis
  have cat: "cat (map encode xs) = Inr (concat (map c xs))"
    using e by (induction xs) auto
  have "decoded_values (concat (map c xs)) = Inr (map (\<lambda>y. projr (decode_application y)) (map c xs))"
    using e by (intro decoded_values_concat) auto
  moreover have "decode_application (c x) = Inr (val x)" if "x \<in> set xs" for x
    using decode_application_tag(1) [of "c x" number "b x" "[]"] e [OF that] by simp
  ultimately show ?thesis by (simp add: cat)
qed

end

text \<open>The text an application CharacterString can carry: valid code points, below 253 octets of UTF-8.\<close>

definition short_text :: "pystr \<Rightarrow> bool" where
  "short_text s = (case utf8_encode s of Inl _ \<Rightarrow> False | Inr u \<Rightarrow> length u < 253)"

lemma short_textE:
  assumes "short_text s"
  obtains u where "utf8_encode s = Inr u" "length u < 253"
  using assms by (auto simp: short_text_def split: sum.splits)

lemma application_boolean_eq [codec_simps]: "application_boolean v = Inr [octet_of (16 + of_bool v)]"
  by (simp add: application_boolean_def py_bytes_def)

lemma app_prim_codec:
  assumes "r = Inr (app_prim t b)" and "0 \<le> t" "t < 15" "t \<noteq> 1" and "length b < 65536"
    and "decode_body t b = Inr v"
  shows "\<exists>c b. r = Inr c \<and> is_tag c t False Value b \<and> decode_body t b = Inr v"
  using assms is_tag_app_prim by blast

interpretation unsigned_codec: primitive_codec application_unsigned TAG_UNSIGNED "\<lambda>v. unsigned32 v" PyInt
  by unfold_locales (rule app_prim_codec, rule application_unsigned_eq, simp_all add: decode_body_def small_body)

interpretation enumerated_codec: primitive_codec application_enumerated TAG_ENUMERATED "\<lambda>v. unsigned32 v" PyInt
  by unfold_locales (rule app_prim_codec, rule application_enumerated_eq, simp_all add: decode_body_def small_body)

interpretation signed_codec: primitive_codec application_signed TAG_SIGNED "\<lambda>v. signed32 v" PyInt
  by unfold_locales (rule app_prim_codec, rule application_signed_eq, simp_all add: decode_body_def small_body)

interpretation boolean_codec: primitive_codec application_boolean TAG_BOOLEAN "\<lambda>_. True" PyBool
proof
  fix v :: bool
  show "\<exists>c b. application_boolean v = Inr c \<and> is_tag c TAG_BOOLEAN False Value b \<and>
      decode_body TAG_BOOLEAN b = Inr (PyBool v)"
    using is_tag_application_boolean [of "of_bool v"]
    by (intro exI [of _ "[octet_of (16 + of_bool v)]"] exI [of _ "[octet_of (of_bool v)]"])
      (simp add: application_boolean_eq decode_body_def octet_of_def)
qed

interpretation null_codec: primitive_codec "\<lambda>_ :: unit. application_null" TAG_NULL "\<lambda>_. True" "\<lambda>_. PyNone"
  by unfold_locales (rule app_prim_codec, rule application_null_eq, simp_all add: decode_body_def)

interpretation real_codec: primitive_codec application_real TAG_REAL is_real32 PyFloat
proof
  fix x assume "is_real32 x"
  then obtain bs where bs: "pack_f x = Inr bs" "length bs = 4" "unpack_f bs = Inr x"
    by (rule unpack_f_pack_f)
  then show "\<exists>c b. application_real x = Inr c \<and> is_tag c TAG_REAL False Value b \<and>
      decode_body TAG_REAL b = Inr (PyFloat x)"
    by (intro app_prim_codec [of _ _ bs]) (simp_all add: application_real_eq decode_body_def)
qed

interpretation object_codec: primitive_codec "\<lambda>(ot, i). application_object_id ot i" TAG_OBJECT_IDENTIFIER
  "\<lambda>(ot, i). object_range ot i" "\<lambda>(ot, i). PyObject ot i"
proof
  fix x :: "int \<times> int"
  assume x: "case x of (ot, i) \<Rightarrow> object_range ot i"
  then show "\<exists>c b. (case x of (ot, i) \<Rightarrow> application_object_id ot i) = Inr c \<and>
      is_tag c TAG_OBJECT_IDENTIFIER False Value b \<and>
      decode_body TAG_OBJECT_IDENTIFIER b = Inr (case x of (ot, i) \<Rightarrow> PyObject ot i)"
    by (intro app_prim_codec [of _ _ "oid (fst x) (snd x)"])
      (auto simp: application_object_id_eq decode_body_def split: prod.splits)
qed

interpretation string_codec: primitive_codec application_character_string TAG_CHARACTER_STRING short_text PyStr
proof
  fix s assume "short_text s"
  then obtain u where u: "utf8_encode s = Inr u" "length u < 253" by (rule short_textE)
  then show "\<exists>c b. application_character_string s = Inr c \<and> is_tag c TAG_CHARACTER_STRING False Value b \<and>
      decode_body TAG_CHARACTER_STRING b = Inr (PyStr s)"
    by (intro app_prim_codec [of _ _ "0 # u"])
      (simp_all add: application_character_string_eq decode_body_def utf8_decode_encode)
qed

interpretation bit_string_codec: primitive_codec application_bit_string TAG_BIT_STRING
  "\<lambda>bits. length bits \<le> 24" PyBits
  by unfold_locales (rule app_prim_codec, rule application_bit_string_eq,
    simp_all add: decode_body_def decode_bits_body bit_body_length)

interpretation octet_string_codec: primitive_codec application_octet_string 6 "\<lambda>b. length b < 65536" PyBytes
  by unfold_locales (rule app_prim_codec, rule application_octet_string_eq, simp_all add: decode_body_def)

text \<open>Access specifications: one member per object, with the property identifiers in order.\<close>

definition ras_chunks :: "int \<Rightarrow> int \<Rightarrow> int list \<Rightarrow> octets list" where
  "ras_chunks ot i ps = [ctx_prim 0 (oid ot i), open_prim 1] @ map (\<lambda>p. ctx_prim 0 (u_octets p)) ps @ [close_prim 1]"

lemma cat_context_unsigned:
  "list_all (\<lambda>p. unsigned32 p) ps \<Longrightarrow> 0 \<le> t \<Longrightarrow> t < 15 \<Longrightarrow>
   cat (concat (map (\<lambda>(p, ix). context_unsigned t p # (case ix of None \<Rightarrow> [] | Some i \<Rightarrow> [context_unsigned 1 i]))
      (map (\<lambda>p. (p, None)) ps)) @ rs)
   = rbind (cat rs) (\<lambda>z. Inr (concat (map (\<lambda>p. ctx_prim t (u_octets p)) ps) @ z))"
  by (induction ps) (auto simp: context_unsigned_eq)

lemma read_access_specification_eq [codec_simps]:
  assumes "object_range ot i" "list_all (\<lambda>p. unsigned32 p) ps"
  shows "read_access_specification ot i (map (\<lambda>p. (p, None)) ps) = Inr (concat (ras_chunks ot i ps))"
  using assms cat_context_unsigned [of ps 0 "[closing_tag 1]"]
  by (simp add: read_access_specification_def codec_simps ras_chunks_def)

lemma update_fresh:
  "key \<notin> fst ` set ms \<Longrightarrow> AList.update key v ms = ms @ [(key, v)]"
  "key \<notin> fst ` set ms \<Longrightarrow> AList.update key v (ms @ [(key, w)]) = ms @ [(key, v)]"
  by (induction ms) auto

lemma members_step_property:
  "key \<notin> fst ` set ms \<Longrightarrow>
   members_step n \<lparr>tag_number = 0, tag_context = True, tag_kind = Value, tag_body = b, tag_next = q\<rparr>
     (ms @ [(key, qs)], Some key) = Inr (ms @ [(key, qs @ [from_bytes b])], Some key)"
  using map_of_eq_None_iff [of ms key]
  by (simp add: members_step_def update_fresh map_add_def)

lemma members_step_object:
  "object_range ot i \<Longrightarrow> (ot, i) \<notin> fst ` set ms \<Longrightarrow>
   members_step n \<lparr>tag_number = 0, tag_context = True, tag_kind = Value, tag_body = oid ot i, tag_next = q\<rparr>
     (ms, None) = Inr (ms @ [((ot, i), [])], Some (ot, i))"
  by (simp add: members_step_def update_fresh Let_def)

lemma members_step_brackets:
  "members_step n \<lparr>tag_number = t, tag_context = c, tag_kind = Open, tag_body = b, tag_next = q\<rparr> (ms, Some key)
     = Inr (ms, Some key)"
  "members_step n \<lparr>tag_number = 1, tag_context = c, tag_kind = Close, tag_body = b, tag_next = q\<rparr> (ms, Some key)
     = Inr (ms, None)"
  by (simp_all add: members_step_def)

lemma members_properties:
  assumes "list_all (\<lambda>p. unsigned32 p) ps" "key \<notin> fst ` set ms"
  shows "tag_loop (pre @ concat (map (\<lambda>p. ctx_prim 0 (u_octets p)) ps) @ suf) members_step (length pre)
      (ms @ [(key, qs)], Some key)
    = tag_loop ((pre @ concat (map (\<lambda>p. ctx_prim 0 (u_octets p)) ps)) @ suf) members_step
      (length (pre @ concat (map (\<lambda>p. ctx_prim 0 (u_octets p)) ps))) (ms @ [(key, qs @ ps)], Some key)"
  using assms(1)
proof (induction ps arbitrary: pre qs)
  case Nil
  then show ?case by simp
next
  case (Cons p ps)
  show ?case
    using tag_loop_at [OF is_tag_unsigned [of 0 p], of pre
        "concat (map (\<lambda>p. ctx_prim 0 (u_octets p)) ps) @ suf" members_step "(ms @ [(key, qs)], Some key)"]
      Cons.IH [of "pre @ ctx_prim 0 (u_octets p)" "qs @ [p]"] Cons.prems assms(2)
    by (simp add: members_step_property)
qed

lemma members_specification:
  assumes "object_range ot i" "list_all (\<lambda>p. unsigned32 p) ps" "(ot, i) \<notin> fst ` set ms"
  shows "tag_loop (pre @ concat (ras_chunks ot i ps) @ suf) members_step (length pre) (ms, None)
    = tag_loop ((pre @ concat (ras_chunks ot i ps)) @ suf) members_step
        (length (pre @ concat (ras_chunks ot i ps))) (ms @ [((ot, i), ps)], None)"
proof -
  let ?o = "ctx_prim 0 (oid ot i)" and ?ps = "concat (map (\<lambda>p. ctx_prim 0 (u_octets p)) ps)"
  show ?thesis
    using tag_loop_at [OF is_tag_oid [of 0 ot i], of pre "open_prim 1 @ ?ps @ close_prim 1 @ suf"
        members_step "(ms, None)"]
      tag_loop_at [OF is_tag_open_prim [of 1], of "pre @ ?o" "?ps @ close_prim 1 @ suf" members_step
        "(ms @ [((ot, i), [])], Some (ot, i))"]
      members_properties [OF assms(2,3), of "pre @ ?o @ open_prim 1" "close_prim 1 @ suf" "[]"]
      tag_loop_at [OF is_tag_close_prim [of 1], of "pre @ ?o @ open_prim 1 @ ?ps" suf members_step
        "(ms @ [((ot, i), ps)], Some (ot, i))"] assms
    by (simp add: ras_chunks_def members_step_object members_step_brackets)
qed

definition specification_fits :: "object_ref \<times> int list \<Rightarrow> bool" where
  "specification_fits s = (case s of ((ot, i), ps) \<Rightarrow> object_range ot i \<and> list_all (\<lambda>p. unsigned32 p) ps)"

lemma members_specifications:
  assumes "list_all specification_fits specs" "distinct (map fst (ms @ specs))"
  shows "tag_loop (pre @ concat (map (\<lambda>((ot, i), ps). concat (ras_chunks ot i ps)) specs)) members_step (length pre) (ms, None)
    = Inr (ms @ specs, None)"
  using assms
proof (induction specs arbitrary: pre ms)
  case Nil
  then show ?case using tag_loop_end [of pre] by simp
next
  case (Cons s specs)
  obtain ot i ps where [simp]: "s = ((ot, i), ps)" by (metis surj_pair)
  show ?case
    using members_specification [of ot i ps ms pre] Cons.prems
      Cons.IH [of "ms @ [s]" "pre @ concat (ras_chunks ot i ps)"]
    by (auto simp: specification_fits_def)
qed

lemma read_access_specifications_roundtrip:
  assumes "list_all specification_fits specs" "distinct (map fst specs)"
  shows "rbind (cat (map (\<lambda>((ot, i), ps). read_access_specification ot i (map (\<lambda>p. (p, None)) ps)) specs))
    read_access_specifications = Inr specs"
proof -
  have "cat (map (\<lambda>((ot, i), ps). read_access_specification ot i (map (\<lambda>p. (p, None)) ps)) specs)
      = Inr (concat (map (\<lambda>((ot, i), ps). concat (ras_chunks ot i ps)) specs))"
    using assms(1) by (induction specs) (auto simp: specification_fits_def read_access_specification_eq)
  then show ?thesis
    using members_specifications [of specs "[]" "[]"] assms by (simp add: read_access_specifications_def)
qed

section \<open>Runs of context-tagged fields\<close>

text \<open>The four octets of a REAL.\<close>

definition real_octets :: "py_float \<Rightarrow> octets" where
  "real_octets x = projr (pack_f x)"

definition opt_real :: "int \<Rightarrow> py_float option \<Rightarrow> (int \<times> octets) list" where
  "opt_real t v = (case v of None \<Rightarrow> [] | Some x \<Rightarrow> [(t, real_octets x)])"

definition opt_unsigned :: "int \<Rightarrow> int option \<Rightarrow> (int \<times> octets) list" where
  "opt_unsigned t v = (case v of None \<Rightarrow> [] | Some x \<Rightarrow> [(t, u_octets x)])"

abbreviation (input) real32_option :: "py_float option \<Rightarrow> bool" where
  "real32_option v \<equiv> (case v of None \<Rightarrow> True | Some x \<Rightarrow> is_real32 x)"

text \<open>A run of context-tagged primitives from their numbers and bodies.\<close>

definition ctx_run :: "(int \<times> octets) list \<Rightarrow> octets" where
  "ctx_run fs = concat (map (\<lambda>(t, b). ctx_prim t b) fs)"

lemma ctx_run_append [simp]: "ctx_run (a @ b) = ctx_run a @ ctx_run b" "ctx_run [] = []"
  "ctx_run ((t, c) # b) = ctx_prim t c @ ctx_run b"
  by (simp_all add: ctx_run_def)

lemma context_values_run:
  assumes "list_all (\<lambda>(t, b). 0 \<le> t \<and> t < 15 \<and> length b < 65536) fs"
  shows "context_values (ctx_run fs) = Inr fs"
proof -
  let ?step = "\<lambda>_ t values. Inr (if tag_context t \<and> tag_kind t = Value then values @ [(tag_number t, tag_body t)] else values)"
  have "tag_loop (pre @ ctx_run fs) ?step (length pre) vs = Inr (vs @ fs)" for pre vs
    using assms
  proof (induction fs arbitrary: pre vs)
    case Nil
    then show ?case using tag_loop_end [of pre ?step vs] by (simp add: ctx_run_def)
  next
    case (Cons f fs)
    obtain t b where f: "f = (t, b)" by (cases f)
    then have "is_tag (ctx_prim t b) t True Value b" using Cons.prems by (intro is_tag_ctx_prim) auto
    from tag_loop_at [OF this, of pre "ctx_run fs" ?step vs] Cons.IH [of "pre @ ctx_prim t b" "vs @ [f]"] Cons.prems
    show ?case by (simp add: ctx_run_def f)
  qed
  from this [of "[]" "[]"] show ?thesis by (simp add: context_values_def)
qed

lemma pack_f_real32:
  assumes "is_real32 x"
  shows "pack_f x = Inr (real_octets x)" "length (real_octets x) = 4" "unpack_f (real_octets x) = Inr x"
  by (rule unpack_f_pack_f [OF assms], simp add: real_octets_def)+

lemma short_text_body:
  assumes "short_text t" "0 \<le> n" "n < 15"
  shows "context_character_string n t = Inr (ctx_prim n (projr (text_body t)))"
    and "length (projr (text_body t)) < 254" and "utf8_decode (drop (Suc 0) (projr (text_body t))) = t"
proof -
  obtain u where u: "utf8_encode t = Inr u" "length u < 253" using assms(1) by (rule short_textE)
  then show "context_character_string n t = Inr (ctx_prim n (projr (text_body t)))"
    "length (projr (text_body t)) < 254" "utf8_decode (drop (Suc 0) (projr (text_body t))) = t"
    using context_character_string_eq [OF assms(2,3) u] by (simp_all add: text_body_eq utf8_decode_encode)
qed

section \<open>Any primitive\<close>

datatype primitive = Null_value | Boolean_value bool | Unsigned_value int | Signed_value int | Enumerated_value int
  | Real_value py_float | Text_value pystr | Bits_value "bool list" | Object_value int int | Octets_value octets

fun encode_primitive :: "primitive \<Rightarrow> octets result" where
  "encode_primitive Null_value = application_null"
| "encode_primitive (Boolean_value b) = application_boolean b"
| "encode_primitive (Unsigned_value v) = application_unsigned v"
| "encode_primitive (Signed_value v) = application_signed v"
| "encode_primitive (Enumerated_value v) = application_enumerated v"
| "encode_primitive (Real_value x) = application_real x"
| "encode_primitive (Text_value s) = application_character_string s"
| "encode_primitive (Bits_value bs) = application_bit_string bs"
| "encode_primitive (Object_value ot i) = application_object_id ot i"
| "encode_primitive (Octets_value b) = application_octet_string b"

fun primitive_value :: "primitive \<Rightarrow> py_value" where
  "primitive_value Null_value = PyNone"
| "primitive_value (Boolean_value b) = PyBool b"
| "primitive_value (Unsigned_value v) = PyInt v"
| "primitive_value (Signed_value v) = PyInt v"
| "primitive_value (Enumerated_value v) = PyInt v"
| "primitive_value (Real_value x) = PyFloat x"
| "primitive_value (Text_value s) = PyStr s"
| "primitive_value (Bits_value bs) = PyBits bs"
| "primitive_value (Object_value ot i) = PyObject ot i"
| "primitive_value (Octets_value b) = PyBytes b"

fun primitive_fits :: "primitive \<Rightarrow> bool" where
  "primitive_fits Null_value = True"
| "primitive_fits (Boolean_value b) = True"
| "primitive_fits (Unsigned_value v) = unsigned32 v"
| "primitive_fits (Signed_value v) = signed32 v"
| "primitive_fits (Enumerated_value v) = unsigned32 v"
| "primitive_fits (Real_value x) = is_real32 x"
| "primitive_fits (Text_value s) = short_text s"
| "primitive_fits (Bits_value bs) = (length bs \<le> 24)"
| "primitive_fits (Object_value ot i) = object_range ot i"
| "primitive_fits (Octets_value b) = (length b < 65536)"

lemma encode_primitive_tag:
  assumes "primitive_fits x"
  shows "\<exists>c n b. encode_primitive x = Inr c \<and> is_tag c n False Value b \<and> decode_body n b = Inr (primitive_value x)"
proof (cases x)
  case (Object_value ot i)
  with assms object_codec.encodes [of "(ot, i)"] show ?thesis by auto
next
  case Null_value
  with null_codec.encodes show ?thesis by auto
next
  case (Boolean_value b)
  with boolean_codec.encodes [of b] show ?thesis by auto
qed (use assms unsigned_codec.encodes signed_codec.encodes enumerated_codec.encodes real_codec.encodes
      string_codec.encodes bit_string_codec.encodes octet_string_codec.encodes in fastforce)+

lemma encode_primitives:
  assumes "list_all primitive_fits xs"
  obtains cs where "map encode_primitive xs = map Inr cs" "cat (map encode_primitive xs) = Inr (concat cs)"
    "\<And>c. c \<in> set cs \<Longrightarrow> \<exists>n b v. is_tag c n False Value b \<and> decode_body n b = Inr v"
    "map (\<lambda>c. projr (decode_application c)) cs = map primitive_value xs"
proof -
  have "\<exists>cs. map encode_primitive xs = map Inr cs \<and> cat (map encode_primitive xs) = Inr (concat cs) \<and>
    (\<forall>c \<in> set cs. \<exists>n b v. is_tag c n False Value b \<and> decode_body n b = Inr v) \<and>
    map (\<lambda>c. projr (decode_application c)) cs = map primitive_value xs"
    using assms
  proof (induction xs)
    case (Cons x xs)
    then obtain cs where cs: "map encode_primitive xs = map Inr cs" "cat (map encode_primitive xs) = Inr (concat cs)"
      "\<forall>c \<in> set cs. \<exists>n b v. is_tag c n False Value b \<and> decode_body n b = Inr v"
      "map (\<lambda>c. projr (decode_application c)) cs = map primitive_value xs" by auto
    from Cons.prems encode_primitive_tag [of x] obtain c n b where c: "encode_primitive x = Inr c"
      "is_tag c n False Value b" "decode_body n b = Inr (primitive_value x)" by auto
    with decode_application_tag(1) [OF c(2), of "[]"] cs show ?case
      by (intro exI [of _ "c # cs"]) auto
  qed simp
  with that show thesis by metis
qed

section \<open>Claims\<close>

text \<open>C20: An array of encoded primitives of any types decodes to its values in order, and cutting it into
  elements gives back the encoding of each element.\<close>
theorem mixed_array_roundtrip:
  assumes "list_all primitive_fits xs"
  shows "\<exists>octets. cat (map encode_primitive xs) = Inr octets \<and> decoded_values octets = Inr (map primitive_value xs) \<and>
    rbind (application_elements octets) (\<lambda>es. Inr (map Inr es)) = Inr (map encode_primitive xs)"
proof -
  obtain cs where cs: "map encode_primitive xs = map Inr cs" "cat (map encode_primitive xs) = Inr (concat cs)"
    "\<And>c. c \<in> set cs \<Longrightarrow> \<exists>n b v. is_tag c n False Value b \<and> decode_body n b = Inr v"
    "map (\<lambda>c. projr (decode_application c)) cs = map primitive_value xs"
    using encode_primitives [OF assms] by metis
  have "application_elements (concat cs) = Inr cs" using cs(3) by (intro application_elements_concat) blast
  with decoded_values_concat [of cs] cs show ?thesis by auto
qed

theorem mixed_array_roundtrip_witness:
  "\<exists>octets. cat (map encode_primitive [Null_value, Signed_value (- 129), Bits_value [True, False, True], Real_value 0x3FF8000000000000])
      = Inr octets \<and>
    decoded_values octets = Inr [PyNone, PyInt (- 129), PyBits [True, False, True], PyFloat 0x3FF8000000000000]"
proof -
  have "list_all primitive_fits [Null_value, Signed_value (- 129), Bits_value [True, False, True], Real_value 0x3FF8000000000000]"
    by code_simp
  from mixed_array_roundtrip [OF this] show ?thesis by auto
qed

text \<open>Parsing a WriteProperty request gives the object, property, value octets, and the priority and
  array index it was made with, present or absent.\<close>
theorem write_request_roundtrip:
  assumes "unsigned8 iid" "object_range ot i" "unsigned32 p" "unsigned32_option pr" "unsigned32_option ix" "balanced v"
  shows "\<exists>apdu. write_property_request iid ot i p v pr ix = Inr apdu \<and>
    parse_write_property_request apdu = Inr (Some \<lparr>wr_object_type = ot, wr_instance = i, wr_property_identifier = p,
      wr_array_index = ix, wr_value_octets = v, wr_priority = pr\<rparr>)"
  using parse_write_property_request_roundtrip [OF assms] by (auto simp: rbind_eq_Inr)

theorem write_request_roundtrip_witness:
  "\<exists>apdu. write_property_request 9 1 2 85 [0x00] (Some 8) (Some 3) = Inr apdu \<and>
    parse_write_property_request apdu = Inr (Some \<lparr>wr_object_type = 1, wr_instance = 2, wr_property_identifier = 85,
      wr_array_index = Some 3, wr_value_octets = [0x00], wr_priority = Some 8\<rparr>)"
proof -
  have "balanced [0x00]" by code_simp
  from write_request_roundtrip [OF _ _ _ _ _ this, of 9 1 2 85 "Some 8" "Some 3"] show ?thesis by simp
qed

text \<open>Parsing a ReadProperty request gives the object and property, and the array index where it is
  asked for.\<close>
theorem read_request_roundtrip:
  assumes "unsigned8 iid" "object_range ot i" "unsigned32 p" "unsigned32_option ix"
  shows "\<exists>apdu. read_property_request iid ot i p ix = Inr apdu \<and>
    parse_read_property_request apdu = Inr (Some (ot, i, p)) \<and>
    parse_read_property_request_indexed apdu = Inr (Some ((ot, i, p), ix))"
  using parse_read_property_request_roundtrip [OF assms] parse_read_property_request_drops_index [OF assms]
  by (auto simp: rbind_eq_Inr)

theorem read_request_roundtrip_witness:
  "\<exists>apdu. read_property_request 9 1 2 87 (Some 0) = Inr apdu \<and>
    parse_read_property_request_indexed apdu = Inr (Some ((1, 2, 87), Some 0))"
  using read_request_roundtrip [of 9 1 2 87 "Some 0"] by auto

text \<open>C37: An ASCII text of 253 characters is encoded with the length octet 254, which announces an
  extended length: decoding it loses the text's first two characters and keeps, of those after them, at
  most one fewer than the code of the first character (none for a NUL): a text that starts with A, code
  65, comes back as its third to sixty-sixth characters.\<close>
theorem text_of_253_octets_misread:
  assumes "list_all (\<lambda>c. c < 128) s" and "length s = 253"
  shows "rbind (application_character_string s) decode_application = Inr (PyStr (take (s ! 0 - 1) (drop 2 s)))"
proof -
  let ?u = "map octet_nat s"
  have u: "utf8_encode s = Inr ?u" using utf8_encode_ascii [OF assms(1)] by simp
  have e: "application_character_string s = Inr (0x75 # 254 # 0 # ?u)"
    using assms(2) by (simp add: application_character_string_def text_body_eq [OF u] py_bytes_def octet_of_def)
  obtain c0 t where s: "s = c0 # t" using assms(2) by (cases s) auto
  have c0: "uint (octet_nat c0) = int c0" using assms(1) s unat_octet_nat [of c0] by (simp add: uint_nat)
  have t: "read_tag (0x75 # 254 # 0 # ?u) 0 = Inr \<lparr>tag_number = 7, tag_context = False, tag_kind = Value,
      tag_body = take c0 (map octet_nat t), tag_next = 4 + c0\<rparr>"
    by (simp add: read_tag_def tag_number_field_def tag_content_def extended_length_def s py_slice_def unpack_H_def
        from_bytes_def c0 drop_bit_eq_div)
  have "list_all (\<lambda>c. c < 128) (take (c0 - 1) (drop 1 t))"
    using assms(1) s by (auto simp: list_all_iff dest!: in_set_takeD in_set_dropD)
  from utf8_decode_encode [OF utf8_encode_ascii [OF this]]
  have "utf8_decode (drop 1 (take c0 (map octet_nat t))) = take (c0 - 1) (drop 1 t)"
    by (simp add: take_map drop_map drop_take)
  with t e s show ?thesis by (simp add: decode_application_def decode_body_def)
qed

theorem text_of_253_octets_misread_witness:
  "rbind (application_character_string (replicate 253 65)) decode_application = Inr (PyStr (replicate 64 65))"
  using text_of_253_octets_misread [of "replicate 253 65"] by (simp add: list_all_iff)

end
