(* ===== verification/Py_Exec.thy ===== *)
theory Py_Exec
  imports Wire_Prelude
begin

text \<open>
  Methods that change an object's state and may raise: a function from the state to the outcome
  and the state it leaves behind. A raise keeps what was assigned before it, as in Python.
\<close>

type_synonym ('s, 'a) exec = "'s \<Rightarrow> 'a result \<times> 's"

definition ebind :: "('s, 'a) exec \<Rightarrow> ('a \<Rightarrow> ('s, 'b) exec) \<Rightarrow> ('s, 'b) exec" where
  "ebind m f s = (case m s of (Inl e, s') \<Rightarrow> (Inl e, s') | (Inr x, s') \<Rightarrow> f x s')"

definition eret :: "'a \<Rightarrow> ('s, 'a) exec" where
  "eret x s = (Inr x, s)"

definition elift :: "'a result \<Rightarrow> ('s, 'a) exec" where
  "elift r s = (r, s)"

definition eget :: "('s \<Rightarrow> 'a) \<Rightarrow> ('s, 'a) exec" where
  "eget f s = (Inr (f s), s)"

definition emodify :: "('s \<Rightarrow> 's) \<Rightarrow> ('s, unit) exec" where
  "emodify f s = (Inr (), f s)"

text \<open>An argument that has to be there: \<open>None\<close> where the callee needs a number is a \<open>TypeError\<close>.\<close>

definition needed :: "'a option \<Rightarrow> 'a result" where
  "needed v = (case v of None \<Rightarrow> Inl TypeError | Some x \<Rightarrow> Inr x)"

text \<open>\<open>dict[key]\<close>.\<close>

definition get_item :: "('k \<rightharpoonup> 'v) \<Rightarrow> 'k \<Rightarrow> 'v result" where
  "get_item m k = (case m k of None \<Rightarrow> Inl KeyError | Some v \<Rightarrow> Inr v)"

lemma exec_simps [simp]:
  "eret x s = (Inr x, s)" "elift r s = (r, s)" "eget g s = (Inr (g s), s)" "emodify h s = (Inr (), h s)"
  by (simp_all add: eret_def elift_def eget_def emodify_def)

lemma ebind_simps [simp]:
  "m s = (Inr x, s') \<Longrightarrow> ebind m f s = f x s'"
  "m s = (Inl e, s') \<Longrightarrow> ebind m f s = (Inl e, s')"
  by (simp_all add: ebind_def)

lemma ebind_lift: "ebind (elift r) f s = (case r of Inl e \<Rightarrow> (Inl e, s) | Inr x \<Rightarrow> f x s)"
  by (cases r) simp_all

lemma ebind_InrE:
  assumes "ebind m f s = (Inr y, t)"
  obtains x s' where "m s = (Inr x, s')" and "f x s' = (Inr y, t)"
  using assms by (auto simp: ebind_def split: prod.splits sum.splits)

text \<open>
  What every run of a method keeps: a predicate on states that \<open>keeps\<close> holds of is carried
  through sequencing, whether the run returns or raises.
\<close>

definition keeps :: "('s \<Rightarrow> bool) \<Rightarrow> ('s, 'a) exec \<Rightarrow> bool" where
  "keeps P m \<longleftrightarrow> (\<forall>s. P s \<longrightarrow> P (snd (m s)))"

named_theorems keeps_intros \<open>methods keep a predicate on states\<close>

lemma keeps_bind [keeps_intros]: "keeps P m \<Longrightarrow> (\<And>x. keeps P (f x)) \<Longrightarrow> keeps P (ebind m f)"
  by (auto simp: keeps_def ebind_def split: prod.splits sum.splits)

lemma keeps_basic [keeps_intros]: "keeps P (eret x)" "keeps P (elift r)" "keeps P (eget g)"
  by (simp_all add: keeps_def)

lemma keeps_modify [keeps_intros]: "(\<And>s. P s \<Longrightarrow> P (h s)) \<Longrightarrow> keeps P (emodify h)"
  by (simp add: keeps_def)

lemma keeps_if [keeps_intros]: "(b \<Longrightarrow> keeps P m) \<Longrightarrow> (\<not> b \<Longrightarrow> keeps P n) \<Longrightarrow> keeps P (if b then m else n)"
  by simp

lemma keeps_option [keeps_intros]:
  "(v = None \<Longrightarrow> keeps P m) \<Longrightarrow> (\<And>x. v = Some x \<Longrightarrow> keeps P (n x)) \<Longrightarrow>
   keeps P (case v of None \<Rightarrow> m | Some x \<Rightarrow> n x)"
  by (cases v) auto

lemma keeps_prod [keeps_intros]:
  "(\<And>a b. v = (a, b) \<Longrightarrow> keeps P (m a b)) \<Longrightarrow> keeps P (case v of (a, b) \<Rightarrow> m a b)"
  by (cases v) simp

lemma keeps_run: "keeps P m \<Longrightarrow> P s \<Longrightarrow> P (snd (m s))"
  by (simp add: keeps_def)

text \<open>What a method returns when it does: a predicate on results, carried through sequencing.\<close>

definition yields :: "('a \<Rightarrow> bool) \<Rightarrow> ('s, 'a) exec \<Rightarrow> bool" where
  "yields Q m \<longleftrightarrow> (\<forall>s x s'. m s = (Inr x, s') \<longrightarrow> Q x)"

named_theorems yields_intros \<open>results of methods satisfy a predicate\<close>

lemma yields_bind [yields_intros]: "(\<And>x. yields Q (f x)) \<Longrightarrow> yields Q (ebind m f)"
  by (auto simp: yields_def elim!: ebind_InrE)

lemma yields_bind_dep: "yields R m \<Longrightarrow> (\<And>x. R x \<Longrightarrow> yields Q (f x)) \<Longrightarrow> yields Q (ebind m f)"
  unfolding yields_def by (metis ebind_InrE)

lemma yields_ret [yields_intros]: "Q x \<Longrightarrow> yields Q (eret x)"
  by (simp add: yields_def)

lemma yields_lift [yields_intros]: "(\<And>x. r = Inr x \<Longrightarrow> Q x) \<Longrightarrow> yields Q (elift r)"
  by (simp add: yields_def)

lemma yields_if [yields_intros]: "(b \<Longrightarrow> yields Q m) \<Longrightarrow> (\<not> b \<Longrightarrow> yields Q n) \<Longrightarrow> yields Q (if b then m else n)"
  by simp

lemma yields_option [yields_intros]:
  "(v = None \<Longrightarrow> yields Q m) \<Longrightarrow> (\<And>x. v = Some x \<Longrightarrow> yields Q (n x)) \<Longrightarrow>
   yields Q (case v of None \<Rightarrow> m | Some x \<Rightarrow> n x)"
  by (cases v) auto

text \<open>What a run that returns keeps; a raise may stop between two assignments.\<close>

definition preserves :: "('s \<Rightarrow> bool) \<Rightarrow> ('s, 'a) exec \<Rightarrow> bool" where
  "preserves P m \<longleftrightarrow> (\<forall>s x s'. P s \<longrightarrow> m s = (Inr x, s') \<longrightarrow> P s')"

named_theorems preserves_intros \<open>methods that return preserve a predicate on states\<close>

lemma preserves_bind [preserves_intros]: "preserves P m \<Longrightarrow> (\<And>x. preserves P (f x)) \<Longrightarrow> preserves P (ebind m f)"
  unfolding preserves_def by (metis ebind_InrE)

lemma preserves_basic [preserves_intros]: "preserves P (eret x)" "preserves P (elift r)" "preserves P (eget g)"
  by (simp_all add: preserves_def)

lemma preserves_modify [preserves_intros]: "(\<And>s. P s \<Longrightarrow> P (h s)) \<Longrightarrow> preserves P (emodify h)"
  by (simp add: preserves_def)

lemma preserves_if [preserves_intros]:
  "(b \<Longrightarrow> preserves P m) \<Longrightarrow> (\<not> b \<Longrightarrow> preserves P n) \<Longrightarrow> preserves P (if b then m else n)"
  by simp

lemma preserves_option [preserves_intros]:
  "(v = None \<Longrightarrow> preserves P m) \<Longrightarrow> (\<And>x. v = Some x \<Longrightarrow> preserves P (n x)) \<Longrightarrow>
   preserves P (case v of None \<Rightarrow> m | Some x \<Rightarrow> n x)"
  by (cases v) auto

lemma preserves_prod [preserves_intros]:
  "(\<And>a b. v = (a, b) \<Longrightarrow> preserves P (m a b)) \<Longrightarrow> preserves P (case v of (a, b) \<Rightarrow> m a b)"
  by (cases v) simp

lemma preserves_run: "preserves P m \<Longrightarrow> P s \<Longrightarrow> m s = (Inr x, s') \<Longrightarrow> P s'"
  by (auto simp: preserves_def)

lemma keeps_preserves: "keeps P m \<Longrightarrow> preserves P m"
  by (fastforce simp: keeps_def preserves_def)

end
