(* ===== verification/Peer_Device.thy ===== *)
theory Peer_Device
  imports Codec_Decode Py_Exec
begin

text \<open>
  The simulated Peer of \<^verbatim>\<open>src/wiretest/peer.py\<close>, class \<open>SimulatedDevice\<close>: its state,
  how it answers ReadProperty and Who-Is, and one turn of its serving thread from the datagram
  that arrived to the datagram it sends. The locale \<open>responder\<close> is what a test relies on of any
  Peer: an answer to a confirmed request carries that request's invoke id.
\<close>

section \<open>State\<close>

record device =
  device_instance :: int
  object_name :: pystr
  vendor_identifier :: int
  received :: "frame list"
  received_on_broadcast :: "frame list"

definition SimulatedDevice :: "int \<Rightarrow> pystr \<Rightarrow> int \<Rightarrow> device" where
  "SimulatedDevice instance_number name vendor = \<lparr>device_instance = instance_number, object_name = name,
     vendor_identifier = vendor, received = [], received_on_broadcast = []\<rparr>"

text \<open>A datagram on the wire: the octets and the address it is sent to.\<close>

type_synonym datagram = "octets \<times> address"

section \<open>Answering\<close>

text \<open>\<open>frame.pdu_type == pdu and frame.service == choice\<close>.\<close>

definition is_service :: "frame \<Rightarrow> int \<Rightarrow> int \<Rightarrow> bool result" where
  "is_service f pdu choice =
     (if pdu_type f = Some pdu then rbind (service f) (\<lambda>s. Inr (s = Some choice)) else Inr False)"

text \<open>The invoke id as the encoders need it.\<close>

definition answered_id :: "frame \<Rightarrow> int result" where
  "answered_id f = rbind (invoke_id f) needed"

definition device_read_property :: "'a device_scheme \<Rightarrow> frame \<Rightarrow> octets option result" where
  "device_read_property d f =
     rbind (parse_read_property_request (payload f)) (\<lambda>request.
     case request of
       None \<Rightarrow> Inr None
     | Some (object_type, instance_number, property_identifier) \<Rightarrow>
         if object_type \<noteq> OBJECT_TYPE_DEVICE \<or> instance_number \<notin> {device_instance d, MAX_INSTANCE} then
           rbind (answered_id f) (\<lambda>iid.
           rbind (error_pdu iid SERVICE_READ_PROPERTY ERROR_CLASS_OBJECT ERROR_CODE_UNKNOWN_OBJECT) (\<lambda>a. Inr (Some a)))
         else if property_identifier \<noteq> PROPERTY_OBJECT_NAME \<and> property_identifier \<noteq> PROPERTY_OBJECT_IDENTIFIER then
           rbind (answered_id f) (\<lambda>iid.
           rbind (error_pdu iid SERVICE_READ_PROPERTY ERROR_CLASS_PROPERTY ERROR_CODE_UNKNOWN_PROPERTY) (\<lambda>a. Inr (Some a)))
         else
           rbind (if property_identifier = PROPERTY_OBJECT_NAME
                  then application_character_string (object_name d)
                  else application_object_id OBJECT_TYPE_DEVICE (device_instance d)) (\<lambda>v.
           rbind (answered_id f) (\<lambda>iid.
           rbind (read_property_ack iid OBJECT_TYPE_DEVICE (device_instance d) property_identifier v) (\<lambda>a. Inr (Some a)))))"

text \<open>The values of the primitives in a Who-Is: its limits.\<close>

definition who_is_limits :: "octets \<Rightarrow> int list result" where
  "who_is_limits octets =
     tag_loop octets (\<lambda>_ t limits.
       Inr (if tag_kind t = Value then limits @ [from_bytes (tag_body t)] else limits)) 0 []"

definition device_who_is :: "'a device_scheme \<Rightarrow> frame \<Rightarrow> octets option result" where
  "device_who_is d f =
     rbind (who_is_limits (drop 2 (payload f))) (\<lambda>limits.
     if length limits = 2 \<and> \<not> (limits ! 0 \<le> device_instance d \<and> device_instance d \<le> limits ! 1)
     then Inr None
     else rbind (i_am (device_instance d) (vendor_identifier d) 1476 3) (\<lambda>a. Inr (Some a)))"

definition device_answer :: "'a device_scheme \<Rightarrow> frame \<Rightarrow> octets option result" where
  "device_answer d f =
     rbind (is_service f PDU_CONFIRMED_REQUEST SERVICE_READ_PROPERTY) (\<lambda>read.
     if read then device_read_property d f
     else
     rbind (is_service f PDU_UNCONFIRMED_REQUEST SERVICE_WHO_IS) (\<lambda>who.
     if who then device_who_is d f else Inr None))"

definition reply :: "frame \<Rightarrow> octets \<Rightarrow> datagram result" where
  "reply request apdu =
     rbind (if snet request \<noteq> None
            then npdu apdu (npdu_defaults\<lparr>arg_dnet := snet request, arg_dadr := sadr request\<rparr>)
            else npdu apdu npdu_defaults) (\<lambda>n.
     rbind (bvlc n False) (\<lambda>octets.
     Inr (octets, frame_source request)))"

text \<open>What \<open>recvfrom(n)\<close> returns of a datagram: a longer one is cut (POSIX).\<close>

definition recvfrom :: "nat \<Rightarrow> octets \<Rightarrow> octets" where
  "recvfrom n data = take n data"

text \<open>
  One turn of \<open>_serve\<close>: the datagram that arrived, from where, and on which socket. The answer
  method is an argument, because the two classes share the loop.
\<close>

definition serve_one ::
  "(frame \<Rightarrow> ('a device_scheme, octets option) exec) \<Rightarrow> octets \<Rightarrow> address \<Rightarrow> bool
    \<Rightarrow> ('a device_scheme, datagram list) exec" where
  "serve_one answer data source on_broadcast =
     ebind (elift (Frame (recvfrom 2048 data) source)) (\<lambda>f.
     ebind (emodify (\<lambda>d. d\<lparr>received := received d @ [f],
       received_on_broadcast := (if on_broadcast then received_on_broadcast d @ [f] else received_on_broadcast d)\<rparr>)) (\<lambda>_.
     if frame_ok f \<and> network_message f = None then
       ebind (answer f) (\<lambda>a.
       case a of None \<Rightarrow> eret [] | Some apdu \<Rightarrow> ebind (elift (reply f apdu)) (\<lambda>sent. eret [sent]))
     else eret []))"

definition device_serve :: "octets \<Rightarrow> address \<Rightarrow> bool \<Rightarrow> ('a device_scheme, datagram list) exec" where
  "device_serve = serve_one (\<lambda>f d. (device_answer d f, d))"

text \<open>\<open>frames()\<close>, \<open>send()\<close> and \<open>simple_acks()\<close>.\<close>

definition frames :: "'a device_scheme \<Rightarrow> frame list" where
  "frames d = received d"

definition device_send :: "octets \<Rightarrow> address \<Rightarrow> datagram result" where
  "device_send apdu target =
     rbind (npdu apdu npdu_defaults) (\<lambda>n. rbind (bvlc n False) (\<lambda>octets. Inr (octets, target)))"

fun simple_acks_of :: "int \<Rightarrow> frame list \<Rightarrow> (int option \<times> address) list result" where
  "simple_acks_of choice [] = Inr []"
| "simple_acks_of choice (f # fs) =
     rbind (if frame_ok f then is_service f PDU_SIMPLE_ACK choice else Inr False) (\<lambda>match.
     rbind (if match then rbind (invoke_id f) (\<lambda>iid. Inr [(iid, frame_source f)]) else Inr []) (\<lambda>h.
     rbind (simple_acks_of choice fs) (\<lambda>t. Inr (h @ t))))"

definition simple_acks :: "int \<Rightarrow> 'a device_scheme \<Rightarrow> (int option \<times> address) list result" where
  "simple_acks choice d = simple_acks_of choice (frames d)"

section \<open>What a confirmed request looks like\<close>

lemma confirmed_frame:
  assumes "payload f = [0, 5, octet_of iid, octet_of srv] @ ps" "network_message f = None"
    and "unsigned8 iid" "unsigned8 srv"
  shows "pdu_type f = Some PDU_CONFIRMED_REQUEST" "invoke_id f = Inr (Some iid)" "service f = Inr (Some srv)"
    and "is_service f PDU_CONFIRMED_REQUEST n = Inr (srv = n)"
proof -
  show t: "pdu_type f = Some PDU_CONFIRMED_REQUEST"
    using assms(1,2) by (simp add: pdu_type_def)
  show "invoke_id f = Inr (Some iid)" and s: "service f = Inr (Some srv)"
    using assms unfolding invoke_id_def service_def t by (auto simp: uint_octet_of)
  show "is_service f PDU_CONFIRMED_REQUEST n = Inr (srv = n)"
    unfolding is_service_def t s by simp
qed

section \<open>What an answer looks like\<close>

text \<open>The PDU types that answer a confirmed request.\<close>

abbreviation (input) RESPONSE_TYPES :: "int set" where
  "RESPONSE_TYPES \<equiv> {PDU_SIMPLE_ACK, PDU_COMPLEX_ACK, PDU_ERROR, PDU_REJECT, PDU_ABORT}"

definition answers :: "int \<Rightarrow> octets \<Rightarrow> bool" where
  "answers iid apdu \<longleftrightarrow> 2 \<le> length apdu \<and> drop_bit 4 (uint (apdu ! 0)) \<in> RESPONSE_TYPES \<and> uint (apdu ! 1) = iid"

named_theorems answers_intros \<open>encoders of answers carry the invoke id\<close>

lemma answers_py_bytes:
  assumes "py_bytes (h # iid # rest) = Inr pre" and "drop_bit 4 h \<in> RESPONSE_TYPES"
  shows "answers iid (pre @ suf)"
  using assms by (auto simp: py_bytes_def answers_def uint_octet_of split: if_splits)

lemma answers_cat:
  assumes "cat (py_bytes (h # iid # rest) # rs) = Inr apdu" and "drop_bit 4 h \<in> RESPONSE_TYPES"
  shows "answers iid apdu"
  using assms answers_py_bytes [of h iid rest] by (auto simp: rbind_eq_Inr)

lemma answers_error_pdu [answers_intros]: "error_pdu iid srv c d = Inr apdu \<Longrightarrow> answers iid apdu"
  unfolding error_pdu_def by (erule answers_cat) (simp add: drop_bit_eq_div)

lemma answers_read_property_ack [answers_intros]: "read_property_ack iid ot i p v = Inr apdu \<Longrightarrow> answers iid apdu"
  unfolding read_property_ack_def by (erule answers_cat) (simp add: drop_bit_eq_div)

lemma answers_read_property_multiple_ack [answers_intros]:
  "read_property_multiple_ack iid rs = Inr apdu \<Longrightarrow> answers iid apdu"
  unfolding read_property_multiple_ack_def
  by (erule rbind_InrE, erule answers_cat) (simp add: push_bit_eq_mult drop_bit_eq_div)

lemma answers_simple_ack [answers_intros]: "simple_ack iid srv = Inr apdu \<Longrightarrow> answers iid apdu"
  using answers_py_bytes [of _ iid "[srv]" apdu "[]"]
  by (simp add: simple_ack_def push_bit_eq_mult drop_bit_eq_div)

lemma answers_reject_pdu [answers_intros]: "reject_pdu iid r = Inr apdu \<Longrightarrow> answers iid apdu"
  using answers_py_bytes [of _ iid "[r]" apdu "[]"]
  by (simp add: reject_pdu_def push_bit_eq_mult drop_bit_eq_div)

lemma answers_abort_pdu [answers_intros]: "abort_pdu iid r srv = Inr apdu \<Longrightarrow> answers iid apdu"
  using answers_py_bytes [of "push_bit 4 PDU_ABORT OR (if srv then 1 else 0)" iid "[r]" apdu "[]"]
  by (auto simp: abort_pdu_def push_bit_eq_mult drop_bit_eq_div)

text \<open>
  The contract of a Peer: it answers a confirmed request, if at all, with an APDU that carries the
  request's invoke id and a PDU type a client waits for.
\<close>

definition carries_id :: "frame \<Rightarrow> octets option \<Rightarrow> bool" where
  "carries_id f a \<longleftrightarrow> (\<forall>apdu iid. a = Some apdu \<and> pdu_type f = Some PDU_CONFIRMED_REQUEST \<and>
     invoke_id f = Inr (Some iid) \<longrightarrow> answers iid apdu)"

lemma carries_id_None [simp]: "carries_id f None"
  by (simp add: carries_id_def)

lemma carries_id_answer:
  assumes "rbind (answered_id f) (\<lambda>iid. rbind (encode iid) (\<lambda>a. Inr (Some a))) = Inr a"
    and "\<And>iid apdu. encode iid = Inr apdu \<Longrightarrow> answers iid apdu"
  shows "carries_id f a"
  using assms by (auto simp: carries_id_def answered_id_def needed_def rbind_eq_Inr split: option.splits)

lemma carries_id_unconfirmed: "pdu_type f \<noteq> Some PDU_CONFIRMED_REQUEST \<Longrightarrow> carries_id f a"
  by (simp add: carries_id_def)

lemma device_read_property_carries: "device_read_property d f = Inr a \<Longrightarrow> carries_id f a"
  unfolding device_read_property_def
  by (erule rbind_InrE)
    (auto split: option.splits if_splits elim!: rbind_InrE [where f = "\<lambda>v. rbind (answered_id f) (k v)" for k]
      intro: carries_id_answer [OF _ answers_error_pdu] carries_id_answer [OF _ answers_read_property_ack])

lemma device_answer_carries: "device_answer d f = Inr a \<Longrightarrow> carries_id f a"
  unfolding device_answer_def is_service_def
  by (auto elim!: rbind_InrE split: if_splits intro: device_read_property_carries carries_id_unconfirmed)

text \<open>A reply reaches the address the request came from, and decodes to the APDU.\<close>

lemma npdu_routed_fits:
  assumes "npdu p (npdu_defaults\<lparr>arg_dnet := net, arg_dadr := adr\<rparr>) = Inr n"
  shows "npdu_fits (npdu_defaults\<lparr>arg_dnet := net, arg_dadr := adr\<rparr>)"
  using assms
  by (auto simp: npdu_def npdu_fits_def npdu_defaults_def pack_H_def pack_B_def rbind_eq_Inr cat_append
      split: option.splits if_splits)

lemma bvll_length: "bvll function body = Inr data \<Longrightarrow> length body < 65532"
  by (auto simp: bvll_def pack_H_def rbind_eq_Inr split: if_splits)

definition reply_args :: "frame \<Rightarrow> npdu_args" where
  "reply_args request = npdu_defaults\<lparr>arg_dnet := snet request,
     arg_dadr := (if snet request = None then [] else sadr request)\<rparr>"

lemma reply_frame:
  assumes "reply request apdu = Inr (octets, target)"
  shows "target = frame_source request"
    and "Frame octets source = Inr (npdu_frame apdu (reply_args request) BVLC_ORIGINAL_UNICAST octets source)"
proof -
  from assms obtain n where n: "npdu apdu (reply_args request) = Inr n" and b: "bvlc n False = Inr octets"
    and t: "target = frame_source request"
    by (cases "snet request") (auto simp: reply_def reply_args_def npdu_defaults_def rbind_eq_Inr)
  show "target = frame_source request" by (rule t)
  have "npdu_fits (reply_args request)"
    using npdu_routed_fits n unfolding reply_args_def by blast
  with n b show "Frame octets source = Inr (npdu_frame apdu (reply_args request) BVLC_ORIGINAL_UNICAST octets source)"
    using Frame_bvll_npdu [of "reply_args request" apdu n BVLC_ORIGINAL_UNICAST octets source]
    by (simp add: bvlc_def bvll_length)
qed

lemma npdu_frame_answer:
  assumes "answers iid apdu" and "arg_network_message a = None"
  shows "pdu_type (npdu_frame apdu a fn data src) \<in> Some ` RESPONSE_TYPES"
    and "invoke_id (npdu_frame apdu a fn data src) = Inr (Some iid)"
proof -
  from assms have "apdu \<noteq> []" "index apdu 1 = Inr (apdu ! 1)" by (auto simp: answers_def index_def)
  with assms show t: "pdu_type (npdu_frame apdu a fn data src) \<in> Some ` RESPONSE_TYPES"
    by (auto simp: answers_def pdu_type_def npdu_frame_def)
  with \<open>index apdu 1 = Inr (apdu ! 1)\<close> assms show "invoke_id (npdu_frame apdu a fn data src) = Inr (Some iid)"
    unfolding invoke_id_def by (simp add: npdu_frame_def answers_def)
qed

text \<open>The predicate of \<open>Client.request\<close>: the frame that answers invoke id \<open>iid\<close>.\<close>

definition is_answer_to :: "int \<Rightarrow> frame \<Rightarrow> bool result" where
  "is_answer_to iid f =
     (if network_message f = None \<and> pdu_type f \<in> Some ` RESPONSE_TYPES
      then rbind (invoke_id f) (\<lambda>i. Inr (i = Some iid)) else Inr False)"

locale responder =
  fixes answer :: "frame \<Rightarrow> ('a device_scheme, octets option) exec"
  assumes answer_carries: "answer f s = (Inr a, s') \<Longrightarrow> carries_id f a"
begin

lemma serve_answers:
  assumes served: "serve_one answer data source b s = (Inr sent, s')" and mem: "(octets, target) \<in> set sent"
    and f: "Frame (recvfrom 2048 data) source = Inr f" "pdu_type f = Some PDU_CONFIRMED_REQUEST" "invoke_id f = Inr (Some iid)"
  shows "target = source \<and> (\<exists>g. Frame octets here = Inr g \<and> frame_ok g \<and> is_answer_to iid g = Inr True \<and>
    dnet g = snet f \<and> (snet f \<noteq> None \<longrightarrow> dadr g = sadr f))"
proof -
  from served f(1) mem obtain apdu t where a: "answer f t = (Inr (Some apdu), s')"
    and r: "reply f apdu = Inr (octets, target)"
    by (auto simp: serve_one_def ebind_lift split: if_splits option.splits sum.splits elim!: ebind_InrE)
  have "answers iid apdu" using answer_carries [OF a] f by (auto simp: carries_id_def)
  with npdu_frame_answer [of iid apdu "reply_args f"] reply_frame(1) [OF r] reply_frame(2) [OF r, of here]
  have "target = frame_source f \<and> (\<exists>g. Frame octets here = Inr g \<and> frame_ok g \<and> is_answer_to iid g = Inr True \<and>
    dnet g = snet f \<and> (snet f \<noteq> None \<longrightarrow> dadr g = sadr f))"
    by (auto simp: is_answer_to_def reply_args_def npdu_frame_def npdu_defaults_def)
  moreover have "frame_source f = source" using Frame_source [OF f(1)] by simp
  ultimately show ?thesis by simp
qed

end

interpretation device_responder: responder "\<lambda>f d. (device_answer d f, d)"
  by unfold_locales (auto dest: device_answer_carries)

text \<open>The limits of a Who-Is.\<close>

lemma who_is_limits_chunks:
  assumes "unsigned32 lo" "unsigned32 hi"
  shows "who_is_limits (ctx_prim 0 (u_octets lo) @ ctx_prim 1 (u_octets hi)) = Inr [lo, hi]"
proof -
  let ?a = "ctx_prim 0 (u_octets lo)" and ?b = "ctx_prim 1 (u_octets hi)"
  let ?step = "\<lambda>_ t limits. Inr (if tag_kind t = Value then limits @ [from_bytes (tag_body t)] else limits)"
  have "tag_loop (?a @ ?b) ?step 0 [] = tag_loop (?a @ ?b) ?step (length ?a) [lo]"
    using tag_loop_at [OF is_tag_unsigned [of 0 lo], of "[]" ?b ?step] assms by simp
  also have "\<dots> = Inr [lo, hi]"
    using tag_loop_at [OF is_tag_unsigned [of 1 hi], of ?a "[]" ?step] tag_loop_end [of "?a @ ?b" ?step] assms by simp
  finally show ?thesis by (simp add: who_is_limits_def)
qed

section \<open>Claims\<close>

text \<open>C27: A device answers a Who-Is with limits exactly when its instance lies between them, and then
  with an I-Am of that instance.\<close>
theorem device_who_is_range:
  assumes "unsigned32 lo" "unsigned32 hi" "0 \<le> device_instance d" "device_instance d \<le> MAX_INSTANCE"
      "unsigned32 (vendor_identifier d)"
    and f: "who_is (Some lo) (Some hi) = Inr (payload f)" "network_message f = None"
  shows "if lo \<le> device_instance d \<and> device_instance d \<le> hi
    then \<exists>apdu. device_answer d f = Inr (Some apdu) \<and> i_am_device_instance apdu = Inr (Some (device_instance d))
    else device_answer d f = Inr None"
proof -
  have p: "payload f = [0x10, 8] @ ctx_prim 0 (u_octets lo) @ ctx_prim 1 (u_octets hi)"
    using f(1) assms(1,2) by (simp add: who_is_def context_unsigned_eq py_bytes_def octet_of_def)
  have t: "pdu_type f = Some PDU_UNCONFIRMED_REQUEST" using f(2) p by (simp add: pdu_type_def drop_bit_eq_div)
  have "device_answer d f = device_who_is d f"
    using t p by (simp add: device_answer_def is_service_def service_def)
  moreover obtain apdu where "i_am (device_instance d) (vendor_identifier d) 1476 3 = Inr apdu"
    "i_am_device_instance apdu = Inr (Some (device_instance d))"
    using i_am_device_instance_roundtrip [of "device_instance d" "vendor_identifier d" 1476 3] assms(3-5) by (auto simp: rbind_eq_Inr)
  ultimately show ?thesis
    using who_is_limits_chunks [OF assms(1,2)] p by (simp add: device_who_is_def)
qed

theorem device_who_is_range_witness:
  "device_answer \<lparr>device_instance = 8001, object_name = [65], vendor_identifier = 389, received = [], received_on_broadcast = []\<rparr>
    (example_frame (who_is (Some 8002) (Some 9000))) = Inr None"
proof -
  have "who_is (Some 8002) (Some 9000) = Inr (payload (example_frame (who_is (Some 8002) (Some 9000))))"
    "network_message (example_frame (who_is (Some 8002) (Some 9000))) = None" by code_simp+
  from device_who_is_range [OF _ _ _ _ _ this, of "\<lparr>device_instance = 8001, object_name = [65], vendor_identifier = 389,
    received = [], received_on_broadcast = []\<rparr>"] show ?thesis by simp
qed

end
