(* ===== verification/Peer_Server.thy ===== *)
theory Peer_Server
  imports Peer_Device
begin

text \<open>
  Class \<open>SimulatedServer\<close> of \<^verbatim>\<open>src/wiretest/peer.py\<close>: a \<open>SimulatedDevice\<close> with
  objects, modes, scripted failures, array elements and 16-slot priority arrays. Its record extends
  the device's, as the class extends the class; its \<open>_answer\<close> runs in the state-and-exception
  style of \<open>Py_Exec\<close>, so that what a raise leaves behind is part of the model. A served value is
  either octets or a callable of the test's own, whose result is part of the value.
\<close>

section \<open>State\<close>

datatype served = Octets octets | Callable "unit \<Rightarrow> octets"

type_synonym properties = "int \<rightharpoonup> served"
type_synonym read_entry = "int \<times> (int \<times> int \<times> int list) list"

record server = device +
  objects :: "object_ref \<rightharpoonup> properties"
  writable :: "(int \<times> int \<times> int) set option"
  mode :: string
  read_requests :: "read_entry list"
  write_requests :: "write_request list"
  requests_while_offline :: nat
  commandable :: "object_ref set option"
  relinquish_defaults :: "object_ref \<rightharpoonup> served"
  priority_arrays :: "object_ref \<rightharpoonup> octets option list"
  array_elements :: bool
  array_reads :: "(int \<times> int \<times> int \<times> int) list"
  failures :: "(object_ref \<times> string) list"
  whole_arrays_refused :: "(int \<times> int \<times> int) set"
  silent_requests :: nat

abbreviation (input) PRIORITY_DEFAULT :: int where "PRIORITY_DEFAULT \<equiv> 16"

text \<open>\<open>__init__\<close>: a commandable object without a Present_Value is a \<open>KeyError\<close>.\<close>

definition commandable_keys :: "object_ref list option \<Rightarrow> object_ref list" where
  "commandable_keys keys = (case keys of None \<Rightarrow> [] | Some ks \<Rightarrow> ks)"

definition present_value_of :: "(object_ref \<rightharpoonup> properties) \<Rightarrow> object_ref \<Rightarrow> served result" where
  "present_value_of objs key = rbind (get_item objs key) (\<lambda>props. get_item props PROPERTY_PRESENT_VALUE)"

definition SimulatedServer ::
  "int \<Rightarrow> pystr \<Rightarrow> int \<Rightarrow> (object_ref \<rightharpoonup> properties) \<Rightarrow> (int \<times> int \<times> int) set option \<Rightarrow>
   object_ref list option \<Rightarrow> bool \<Rightarrow> server result" where
  "SimulatedServer instance_number name vendor objs may_write keys elements =
     rbind (rmap (\<lambda>key. rbind (present_value_of objs key) (\<lambda>v. Inr (key, v))) (commandable_keys keys)) (\<lambda>defaults.
     Inr \<lparr>device_instance = instance_number, object_name = name, vendor_identifier = vendor,
          received = [], received_on_broadcast = [], objects = objs, writable = may_write,
          mode = ''online'', read_requests = [], write_requests = [], requests_while_offline = 0,
          commandable = map_option set keys, relinquish_defaults = map_of defaults,
          priority_arrays = map_of (map (\<lambda>key. (key, replicate 16 None)) (commandable_keys keys)),
          array_elements = elements, array_reads = [], failures = [], whole_arrays_refused = {},
          silent_requests = 0\<rparr>)"

section \<open>Values\<close>

definition call_served :: "served \<Rightarrow> octets" where
  "call_served v = (case v of Octets octets \<Rightarrow> octets | Callable f \<Rightarrow> f ())"

definition server_value :: "server \<Rightarrow> int \<Rightarrow> int \<Rightarrow> int \<Rightarrow> octets option" where
  "server_value s object_type instance_number property_identifier =
     (case objects s (object_type, instance_number) of
        None \<Rightarrow> None
      | Some props \<Rightarrow> map_option call_served (props property_identifier))"

definition reads :: "int \<Rightarrow> server \<Rightarrow> (int \<times> int \<times> int list) list list" where
  "reads choice s = map snd (filter (\<lambda>e. fst e = choice) (read_requests s))"

definition writes_matching :: "int \<Rightarrow> int \<Rightarrow> int \<Rightarrow> server \<Rightarrow> write_request list" where
  "writes_matching object_type instance_number property_identifier s =
     filter (\<lambda>w. (wr_object_type w, wr_instance w, wr_property_identifier w)
                 = (object_type, instance_number, property_identifier)) (write_requests s)"

text \<open>The two methods a test may override; these are the class's own.\<close>

definition check_write :: "write_request \<Rightarrow> (int \<times> int) option" where
  "check_write request = None"

definition on_write :: "write_request \<Rightarrow> (server, unit) exec" where
  "on_write request = eret ()"

text \<open>\<open>announce()\<close>: the same I-Am, as many times as asked for.\<close>

definition announce :: "server \<Rightarrow> address \<Rightarrow> nat \<Rightarrow> datagram list result" where
  "announce s target repeats =
     rbind (i_am (device_instance s) (vendor_identifier s) 1476 3) (\<lambda>apdu.
     rbind (npdu apdu npdu_defaults) (\<lambda>n.
     rbind (bvlc n False) (\<lambda>octets. Inr (replicate repeats (octets, target)))))"

section \<open>Answering\<close>

definition requested_object :: "frame \<Rightarrow> object_ref option result" where
  "requested_object f =
     rbind (service f) (\<lambda>choice.
     if choice = Some SERVICE_READ_PROPERTY then
       rbind (parse_read_property_request (payload f)) (\<lambda>parsed.
       Inr (map_option (\<lambda>(ot, i, _). (ot, i)) parsed))
     else if choice = Some SERVICE_WRITE_PROPERTY then
       rbind (parse_write_property_request (payload f)) (\<lambda>parsed.
       Inr (map_option (\<lambda>r. (wr_object_type r, wr_instance r)) parsed))
     else Inr None)"

text \<open>An answer that is one encoder applied to the frame's invoke id.\<close>

definition answer_with :: "frame \<Rightarrow> (int \<Rightarrow> octets result) \<Rightarrow> ('s, octets option) exec" where
  "answer_with f encode =
     elift (rbind (answered_id f) (\<lambda>iid. rbind (encode iid) (\<lambda>a. Inr (Some a))))"

definition note_read :: "int \<Rightarrow> (int \<times> int \<times> int list) list \<Rightarrow> (server, unit) exec" where
  "note_read choice specifications =
     emodify (\<lambda>s. s\<lparr>read_requests := read_requests s @ [(choice, specifications)]\<rparr>)"

text \<open>The answer about one array element: like \<open>read_property_ack\<close>, with the index.\<close>

definition array_element_ack :: "int \<Rightarrow> int \<Rightarrow> int \<Rightarrow> int \<Rightarrow> int \<Rightarrow> octets \<Rightarrow> octets result" where
  "array_element_ack iid object_type instance_number property_identifier array_index v =
     cat [py_bytes [push_bit 4 PDU_COMPLEX_ACK, iid, SERVICE_READ_PROPERTY],
          context_object_id 0 object_type instance_number, context_unsigned 1 property_identifier,
          context_unsigned 2 array_index, opening_tag 3, Inr v, closing_tag 3]"

definition read_special :: "frame \<Rightarrow> (int \<times> int \<times> int) \<times> int option \<Rightarrow> string option \<Rightarrow> (server, octets option) exec" where
  "read_special f parsed failure =
     (case parsed of ((object_type, instance_number, property_identifier), array_index) \<Rightarrow>
      if failure = Some ''malformed'' then
        ebind (elift application_null) (\<lambda>v.
        answer_with f (\<lambda>iid. read_property_ack iid object_type instance_number property_identifier v))
      else (case array_index of
        None \<Rightarrow>
          ebind (eget (\<lambda>s. (object_type, instance_number, property_identifier) \<in> whole_arrays_refused s)) (\<lambda>refused.
          if refused then
            ebind (note_read SERVICE_READ_PROPERTY [(object_type, instance_number, [property_identifier])]) (\<lambda>_.
            answer_with f (\<lambda>iid. abort_pdu iid ABORT_REASON_SEGMENTATION_NOT_SUPPORTED True))
          else eret None)
      | Some ix \<Rightarrow>
          ebind (eget (\<lambda>s. if array_elements s then server_value s object_type instance_number property_identifier
                           else None)) (\<lambda>served.
          case served of
            None \<Rightarrow> eret None
          | Some v \<Rightarrow>
              ebind (note_read SERVICE_READ_PROPERTY [(object_type, instance_number, [property_identifier])]) (\<lambda>_.
              ebind (emodify (\<lambda>s. s\<lparr>array_reads := array_reads s @ [(object_type, instance_number, property_identifier, ix)]\<rparr>)) (\<lambda>_.
              ebind (elift (application_elements v)) (\<lambda>elements.
              if ix = 0 then
                ebind (elift (application_unsigned (int (length elements)))) (\<lambda>e.
                answer_with f (\<lambda>iid. array_element_ack iid object_type instance_number property_identifier ix e))
              else if ix \<le> int (length elements) then
                answer_with f (\<lambda>iid. array_element_ack iid object_type instance_number property_identifier ix
                  (elements ! nat (ix - 1)))
              else answer_with f (\<lambda>iid. error_pdu iid SERVICE_READ_PROPERTY ERROR_CLASS_PROPERTY
                  ERROR_CODE_INVALID_ARRAY_INDEX)))))))"

definition read_multiple :: "frame \<Rightarrow> (server, octets option) exec" where
  "read_multiple f =
     ebind (elift (read_access_specifications (drop 4 (payload f)))) (\<lambda>specifications.
     ebind (note_read SERVICE_READ_PROPERTY_MULTIPLE (map (\<lambda>((ot, i), ps). (ot, i, ps)) specifications)) (\<lambda>_.
     ebind (eget (\<lambda>s. map (\<lambda>((ot, i), ps). (ot, i, map (\<lambda>p. (p, server_value s ot i p)) ps)) specifications)) (\<lambda>results.
     answer_with f (\<lambda>iid. read_property_multiple_ack iid results))))"

section \<open>Writing\<close>

text \<open>The Present_Value a priority array gives: its first non-NULL slot, else the default.\<close>

definition winning :: "octets option list \<Rightarrow> octets list" where
  "winning slots = List.map_filter (\<lambda>v. v) slots"

definition winning_value :: "octets option list \<Rightarrow> served \<Rightarrow> served" where
  "winning_value slots relinquish_default = (case winning slots of [] \<Rightarrow> relinquish_default | v # _ \<Rightarrow> Octets v)"

definition store_property :: "object_ref \<Rightarrow> int \<Rightarrow> served \<Rightarrow> server \<Rightarrow> server" where
  "store_property key p v s =
     (case objects s key of None \<Rightarrow> s | Some props \<Rightarrow> s\<lparr>objects := (objects s)(key \<mapsto> props(p \<mapsto> v))\<rparr>)"

text \<open>\<open>(request["priority"] or PRIORITY_DEFAULT) - 1\<close>.\<close>

definition slot_index :: "int option \<Rightarrow> nat" where
  "slot_index priority = nat ((case priority of None \<Rightarrow> PRIORITY_DEFAULT | Some p \<Rightarrow> if p = 0 then PRIORITY_DEFAULT else p) - 1)"

text \<open>The commanded branch: fill or relinquish the slot, then serve the winner.\<close>

definition command_slot :: "object_ref \<Rightarrow> write_request \<Rightarrow> bool \<Rightarrow> (server, unit) exec" where
  "command_slot key request is_null =
     ebind (eget (\<lambda>s. get_item (priority_arrays s) key)) (\<lambda>r. ebind (elift r) (\<lambda>slots.
     if slot_index (wr_priority request) < length slots then
       let slots = slots[slot_index (wr_priority request) := (if is_null then None else Some (wr_value_octets request))] in
       ebind (emodify (\<lambda>s. s\<lparr>priority_arrays := (priority_arrays s)(key \<mapsto> slots)\<rparr>)) (\<lambda>_.
       ebind (case winning slots of
                [] \<Rightarrow> ebind (eget (\<lambda>s. get_item (relinquish_defaults s) key)) elift
              | v # _ \<Rightarrow> eret (Octets v)) (\<lambda>v.
       emodify (store_property key (wr_property_identifier request) v)))
     else elift (Inl IndexError)))"

definition refusal_of :: "write_request \<Rightarrow> server \<Rightarrow> (int \<times> int) option" where
  "refusal_of request s =
     (let key = (wr_object_type request, wr_instance request);
          allowed = (case writable s of
             None \<Rightarrow> (case objects s key of None \<Rightarrow> False | Some props \<Rightarrow> props (wr_property_identifier request) \<noteq> None)
           | Some w \<Rightarrow> (wr_object_type request, wr_instance request, wr_property_identifier request) \<in> w) in
      if mode s = ''refusing'' \<or> \<not> allowed then Some (ERROR_CLASS_PROPERTY, ERROR_CODE_WRITE_ACCESS_DENIED)
      else check_write request)"

definition is_commanded :: "write_request \<Rightarrow> server \<Rightarrow> bool" where
  "is_commanded request s =
     (case commandable s of None \<Rightarrow> False
      | Some keys \<Rightarrow> (wr_object_type request, wr_instance request) \<in> keys \<and>
                     wr_property_identifier request = PROPERTY_PRESENT_VALUE)"

text \<open>cl. 19.2.1: a NULL to a property that is not commanded is acknowledged and changes nothing.\<close>

definition null_ignored :: "write_request \<Rightarrow> bool \<Rightarrow> server \<Rightarrow> bool" where
  "null_ignored request is_null s \<longleftrightarrow>
     commandable s \<noteq> None \<and> is_null \<and> \<not> is_commanded request s \<and> mode s = ''online'' \<and>
     (case objects s (wr_object_type request, wr_instance request) of
        None \<Rightarrow> False | Some props \<Rightarrow> props (wr_property_identifier request) \<noteq> None)"

text \<open>An accepted write: store the value and, for a commanded object, arbitrate.\<close>

definition commit_write :: "write_request \<Rightarrow> bool \<Rightarrow> bool \<Rightarrow> (server, unit) exec" where
  "commit_write request commanded is_null =
     (let key = (wr_object_type request, wr_instance request) in
      ebind (emodify (store_property key (wr_property_identifier request) (Octets (wr_value_octets request)))) (\<lambda>_.
      if commanded then command_slot key request is_null else eret ()))"

definition write_property :: "frame \<Rightarrow> write_request option \<Rightarrow> (server, octets option) exec" where
  "write_property f request_option =
     (case request_option of
        None \<Rightarrow> eret None
      | Some request \<Rightarrow>
          let key = (wr_object_type request, wr_instance request) in
          ebind (elift (application_tag (wr_value_octets request))) (\<lambda>tag.
          let is_null = (tag = Some TAG_NULL) in
          ebind (eget (\<lambda>s. (is_commanded request s, null_ignored request is_null s,
                            objects s key = None, refusal_of request s))) (\<lambda>(commanded, ignored, unknown, refusal).
          if ignored then answer_with f (\<lambda>iid. simple_ack iid SERVICE_WRITE_PROPERTY)
          else if unknown then
            answer_with f (\<lambda>iid. error_pdu iid SERVICE_WRITE_PROPERTY ERROR_CLASS_OBJECT ERROR_CODE_UNKNOWN_OBJECT)
          else (case refusal of
            Some (c, d) \<Rightarrow> answer_with f (\<lambda>iid. error_pdu iid SERVICE_WRITE_PROPERTY c d)
          | None \<Rightarrow>
              ebind (commit_write request commanded is_null) (\<lambda>_.
              ebind (on_write request) (\<lambda>_.
              answer_with f (\<lambda>iid. simple_ack iid SERVICE_WRITE_PROPERTY)))))))"

section \<open>The whole of _answer\<close>

text \<open>The scripted failure of the object a confirmed request is about, while online.\<close>

definition failure_of :: "frame \<Rightarrow> (server, string option) exec" where
  "failure_of f =
     ebind (eget (\<lambda>s. (mode s, failures s))) (\<lambda>(m, fails).
     if pdu_type f = Some PDU_CONFIRMED_REQUEST \<and> m = ''online'' \<and> fails \<noteq> [] then
       ebind (elift (requested_object f)) (\<lambda>key.
       eret (case key of None \<Rightarrow> None | Some k \<Rightarrow> map_of fails k))
     else eret None)"

text \<open>A ReadProperty of a listed object.\<close>

definition answer_listed :: "frame \<Rightarrow> (int \<times> int \<times> int) \<times> int option \<Rightarrow> string option \<Rightarrow> (server, octets option) exec" where
  "answer_listed f parsed failure =
     (case parsed of ((object_type, instance_number, property_identifier), array_index) \<Rightarrow>
      ebind (read_special f parsed failure) (\<lambda>special.
      case special of
        Some a \<Rightarrow> eret (Some a)
      | None \<Rightarrow>
          ebind (note_read SERVICE_READ_PROPERTY [(object_type, instance_number, [property_identifier])]) (\<lambda>_.
          ebind (eget (\<lambda>s. server_value s object_type instance_number property_identifier)) (\<lambda>served.
          case served of
            None \<Rightarrow> answer_with f (\<lambda>iid. error_pdu iid SERVICE_READ_PROPERTY ERROR_CLASS_PROPERTY
                      ERROR_CODE_UNKNOWN_PROPERTY)
          | Some v \<Rightarrow> answer_with f (\<lambda>iid. read_property_ack iid object_type instance_number
                      property_identifier v)))))"

definition answer_read :: "frame \<Rightarrow> string option \<Rightarrow> (server, octets option) exec" where
  "answer_read f failure =
     ebind (elift (parse_read_property_request_indexed (payload f))) (\<lambda>parsed.
     ebind (eget (\<lambda>s. case parsed of None \<Rightarrow> False | Some ((ot, i, _), _) \<Rightarrow> objects s (ot, i) \<noteq> None)) (\<lambda>listed.
     case parsed of
       Some request \<Rightarrow>
         if listed then answer_listed f request failure else (\<lambda>s. (device_answer s f, s))
     | None \<Rightarrow> (\<lambda>s. (device_answer s f, s))))"

definition note_write :: "frame \<Rightarrow> bool \<Rightarrow> (server, write_request option) exec" where
  "note_write f writes =
     (if writes then
        ebind (elift (parse_write_property_request (payload f))) (\<lambda>request.
        ebind (case request of None \<Rightarrow> eret ()
               | Some r \<Rightarrow> emodify (\<lambda>s. s\<lparr>write_requests := write_requests s @ [r]\<rparr>)) (\<lambda>_.
        eret request))
      else eret None)"

definition answer_by_mode :: "frame \<Rightarrow> string option \<Rightarrow> (server, octets option) exec" where
  "answer_by_mode f failure =
     ebind (elift (is_service f PDU_CONFIRMED_REQUEST SERVICE_WRITE_PROPERTY)) (\<lambda>writes.
     ebind (note_write f writes) (\<lambda>request.
     ebind (elift (is_service f PDU_CONFIRMED_REQUEST SERVICE_READ_PROPERTY)) (\<lambda>reads.
     ebind (elift (is_service f PDU_CONFIRMED_REQUEST SERVICE_READ_PROPERTY_MULTIPLE)) (\<lambda>multiple.
     ebind (eget mode) (\<lambda>m.
     if m = ''offline'' then
       ebind (if reads \<or> multiple \<or> writes
              then emodify (\<lambda>s. s\<lparr>requests_while_offline := requests_while_offline s + 1\<rparr>) else eret ()) (\<lambda>_.
       eret None)
     else if writes then write_property f request
     else if multiple then read_multiple f
     else if reads then answer_read f failure
     else (\<lambda>s. (device_answer s f, s)))))))"

definition server_answer :: "frame \<Rightarrow> (server, octets option) exec" where
  "server_answer f =
     ebind (failure_of f) (\<lambda>failure.
     if failure = Some ''reject'' then answer_with f (\<lambda>iid. reject_pdu iid REJECT_REASON_UNRECOGNIZED_SERVICE)
     else if failure = Some ''abort'' then
       answer_with f (\<lambda>iid. abort_pdu iid ABORT_REASON_SEGMENTATION_NOT_SUPPORTED True)
     else if failure = Some ''silent'' then
       ebind (emodify (\<lambda>s. s\<lparr>silent_requests := silent_requests s + 1\<rparr>)) (\<lambda>_. eret None)
     else answer_by_mode f failure)"

definition server_serve :: "octets \<Rightarrow> address \<Rightarrow> bool \<Rightarrow> (server, datagram list) exec" where
  "server_serve = serve_one server_answer"

section \<open>Every answer carries the request's invoke id\<close>

lemma answer_with_carries [yields_intros]:
  "(\<And>iid apdu. encode iid = Inr apdu \<Longrightarrow> answers iid apdu) \<Longrightarrow> yields (carries_id f) (answer_with f encode)"
  by (auto simp: yields_def answer_with_def intro: carries_id_answer)

lemma answers_array_element_ack [answers_intros]: "array_element_ack iid ot i p ix v = Inr apdu \<Longrightarrow> answers iid apdu"
  unfolding array_element_ack_def by (erule answers_cat) (simp add: push_bit_eq_mult drop_bit_eq_div)

lemma device_answer_yields [yields_intros]: "yields (carries_id f) (\<lambda>s. (device_answer s f, s))"
  by (auto simp: yields_def dest: device_answer_carries)

lemma yields_prod [yields_intros]:
  "(\<And>a b. v = (a, b) \<Longrightarrow> yields Q (m a b)) \<Longrightarrow> yields Q (case v of (a, b) \<Rightarrow> m a b)"
  by (cases v) simp

lemma read_special_carries: "yields (carries_id f) (read_special f parsed failure)"
  unfolding read_special_def
  by (intro yields_intros) (auto intro: answers_intros)

lemma read_multiple_carries: "yields (carries_id f) (read_multiple f)"
  unfolding read_multiple_def by (intro yields_intros answers_intros)

lemma write_property_carries: "yields (carries_id f) (write_property f request)"
  unfolding write_property_def Let_def
  by (intro yields_intros) (auto intro: answers_intros)

lemma answer_listed_carries: "yields (carries_id f) (answer_listed f parsed failure)"
  unfolding answer_listed_def
  by (intro yields_prod yields_bind_dep [OF read_special_carries] yields_intros) (auto intro: answers_intros)

lemma answer_read_carries: "yields (carries_id f) (answer_read f failure)"
  unfolding answer_read_def by (intro yields_intros answer_listed_carries)

lemma server_answer_carries: "yields (carries_id f) (server_answer f)"
  unfolding server_answer_def answer_by_mode_def
  by (intro yields_intros write_property_carries read_multiple_carries answer_read_carries)
    (auto intro: answers_intros)

interpretation server_responder: responder server_answer
  by unfold_locales (use server_answer_carries in \<open>auto simp: yields_def\<close>)

section \<open>Priority arrays\<close>

text \<open>
  The invariant of commanded objects (cl. 19.2): sixteen slots, and a Present_Value that is the
  first slot in use or, with none in use, the Relinquish_Default.
\<close>

definition commanded_ok :: "server \<Rightarrow> object_ref \<Rightarrow> bool" where
  "commanded_ok s key \<longleftrightarrow>
     (case (objects s key, priority_arrays s key, relinquish_defaults s key) of
        (Some props, Some slots, Some relinquish_default) \<Rightarrow>
          length slots = 16 \<and> props PROPERTY_PRESENT_VALUE = Some (winning_value slots relinquish_default)
      | _ \<Rightarrow> False)"

definition server_ok :: "server \<Rightarrow> bool" where
  "server_ok s \<longleftrightarrow> (\<forall>key \<in> (case commandable s of None \<Rightarrow> {} | Some keys \<Rightarrow> keys). commanded_ok s key)"

lemma server_okE:
  assumes "server_ok s" "commandable s = Some keys" "key \<in> keys"
  obtains props slots d where "objects s key = Some props" "priority_arrays s key = Some slots"
    "relinquish_defaults s key = Some d" "length slots = 16"
    "props PROPERTY_PRESENT_VALUE = Some (winning_value slots d)"
proof -
  have "commanded_ok s key" using assms by (auto simp: server_ok_def)
  then show thesis using that by (auto simp: commanded_ok_def split: option.splits)
qed

lemma rmap_map_of:
  assumes "rmap (\<lambda>key. rbind (g key) (\<lambda>v. Inr (key, v))) keys = Inr defaults" and "key \<in> set keys"
  shows "\<exists>v. g key = Inr v \<and> map_of defaults key = Some v"
  using assms
proof (induction keys arbitrary: defaults)
  case Nil
  then show ?case by simp
next
  case (Cons k keys)
  then obtain v rest where "g k = Inr v" "rmap (\<lambda>key. rbind (g key) (\<lambda>v. Inr (key, v))) keys = Inr rest"
    "defaults = (k, v) # rest"
    by (auto simp: rbind_eq_Inr)
  with Cons show ?case by (cases "key = k") auto
qed

lemma map_of_const: "key \<in> set keys \<Longrightarrow> map_of (map (\<lambda>key. (key, v)) keys) key = Some v"
  by (induction keys) auto

lemma SimulatedServer_ok:
  assumes "SimulatedServer inst name vendor objs w keys el = Inr s"
  shows "server_ok s"
proof -
  from assms obtain defaults where d: "rmap (\<lambda>key. rbind (present_value_of objs key) (\<lambda>v. Inr (key, v)))
      (commandable_keys keys) = Inr defaults"
    and s: "objects s = objs" "commandable s = map_option set keys" "relinquish_defaults s = map_of defaults"
      "priority_arrays s = map_of (map (\<lambda>key. (key, replicate 16 None)) (commandable_keys keys))"
    by (auto simp: SimulatedServer_def rbind_eq_Inr)
  have "commanded_ok s key" if "key \<in> set (commandable_keys keys)" for key
    using rmap_map_of [OF d that] map_of_const [OF that, of "replicate 16 None :: octets option list"]
    by (auto simp: commanded_ok_def s present_value_of_def get_item_def winning_value_def winning_def
        map_filter_def rbind_eq_Inr split: option.splits)
  then show ?thesis
    by (auto simp: server_ok_def s commandable_keys_def split: option.splits)
qed

text \<open>Operations that do not touch what is served.\<close>

definition same_service :: "server \<Rightarrow> server \<Rightarrow> bool" where
  "same_service s t \<longleftrightarrow> objects t = objects s \<and> writable t = writable s \<and> mode t = mode s \<and>
     commandable t = commandable s \<and> relinquish_defaults t = relinquish_defaults s \<and>
     priority_arrays t = priority_arrays s"

lemma server_ok_same: "same_service s t \<Longrightarrow> server_ok s \<Longrightarrow> server_ok t"
  by (simp add: same_service_def server_ok_def commanded_ok_def cong: option.case_cong)

lemma answer_with_keeps [keeps_intros]: "keeps P (answer_with f encode)"
  by (simp add: answer_with_def keeps_def)

lemma device_answer_keeps [keeps_intros]: "keeps P (\<lambda>s. (device_answer s f, s))"
  by (simp add: keeps_def)

lemma note_read_keeps [keeps_intros]: "keeps (same_service s) (note_read choice specs)"
  by (simp add: note_read_def keeps_def same_service_def)

lemma read_special_keeps [keeps_intros]: "keeps (same_service s) (read_special f parsed failure)"
  unfolding read_special_def by (intro keeps_intros) (simp_all add: same_service_def)

lemma read_multiple_keeps [keeps_intros]: "keeps (same_service s) (read_multiple f)"
  unfolding read_multiple_def by (intro keeps_intros)

lemma answer_listed_keeps [keeps_intros]: "keeps (same_service s) (answer_listed f parsed failure)"
  unfolding answer_listed_def by (intro keeps_intros)

lemma answer_read_keeps [keeps_intros]: "keeps (same_service s) (answer_read f failure)"
  unfolding answer_read_def by (intro keeps_intros)

lemma note_write_keeps [keeps_intros]: "keeps (same_service s) (note_write f w)"
  unfolding note_write_def by (intro keeps_intros) (simp_all add: same_service_def)

lemma failure_of_keeps [keeps_intros]: "keeps P (failure_of f)"
  unfolding failure_of_def by (intro keeps_intros)

text \<open>Storing a property, and commanding a slot.\<close>

lemma store_property_plain:
  assumes "server_ok s" and "\<not> (\<exists>keys. commandable s = Some keys \<and> key \<in> keys \<and> p = PROPERTY_PRESENT_VALUE)"
  shows "server_ok (store_property key p v s)"
  using assms
  by (auto simp: server_ok_def commanded_ok_def store_property_def split: option.splits)

definition commanded_slots :: "octets option list \<Rightarrow> write_request \<Rightarrow> bool \<Rightarrow> octets option list" where
  "commanded_slots slots request is_null =
     slots[slot_index (wr_priority request) := (if is_null then None else Some (wr_value_octets request))]"

lemma command_slot_eq:
  assumes "objects s key = Some props" "priority_arrays s key = Some slots" "relinquish_defaults s key = Some d"
    and "slot_index (wr_priority request) < length slots"
  shows "command_slot key request is_null s = (Inr (), s\<lparr>
    priority_arrays := (priority_arrays s)(key \<mapsto> commanded_slots slots request is_null),
    objects := (objects s)(key \<mapsto> props(wr_property_identifier request \<mapsto>
      winning_value (commanded_slots slots request is_null) d))\<rparr>)"
  using assms
  by (cases "winning (commanded_slots slots request is_null)")
    (simp_all add: command_slot_def commanded_slots_def get_item_def Let_def ebind_lift winning_value_def
      store_property_def)

lemma command_slot_out_of_range:
  assumes "priority_arrays s key = Some slots" "length slots \<le> slot_index (wr_priority request)"
  shows "command_slot key request is_null s = (Inl IndexError, s)"
  using assms by (simp add: command_slot_def get_item_def)

text \<open>A committed write in one equation, for a commanded object and for any other.\<close>

lemma commit_write_plain:
  "objects s (wr_object_type r, wr_instance r) = Some props \<Longrightarrow>
   commit_write r False n s = (Inr (), s\<lparr>objects := (objects s)((wr_object_type r, wr_instance r) \<mapsto>
     props(wr_property_identifier r \<mapsto> Octets (wr_value_octets r)))\<rparr>)"
  by (simp add: commit_write_def store_property_def)

lemma commit_write_commanded:
  assumes "objects s (wr_object_type r, wr_instance r) = Some props"
    "priority_arrays s (wr_object_type r, wr_instance r) = Some slots"
    "relinquish_defaults s (wr_object_type r, wr_instance r) = Some d"
    and "slot_index (wr_priority r) < length slots"
  shows "commit_write r True n s = (Inr (), s\<lparr>
    priority_arrays := (priority_arrays s)((wr_object_type r, wr_instance r) \<mapsto> commanded_slots slots r n),
    objects := (objects s)((wr_object_type r, wr_instance r) \<mapsto>
      props(wr_property_identifier r \<mapsto> winning_value (commanded_slots slots r n) d))\<rparr>)"
proof -
  let ?key = "(wr_object_type r, wr_instance r)"
  let ?props = "props(wr_property_identifier r \<mapsto> Octets (wr_value_octets r))"
  have "commit_write r True n s = command_slot ?key r n (s\<lparr>objects := (objects s)(?key \<mapsto> ?props)\<rparr>)"
    using assms(1) by (simp add: commit_write_def store_property_def Let_def)
  then show ?thesis
    using assms command_slot_eq [of "s\<lparr>objects := (objects s)(?key \<mapsto> ?props)\<rparr>" ?key ?props slots d r n] by simp
qed

lemma commit_write_ok:
  assumes "server_ok s" and "objects s (wr_object_type r, wr_instance r) \<noteq> None"
    and "commit_write r (is_commanded r s) n s = (Inr u, s')"
  shows "server_ok s'"
proof (cases "is_commanded r s")
  case False
  have "\<not> (\<exists>keys. commandable s = Some keys \<and> (wr_object_type r, wr_instance r) \<in> keys \<and>
      wr_property_identifier r = PROPERTY_PRESENT_VALUE)"
    using False by (auto simp: is_commanded_def)
  from store_property_plain [OF assms(1) this] False assms(3) show ?thesis
    by (auto simp: commit_write_def)
next
  case True
  let ?key = "(wr_object_type r, wr_instance r)"
  from True obtain keys where keys: "commandable s = Some keys" "?key \<in> keys"
    and p: "wr_property_identifier r = PROPERTY_PRESENT_VALUE"
    by (auto simp: is_commanded_def split: option.splits)
  from server_okE [OF assms(1) keys] obtain props slots d where k: "objects s ?key = Some props"
      "priority_arrays s ?key = Some slots" "relinquish_defaults s ?key = Some d" "length slots = 16" by metis
  show ?thesis
  proof (cases "slot_index (wr_priority r) < length slots")
    case in_range: True
    have "s' = s\<lparr>priority_arrays := (priority_arrays s)(?key \<mapsto> commanded_slots slots r n),
        objects := (objects s)(?key \<mapsto> props(wr_property_identifier r \<mapsto> winning_value (commanded_slots slots r n) d))\<rparr>"
      using commit_write_commanded [OF k(1-3) in_range] assms(3) True by simp
    with assms(1) keys k p show ?thesis
      by (auto simp: server_ok_def commanded_ok_def commanded_slots_def)
  next
    case False
    have "commit_write r True n s = (Inl IndexError, store_property ?key (wr_property_identifier r) (Octets (wr_value_octets r)) s)"
      using command_slot_out_of_range [of "store_property ?key (wr_property_identifier r) (Octets (wr_value_octets r)) s"] False k
      by (simp add: commit_write_def store_property_def Let_def)
    with assms(3) True show ?thesis by simp
  qed
qed

lemma server_ok_other_fields [simp]:
  "server_ok (s\<lparr>requests_while_offline := n\<rparr>) = server_ok s"
  "server_ok (s\<lparr>silent_requests := n\<rparr>) = server_ok s"
  "server_ok (s\<lparr>mode := m\<rparr>) = server_ok s"
  "server_ok (s\<lparr>failures := fs\<rparr>) = server_ok s"
  "server_ok (s\<lparr>whole_arrays_refused := w\<rparr>) = server_ok s"
  "server_ok (s\<lparr>received := r, received_on_broadcast := b\<rparr>) = server_ok s"
  by (simp_all add: server_ok_def commanded_ok_def)

lemma write_property_ok: "preserves server_ok (write_property f request)"
proof (cases request)
  case None
  then show ?thesis by (simp add: write_property_def preserves_def)
next
  case (Some r)
  have aw: "snd (answer_with f e t) = t" for e and t :: server by (simp add: answer_with_def)
  show ?thesis
    unfolding preserves_def
  proof (intro allI impI)
    fix s a s'
    assume ok: "server_ok s" and w: "write_property f request s = (Inr a, s')"
    from w Some obtain tag where tag: "application_tag (wr_value_octets r) = Inr tag"
      by (auto simp: write_property_def Let_def ebind_lift split: sum.splits)
    let ?n = "tag = Some TAG_NULL" and ?key = "(wr_object_type r, wr_instance r)"
    show "server_ok s'"
    proof (cases "null_ignored r ?n s \<or> objects s ?key = None \<or> refusal_of r s \<noteq> None")
      case True
      with w Some tag have "s' = s"
        by (auto simp: write_property_def Let_def ebind_lift answer_with_def split: if_splits option.splits)
      with ok show ?thesis by simp
    next
      case False
      then have "refusal_of r s = None" by blast
      with False w Some tag obtain t where "commit_write r (is_commanded r s) ?n s = (Inr (), t)" "s' = t"
        by (auto simp: write_property_def Let_def ebind_lift on_write_def answer_with_def elim!: ebind_InrE)
      with commit_write_ok [OF ok] False show ?thesis by blast
    qed
  qed
qed

lemma same_service_refl [simp]: "same_service s s"
  by (simp add: same_service_def)

lemma keeps_same_preserves: "(\<And>s. keeps (same_service s) m) \<Longrightarrow> preserves server_ok m"
  unfolding preserves_def keeps_def by (metis same_service_refl server_ok_same snd_conv)

lemma server_answer_ok: "preserves server_ok (server_answer f)"
proof -
  note same = keeps_same_preserves [OF note_write_keeps] keeps_same_preserves [OF read_multiple_keeps]
    keeps_same_preserves [OF answer_read_keeps] keeps_preserves [OF failure_of_keeps]
    keeps_preserves [OF answer_with_keeps] keeps_preserves [OF device_answer_keeps]
  show ?thesis
    unfolding server_answer_def answer_by_mode_def
    by (intro preserves_intros same write_property_ok) simp_all
qed

lemma server_serve_ok: "preserves server_ok (server_serve data source b)"
  unfolding server_serve_def serve_one_def
  by (intro preserves_intros server_answer_ok) simp

section \<open>What the server answers\<close>

text \<open>The frame a ReadProperty or WriteProperty request arrives as.\<close>

definition read_frame :: "frame \<Rightarrow> int \<Rightarrow> int \<Rightarrow> int \<Rightarrow> int \<Rightarrow> int option \<Rightarrow> bool" where
  "read_frame f iid ot i p ix \<longleftrightarrow> network_message f = None \<and> unsigned8 iid \<and> object_range ot i \<and> unsigned32 p \<and>
     unsigned32_option ix \<and> read_property_request iid ot i p ix = Inr (payload f)"

definition write_frame :: "frame \<Rightarrow> int \<Rightarrow> write_request \<Rightarrow> bool" where
  "write_frame f iid r \<longleftrightarrow> network_message f = None \<and> unsigned8 iid \<and>
     object_range (wr_object_type r) (wr_instance r) \<and> unsigned32 (wr_property_identifier r) \<and>
     unsigned32_option (wr_priority r) \<and> unsigned32_option (wr_array_index r) \<and> balanced (wr_value_octets r) \<and>
     write_property_request iid (wr_object_type r) (wr_instance r) (wr_property_identifier r)
       (wr_value_octets r) (wr_priority r) (wr_array_index r) = Inr (payload f)"

lemma read_frame_facts:
  assumes "read_frame f iid ot i p ix"
  shows "pdu_type f = Some PDU_CONFIRMED_REQUEST" "answered_id f = Inr iid"
    "is_service f PDU_CONFIRMED_REQUEST n = Inr (n = SERVICE_READ_PROPERTY)"
    "parse_read_property_request_indexed (payload f) = Inr (Some ((ot, i, p), ix))"
    "requested_object f = Inr (Some (ot, i))"
proof -
  have a: "unsigned8 iid" "object_range ot i" "unsigned32 p" "unsigned32_option ix" "network_message f = None"
    and r: "read_property_request iid ot i p ix = Inr (payload f)"
    using assms by (auto simp: read_frame_def)
  have pl: "payload f = [0, 5, octet_of iid, octet_of 12] @ property_head ot i p @ optional_unsigned 2 ix"
    using r read_property_request_eq [OF a(1-4)] by (simp add: octet_of_def)
  note c = confirmed_frame [OF pl a(5,1)]
  show "pdu_type f = Some PDU_CONFIRMED_REQUEST" "answered_id f = Inr iid"
    "is_service f PDU_CONFIRMED_REQUEST n = Inr (n = SERVICE_READ_PROPERTY)"
    using c by (auto simp: answered_id_def needed_def)
  show "parse_read_property_request_indexed (payload f) = Inr (Some ((ot, i, p), ix))"
    using parse_read_property_request_roundtrip [OF a(1-4)] r by simp
  show "requested_object f = Inr (Some (ot, i))"
    using parse_read_property_request_drops_index [OF a(1-4)] r c by (simp add: requested_object_def)
qed

lemma write_frame_facts:
  assumes "write_frame f iid r"
  shows "pdu_type f = Some PDU_CONFIRMED_REQUEST" "answered_id f = Inr iid"
    "is_service f PDU_CONFIRMED_REQUEST n = Inr (n = SERVICE_WRITE_PROPERTY)"
    "parse_write_property_request (payload f) = Inr (Some r)"
    "requested_object f = Inr (Some (wr_object_type r, wr_instance r))"
proof -
  have a: "unsigned8 iid" "object_range (wr_object_type r) (wr_instance r)" "unsigned32 (wr_property_identifier r)"
      "unsigned32_option (wr_priority r)" "unsigned32_option (wr_array_index r)" "balanced (wr_value_octets r)"
    and n: "network_message f = None"
    and w: "write_property_request iid (wr_object_type r) (wr_instance r) (wr_property_identifier r)
       (wr_value_octets r) (wr_priority r) (wr_array_index r) = Inr (payload f)"
    using assms by (auto simp: write_frame_def)
  have pl: "payload f = [0, 5, octet_of iid, octet_of 15] @
      property_head (wr_object_type r) (wr_instance r) (wr_property_identifier r) @
      optional_unsigned 2 (wr_array_index r) @ enclosed 3 (wr_value_octets r) @ optional_unsigned 4 (wr_priority r)"
    using w write_property_request_eq [OF a(1-5), of "wr_value_octets r"] by (simp add: octet_of_def)
  note c = confirmed_frame [OF pl n a(1)]
  show "pdu_type f = Some PDU_CONFIRMED_REQUEST" "answered_id f = Inr iid"
    "is_service f PDU_CONFIRMED_REQUEST n = Inr (n = SERVICE_WRITE_PROPERTY)" for n
    using c by (auto simp: answered_id_def needed_def)
  show p: "parse_write_property_request (payload f) = Inr (Some r)"
    using parse_write_property_request_roundtrip [OF a] w by simp
  show "requested_object f = Inr (Some (wr_object_type r, wr_instance r))"
    using p c by (simp add: requested_object_def)
qed

lemma failure_of_none: "failures s = [] \<or> mode s \<noteq> ''online'' \<Longrightarrow> failure_of f s = (Inr None, s)"
  by (auto simp: failure_of_def)

text \<open>ReadProperty of a listed property, without an index: the value, as a ComplexACK.\<close>

lemma server_answer_read:
  assumes f: "read_frame f iid ot i p None" and "failures s = []" "mode s \<noteq> ''offline''"
    and "objects s (ot, i) = Some props" "(ot, i, p) \<notin> whole_arrays_refused s"
  defines "t \<equiv> s\<lparr>read_requests := read_requests s @ [(SERVICE_READ_PROPERTY, [(ot, i, [p])])]\<rparr>"
  shows "props p = Some v \<Longrightarrow>
      server_answer f s = (rbind (read_property_ack iid ot i p (call_served v)) (\<lambda>a. Inr (Some a)), t)"
    and "props p = None \<Longrightarrow> server_answer f s = (rbind (error_pdu iid SERVICE_READ_PROPERTY ERROR_CLASS_PROPERTY
      ERROR_CODE_UNKNOWN_PROPERTY) (\<lambda>a. Inr (Some a)), t)"
  using assms(2-5) read_frame_facts [OF f]
  by (simp_all add: server_answer_def failure_of_none answer_by_mode_def note_write_def answer_read_def
      answer_listed_def read_special_def note_read_def server_value_def answer_with_def t_def)

text \<open>
  WriteProperty: no scripted failure answers for the object, because the server is not online or none
  of the three that do is scripted.
\<close>

definition no_failure :: "object_ref \<Rightarrow> server \<Rightarrow> bool" where
  "no_failure key s \<longleftrightarrow> mode s \<noteq> ''online'' \<or>
     map_of (failures s) key \<notin> {Some ''reject'', Some ''abort'', Some ''silent''}"

lemma server_answer_write_unless:
  assumes f: "write_frame f iid r" and "no_failure (wr_object_type r, wr_instance r) s" "mode s \<noteq> ''offline''"
  shows "server_answer f s = write_property f (Some r) (s\<lparr>write_requests := write_requests s @ [r]\<rparr>)"
proof -
  note facts = write_frame_facts [OF f]
  define failure where "failure = (if mode s = ''online'' then map_of (failures s) (wr_object_type r, wr_instance r) else None)"
  have "failure_of f s = (Inr failure, s)" using facts by (cases "failures s") (simp_all add: failure_of_def failure_def ebind_lift)
  moreover have "failure \<notin> {Some ''reject'', Some ''abort'', Some ''silent''}"
    using assms(2) by (auto simp: no_failure_def failure_def)
  ultimately show ?thesis using assms(3) facts
    by (simp add: server_answer_def answer_by_mode_def note_write_def)
qed

lemma server_answer_write:
  assumes f: "write_frame f iid r" and "failures s = []" "mode s \<noteq> ''offline''"
  shows "server_answer f s = write_property f (Some r) (s\<lparr>write_requests := write_requests s @ [r]\<rparr>)"
  by (rule server_answer_write_unless [OF f _ assms(3)]) (simp add: no_failure_def assms(2))

lemma noted_write_fields [simp]:
  "refusal_of r (s\<lparr>write_requests := w\<rparr>) = refusal_of r s"
  "is_commanded r (s\<lparr>write_requests := w\<rparr>) = is_commanded r s"
  "null_ignored r n (s\<lparr>write_requests := w\<rparr>) = null_ignored r n s"
  by (simp_all add: refusal_of_def is_commanded_def null_ignored_def Let_def cong: option.case_cong)

abbreviation (input) write_key :: "write_request \<Rightarrow> object_ref" where
  "write_key r \<equiv> (wr_object_type r, wr_instance r)"

lemma write_property_cases:
  assumes f: "write_frame f iid r" and tag: "application_tag (wr_value_octets r) = Inr tag"
  shows "null_ignored r (tag = Some TAG_NULL) s \<Longrightarrow>
      write_property f (Some r) s = (Inr (Some [0x20, octet_of iid, 15]), s)"
    and "\<not> null_ignored r (tag = Some TAG_NULL) s \<Longrightarrow> objects s (write_key r) = None \<Longrightarrow>
      write_property f (Some r) s = (rbind (error_pdu iid SERVICE_WRITE_PROPERTY ERROR_CLASS_OBJECT
        ERROR_CODE_UNKNOWN_OBJECT) (\<lambda>a. Inr (Some a)), s)"
    and "\<not> null_ignored r (tag = Some TAG_NULL) s \<Longrightarrow> objects s (write_key r) \<noteq> None \<Longrightarrow> refusal_of r s = Some (c, d) \<Longrightarrow>
      write_property f (Some r) s = (rbind (error_pdu iid SERVICE_WRITE_PROPERTY c d) (\<lambda>a. Inr (Some a)), s)"
    and "\<not> null_ignored r (tag = Some TAG_NULL) s \<Longrightarrow> objects s (write_key r) \<noteq> None \<Longrightarrow> refusal_of r s = None \<Longrightarrow>
      commit_write r (is_commanded r s) (tag = Some TAG_NULL) s = (Inr (), s') \<Longrightarrow>
      write_property f (Some r) s = (Inr (Some [0x20, octet_of iid, 15]), s')"
proof -
  have iid: "unsigned8 iid" using f by (simp add: write_frame_def)
  note w = write_frame_facts(2) [OF f] simple_ack_eq [OF iid, of 15] tag
  show "null_ignored r (tag = Some TAG_NULL) s \<Longrightarrow>
      write_property f (Some r) s = (Inr (Some [0x20, octet_of iid, 15]), s)"
    using w by (simp add: write_property_def Let_def answer_with_def octet_of_def)
  show "\<not> null_ignored r (tag = Some TAG_NULL) s \<Longrightarrow> objects s (write_key r) = None \<Longrightarrow>
      write_property f (Some r) s = (rbind (error_pdu iid SERVICE_WRITE_PROPERTY ERROR_CLASS_OBJECT
        ERROR_CODE_UNKNOWN_OBJECT) (\<lambda>a. Inr (Some a)), s)"
    using w by (simp add: write_property_def Let_def answer_with_def)
  show "\<not> null_ignored r (tag = Some TAG_NULL) s \<Longrightarrow> objects s (write_key r) \<noteq> None \<Longrightarrow> refusal_of r s = Some (c, d) \<Longrightarrow>
      write_property f (Some r) s = (rbind (error_pdu iid SERVICE_WRITE_PROPERTY c d) (\<lambda>a. Inr (Some a)), s)"
    using w by (auto simp: write_property_def Let_def answer_with_def)
  show "\<not> null_ignored r (tag = Some TAG_NULL) s \<Longrightarrow> objects s (write_key r) \<noteq> None \<Longrightarrow> refusal_of r s = None \<Longrightarrow>
      commit_write r (is_commanded r s) (tag = Some TAG_NULL) s = (Inr (), s') \<Longrightarrow>
      write_property f (Some r) s = (Inr (Some [0x20, octet_of iid, 15]), s')"
    using w by (auto simp: write_property_def Let_def answer_with_def on_write_def octet_of_def)
qed

text \<open>Offline, nothing is answered and nothing is changed but the counters and the log of writes.\<close>

lemma answer_by_mode_offline:
  assumes "mode s = ''offline''" and "answer_by_mode f failure s = (Inr a, s')"
  shows "a = None \<and> same_service s s'"
proof -
  from assms(2) obtain w req t m where w: "is_service f PDU_CONFIRMED_REQUEST SERVICE_WRITE_PROPERTY = Inr w"
    and n: "note_write f w s = (Inr req, t)"
    and rest: "ebind (elift (is_service f PDU_CONFIRMED_REQUEST SERVICE_READ_PROPERTY)) m t = (Inr a, s')"
    unfolding answer_by_mode_def by (elim ebind_InrE) (auto intro: that)
  have same: "same_service s t"
    using keeps_run [OF note_write_keeps, of s s f w] n by simp
  with assms have "mode t = ''offline''" by (simp add: same_service_def)
  with assms(2) w n have "a = None \<and> same_service t s'"
    unfolding answer_by_mode_def
    by (auto simp: same_service_def elim!: ebind_InrE split: if_splits)
  with same show ?thesis by (auto simp: same_service_def)
qed

lemma server_answer_offline:
  assumes "mode s = ''offline''" and "server_answer f s = (Inr a, s')"
  shows "a = None \<and> same_service s s'"
  using assms answer_by_mode_offline [OF assms(1)] by (simp add: server_answer_def failure_of_none)

text \<open>An array element read with an index.\<close>

lemma server_answer_element:
  assumes f: "read_frame f iid ot i p (Some ix)" and "failures s = []" "mode s \<noteq> ''offline''"
    and "array_elements s" "server_value s ot i p = Some v" "application_elements v = Inr es"
  defines "t \<equiv> s\<lparr>read_requests := read_requests s @ [(SERVICE_READ_PROPERTY, [(ot, i, [p])])],
      array_reads := array_reads s @ [(ot, i, p, ix)]\<rparr>"
  shows "ix = 0 \<Longrightarrow> application_unsigned (int (length es)) = Inr e \<Longrightarrow> array_element_ack iid ot i p 0 e = Inr a \<Longrightarrow>
      server_answer f s = (Inr (Some a), t)"
    and "0 < ix \<Longrightarrow> ix \<le> int (length es) \<Longrightarrow> array_element_ack iid ot i p ix (es ! nat (ix - 1)) = Inr a \<Longrightarrow>
      server_answer f s = (Inr (Some a), t)"
    and "int (length es) < ix \<Longrightarrow> error_pdu iid SERVICE_READ_PROPERTY ERROR_CLASS_PROPERTY
      ERROR_CODE_INVALID_ARRAY_INDEX = Inr a \<Longrightarrow> server_answer f s = (Inr (Some a), t)"
proof -
  have o: "objects s (ot, i) \<noteq> None" using assms(5) by (auto simp: server_value_def split: option.splits)
  have answer: "server_answer f s = (Inr (Some a), t)"
    if "read_special f ((ot, i, p), Some ix) None s = (Inr (Some a), t)" for a
    using assms(2,3) o read_frame_facts [OF f] that
    by (simp add: server_answer_def failure_of_none answer_by_mode_def note_write_def answer_read_def answer_listed_def)
  note e = read_special_def note_read_def answer_with_def t_def read_frame_facts(2) [OF f] assms(4-6)
  show "ix = 0 \<Longrightarrow> application_unsigned (int (length es)) = Inr e \<Longrightarrow> array_element_ack iid ot i p 0 e = Inr a \<Longrightarrow>
      server_answer f s = (Inr (Some a), t)"
    by (rule answer) (simp add: e)
  show "0 < ix \<Longrightarrow> ix \<le> int (length es) \<Longrightarrow> array_element_ack iid ot i p ix (es ! nat (ix - 1)) = Inr a \<Longrightarrow>
      server_answer f s = (Inr (Some a), t)"
    by (rule answer) (simp add: e)
  show "int (length es) < ix \<Longrightarrow> error_pdu iid SERVICE_READ_PROPERTY ERROR_CLASS_PROPERTY
      ERROR_CODE_INVALID_ARRAY_INDEX = Inr a \<Longrightarrow> server_answer f s = (Inr (Some a), t)"
    by (rule answer) (simp add: e)
qed

section \<open>The effect of an accepted write\<close>

text \<open>
  What \<open>_write\<close> promises, without its order of assignments: a property that is not commanded
  takes the value; a commanded object takes it in the slot of its priority (or empties the slot, for
  a NULL) and serves the winner. \<open>commit_write_effect\<close> is the refinement.
\<close>

definition write_effect :: "write_request \<Rightarrow> bool \<Rightarrow> server \<Rightarrow> server" where
  "write_effect r is_null s =
     (case objects s (write_key r) of
        None \<Rightarrow> s
      | Some props \<Rightarrow>
          if is_commanded r s then
            (case (priority_arrays s (write_key r), relinquish_defaults s (write_key r)) of
               (Some slots, Some d) \<Rightarrow> s\<lparr>
                 priority_arrays := (priority_arrays s)(write_key r \<mapsto> commanded_slots slots r is_null),
                 objects := (objects s)(write_key r \<mapsto>
                   props(PROPERTY_PRESENT_VALUE \<mapsto> winning_value (commanded_slots slots r is_null) d))\<rparr>
             | _ \<Rightarrow> s)
          else s\<lparr>objects := (objects s)(write_key r \<mapsto>
                   props(wr_property_identifier r \<mapsto> Octets (wr_value_octets r)))\<rparr>)"

definition priority_fits :: "int option \<Rightarrow> bool" where
  "priority_fits p = (case p of None \<Rightarrow> True | Some x \<Rightarrow> 0 \<le> x \<and> x \<le> 16)"

lemma slot_index_less: "priority_fits p \<Longrightarrow> slot_index p < 16"
  by (auto simp: priority_fits_def slot_index_def split: option.splits)

lemma is_commandedE:
  assumes "server_ok s" "is_commanded r s"
  obtains props slots d where "objects s (write_key r) = Some props" "priority_arrays s (write_key r) = Some slots"
    "relinquish_defaults s (write_key r) = Some d" "length slots = 16"
    "props PROPERTY_PRESENT_VALUE = Some (winning_value slots d)" "wr_property_identifier r = PROPERTY_PRESENT_VALUE"
proof -
  from assms(2) obtain keys where "commandable s = Some keys" "write_key r \<in> keys"
    and p: "wr_property_identifier r = PROPERTY_PRESENT_VALUE"
    by (auto simp: is_commanded_def split: option.splits)
  from server_okE [OF assms(1) this(1,2)] p that show thesis by metis
qed

lemma commit_write_effect:
  assumes "server_ok s" "objects s (write_key r) \<noteq> None" "priority_fits (wr_priority r)"
  shows "commit_write r (is_commanded r s) n s = (Inr (), write_effect r n s)"
proof (cases "is_commanded r s")
  case False
  with assms(2) commit_write_plain [of s r] show ?thesis by (auto simp: write_effect_def)
next
  case True
  from is_commandedE [OF assms(1) True] obtain props slots d where k: "objects s (write_key r) = Some props"
    "priority_arrays s (write_key r) = Some slots" "relinquish_defaults s (write_key r) = Some d" "length slots = 16"
    and p: "wr_property_identifier r = PROPERTY_PRESENT_VALUE" by metis
  from commit_write_commanded [OF k(1-3), of n] slot_index_less [OF assms(3)] k p True show ?thesis
    by (simp add: write_effect_def)
qed

lemma noted_frame_fields [simp]:
  "refusal_of r (s\<lparr>received := w\<rparr>) = refusal_of r s"
  "is_commanded r (s\<lparr>received := w\<rparr>) = is_commanded r s"
  "null_ignored r n (s\<lparr>received := w\<rparr>) = null_ignored r n s"
  by (simp_all add: refusal_of_def is_commanded_def null_ignored_def Let_def cong: option.case_cong)

lemma write_effect_noted [simp]:
  "write_effect r n (s\<lparr>received := a\<rparr>) = (write_effect r n s)\<lparr>received := a\<rparr>"
  "write_effect r n (s\<lparr>write_requests := b\<rparr>) = (write_effect r n s)\<lparr>write_requests := b\<rparr>"
  by (auto simp: write_effect_def is_commanded_def split: option.splits)

lemma server_ok_noted [simp]:
  "server_ok (s\<lparr>received := a\<rparr>) = server_ok s" "server_ok (s\<lparr>write_requests := b\<rparr>) = server_ok s"
  by (simp_all add: server_ok_def commanded_ok_def)

lemma server_answer_accepted:
  assumes f: "write_frame f iid r" and s: "failures s = []" "mode s \<noteq> ''offline''" "server_ok s"
    and "objects s (write_key r) \<noteq> None" "refusal_of r s = None" "priority_fits (wr_priority r)"
    and tag: "application_tag (wr_value_octets r) = Inr tag" and "\<not> null_ignored r (tag = Some TAG_NULL) s"
  shows "server_answer f s = (Inr (Some [0x20, octet_of iid, 15]),
    (write_effect r (tag = Some TAG_NULL) s)\<lparr>write_requests := write_requests s @ [r]\<rparr>)"
  using server_answer_write [OF f s(1,2)] assms(3-)
    write_property_cases(4) [OF f tag, of "s\<lparr>write_requests := write_requests s @ [r]\<rparr>"]
    commit_write_effect [of "s\<lparr>write_requests := write_requests s @ [r]\<rparr>" r]
  by simp

lemma winning_value_Cons [simp]:
  "winning_value (None # slots) d = winning_value slots d" "winning_value (Some v # slots) d = Octets v"
  "winning_value [] d = d"
  by (simp_all add: winning_value_def winning_def map_filter_simps)

lemma winning_first:
  assumes "k < length slots" "slots ! k = Some v" "\<And>j. j < k \<Longrightarrow> slots ! j = None"
  shows "winning_value slots d = Octets v"
  using assms
proof (induction slots arbitrary: k)
  case (Cons slot slots)
  show ?case
  proof (cases k)
    case 0
    with Cons.prems(2) show ?thesis by simp
  next
    case (Suc m)
    have "slot = None" using Cons.prems(3) [of 0] Suc by simp
    moreover have "slots ! j = None" if "j < m" for j using Cons.prems(3) [of "Suc j"] Suc that by simp
    ultimately show ?thesis using Cons.IH [of m] Cons.prems(1,2) Suc by simp
  qed
qed simp

lemma winning_none: "(\<And>j. j < length slots \<Longrightarrow> slots ! j = None) \<Longrightarrow> winning_value slots d = d"
  by (induction slots) (force simp: nth_Cons')+

text \<open>Error answers and array elements, as the client decodes them.\<close>

lemma error_answer:
  assumes "unsigned8 iid" "unsigned8 srv" "unsigned32 c" "unsigned32 d"
  obtains a where "error_pdu iid srv c d = Inr a" "error_class_and_code a = Inr (Some (c, d))" "answers iid a"
  using error_class_and_code_roundtrip [OF assms] answers_error_pdu
  by (auto simp: rbind_eq_Inr)

lemma array_element_ack_eq:
  assumes "unsigned8 iid" "object_range ot i" "unsigned32 p" "unsigned32 ix"
  shows "array_element_ack iid ot i p ix v
    = Inr ([0x30, octet_of iid, 12] @ property_head ot i p @ ctx_prim 2 (u_octets ix) @ enclosed 3 v)"
  using assms
  by (simp add: array_element_ack_def codec_simps property_head_def enclosed_def py_bytes_def octet_of_def push_bit_eq_mult)

lemma read_property_value_indexed:
  assumes "balanced v" and "length pre = 3"
  shows "read_property_value (pre @ property_head ot i p @ ctx_prim 2 (u_octets ix) @ enclosed 3 v) = Inr (Some v)"
  using read_property_value_skip [OF is_tag_oid [of 0 ot i], of pre "ctx_prim 1 (u_octets p) @ ctx_prim 2 (u_octets ix) @ enclosed 3 v"]
    read_property_value_skip [OF is_tag_unsigned [of 1 p], of "pre @ ctx_prim 0 (oid ot i)" "ctx_prim 2 (u_octets ix) @ enclosed 3 v"]
    read_property_value_skip [OF is_tag_unsigned [of 2 ix], of "pre @ property_head ot i p" "enclosed 3 v"]
    read_property_value_open [OF assms(1), of "pre @ property_head ot i p @ ctx_prim 2 (u_octets ix)" "[]"] assms(2)
  by (simp add: read_property_value_def property_head_def enclosed_def)

lemma array_element_answer:
  assumes "unsigned8 iid" "object_range ot i" "unsigned32 p" "unsigned32 ix" "balanced v"
  obtains a where "array_element_ack iid ot i p ix v = Inr a" "read_property_value a = Inr (Some v)" "answers iid a"
  using array_element_ack_eq [OF assms(1-4), of v] read_property_value_indexed [OF assms(5), of "[0x30, octet_of iid, 12]" ot i p ix]
    answers_array_element_ack by auto

text \<open>The malformed answer is a well-formed ComplexACK with a NULL in it.\<close>

lemma malformed_answer:
  assumes "unsigned8 iid" "object_range ot i" "unsigned32 p"
  obtains a where "read_property_ack iid ot i p [0x00] = Inr a" "read_property_value a = Inr (Some [0x00])" "answers iid a"
proof -
  have "is_tag [0x00] 0 False Value []" by code_simp
  then have "balanced [0x00]" by (rule balanced_value)
  with that read_property_value_roundtrip [OF assms, of "[0x00]"] answers_read_property_ack show thesis by (auto simp: rbind_eq_Inr)
qed

lemma failure_of_scripted:
  assumes "mode s = ''online''" "map_of (failures s) key = Some failure" "pdu_type f = Some PDU_CONFIRMED_REQUEST"
    "requested_object f = Inr (Some key)"
  shows "failure_of f s = (Inr (Some failure), s)"
  using assms by (auto simp: failure_of_def ebind_lift)

section \<open>Claims\<close>

text \<open>An Analog Output with a commandable Present_Value and a Description, and a write to it.\<close>

definition example_server :: server where
  "example_server = projr (SimulatedServer 8001 [65] 389
     [(1, 1) \<mapsto> [85 \<mapsto> Octets [0x44, 0, 0, 0, 0], 28 \<mapsto> Octets [0x72, 0, 65], 87 \<mapsto> Octets [0x00, 0x21, 7]]] None (Some [(1, 1)]) True)"

lemma example_server_eq:
  "SimulatedServer 8001 [65] 389
     [(1, 1) \<mapsto> [85 \<mapsto> Octets [0x44, 0, 0, 0, 0], 28 \<mapsto> Octets [0x72, 0, 65], 87 \<mapsto> Octets [0x00, 0x21, 7]]] None (Some [(1, 1)]) True
   = Inr example_server"
  by (simp add: example_server_def SimulatedServer_def commandable_keys_def present_value_of_def get_item_def)

lemma example_server_fields [simp]:
  "failures example_server = []" "mode example_server = ''online''" "whole_arrays_refused example_server = {}"
  "objects example_server = [(1, 1) \<mapsto> [85 \<mapsto> Octets [0x44, 0, 0, 0, 0], 28 \<mapsto> Octets [0x72, 0, 65], 87 \<mapsto> Octets [0x00, 0x21, 7]]]"
  "writable example_server = None" "commandable example_server = Some {(1, 1)}" "array_elements example_server"
  "priority_arrays example_server = [(1, 1) \<mapsto> replicate 16 None]"
  "relinquish_defaults example_server = [(1, 1) \<mapsto> Octets [0x44, 0, 0, 0, 0]]"
  by (simp_all add: example_server_def SimulatedServer_def commandable_keys_def present_value_of_def get_item_def)

lemma example_server_ok: "server_ok example_server"
  by (rule SimulatedServer_ok [OF example_server_eq])

definition example_write :: "int \<Rightarrow> octets \<Rightarrow> int option \<Rightarrow> write_request" where
  "example_write p v priority = \<lparr>wr_object_type = 1, wr_instance = 1, wr_property_identifier = p, wr_array_index = None,
     wr_value_octets = v, wr_priority = priority\<rparr>"

definition example_write_frame :: "write_request \<Rightarrow> frame" where
  "example_write_frame r = example_frame (write_property_request 7 (wr_object_type r) (wr_instance r)
     (wr_property_identifier r) (wr_value_octets r) (wr_priority r) (wr_array_index r))"

text \<open>C7: A WriteProperty that the server accepts is answered with a SimpleACK of its invoke id and has
  exactly the specified effect: a property that is not commanded takes the value, a commanded object
  takes it in the slot of its priority (or empties the slot, for a NULL) and serves the winner; apart
  from the log of writes nothing else changes.\<close>
theorem server_write_refines:
  assumes "write_frame f iid r" "failures s = []" "mode s \<noteq> ''offline''" "server_ok s"
    and "objects s (write_key r) \<noteq> None" "refusal_of r s = None" "priority_fits (wr_priority r)"
    and "application_tag (wr_value_octets r) = Inr tag" "\<not> null_ignored r (tag = Some TAG_NULL) s"
  shows "server_answer f s = (Inr (Some [0x20, octet_of iid, 15]),
    (write_effect r (tag = Some TAG_NULL) s)\<lparr>write_requests := write_requests s @ [r]\<rparr>)"
  by (rule server_answer_accepted [OF assms])

theorem server_write_refines_witness:
  "server_answer (example_write_frame (example_write 85 [0x44, 0x42, 0xC8, 0, 0] (Some 8))) example_server =
    (Inr (Some [0x20, octet_of 7, 15]),
     (write_effect (example_write 85 [0x44, 0x42, 0xC8, 0, 0] (Some 8)) False example_server)
       \<lparr>write_requests := write_requests example_server @ [example_write 85 [0x44, 0x42, 0xC8, 0, 0] (Some 8)]\<rparr>)"
proof -
  let ?r = "example_write 85 [0x44, 0x42, 0xC8, 0, 0] (Some 8)"
  have "write_frame (example_write_frame ?r) 7 ?r" by code_simp
  moreover have "application_tag (wr_value_octets ?r) = Inr (Some 4)" by code_simp
  ultimately show ?thesis
    using server_write_refines [of "example_write_frame ?r" 7 ?r example_server "Some 4"] example_server_ok
    by (simp add: example_write_def refusal_of_def check_write_def priority_fits_def null_ignored_def)
qed

text \<open>C8: Whatever the server sends while it serves a confirmed request goes to the address the request
  came from, decodes to a frame that a client waiting for this invoke id accepts, and is routed back
  to the network and address the request was routed from.\<close>
theorem server_answers_with_request_id:
  assumes "server_serve data source b s = (Inr out, s')" and "(octets, target) \<in> set out"
    and "Frame (recvfrom 2048 data) source = Inr f" "pdu_type f = Some PDU_CONFIRMED_REQUEST" "invoke_id f = Inr (Some iid)"
  shows "target = source \<and> (\<exists>g. Frame octets here = Inr g \<and> frame_ok g \<and> is_answer_to iid g = Inr True \<and>
    dnet g = snet f \<and> (snet f \<noteq> None \<longrightarrow> dadr g = sadr f))"
  using server_responder.serve_answers [OF assms(1) [unfolded server_serve_def] assms(2-5)] .

theorem server_answers_with_request_id_witness:
  "\<exists>data octets target s'. server_serve data ([1], 5) False example_server = (Inr [(octets, target)], s') \<and>
    target = ([1], 5) \<and> (\<exists>g. Frame octets ([2], 6) = Inr g \<and> frame_ok g \<and> is_answer_to 7 g = Inr True)"
proof -
  define data where "data = projr (rbind (read_property_request 7 1 1 28 None) (\<lambda>a. rbind (npdu a npdu_defaults) (\<lambda>n. bvlc n False)))"
  define f where "f = projr (Frame (recvfrom 2048 data) ([1], 5))"
  have f: "Frame (recvfrom 2048 data) ([1], 5) = Inr f" "read_frame f 7 1 1 28 None" "frame_ok f" "snet f = None"
    "frame_source f = ([1], 5)" "invoke_id f = Inr (Some 7)"
    unfolding f_def data_def by code_simp+
  have n: "network_message f = None" "pdu_type f = Some PDU_CONFIRMED_REQUEST"
    using f(2) read_frame_facts(1) [OF f(2)] by (simp_all add: read_frame_def)
  define a where "a = projr (read_property_ack 7 1 1 28 [0x72, 0, 65])"
  define ret where "ret = fst (projr (reply f a))"
  have a: "read_property_ack 7 1 1 28 [0x72, 0, 65] = Inr a" unfolding a_def by code_simp
  have r: "reply f a = Inr (ret, ([1], 5))" unfolding ret_def a_def f_def data_def by code_simp
  let ?s = "example_server\<lparr>received := received example_server @ [f]\<rparr>"
  obtain s' where "server_answer f ?s = (Inr (Some a), s')"
    using server_answer_read(1) [OF f(2), of ?s _ "Octets [0x72, 0, 65]"] a by (simp add: call_served_def)
  then have "server_serve data ([1], 5) False example_server = (Inr [(ret, ([1], 5))], s')"
    using f(1,3) n(1) r by (simp add: server_serve_def serve_one_def)
  with server_answers_with_request_id [OF this _ f(1) n(2) f(6), of ret "([1], 5)" "([2], 6)"] show ?thesis by auto
qed

text \<open>C9: A server that is not offline, and has no Reject, Abort or silence scripted for the object (in
  refusing mode scripts do not count), does not accept a write to an object it does not have, any write
  in refusing mode, or a write to a property outside its writable set. It answers UNKNOWN_OBJECT or
  WRITE_ACCESS_DENIED under the request's invoke id, except that an online server with commandable
  objects acknowledges a NULL to a property it lists and that is not commanded; whatever it answers,
  only the log of writes changes.\<close>
theorem server_write_refused:
  assumes f: "write_frame f iid r" and s: "mode s \<noteq> ''offline''" "no_failure (write_key r) s"
    and tag: "application_tag (wr_value_octets r) = Inr tag"
    and refused: "objects s (write_key r) = None \<or> mode s = ''refusing'' \<or>
      (\<exists>w. writable s = Some w \<and> (wr_object_type r, wr_instance r, wr_property_identifier r) \<notin> w)"
  shows "\<exists>a. server_answer f s = (Inr (Some a), s\<lparr>write_requests := write_requests s @ [r]\<rparr>) \<and> answers iid a \<and>
    (if null_ignored r (tag = Some TAG_NULL) s then a = [0x20, octet_of iid, 15]
     else error_class_and_code a = Inr (Some (if objects s (write_key r) = None
      then (ERROR_CLASS_OBJECT, ERROR_CODE_UNKNOWN_OBJECT) else (ERROR_CLASS_PROPERTY, ERROR_CODE_WRITE_ACCESS_DENIED))))"
proof -
  have iid: "unsigned8 iid" using f by (simp add: write_frame_def)
  note w = server_answer_write_unless [OF f s(2,1)] write_property_cases [OF f tag]
  consider (null) "null_ignored r (tag = Some TAG_NULL) s"
    | (unknown) "\<not> null_ignored r (tag = Some TAG_NULL) s" "objects s (write_key r) = None"
    | (denied) "\<not> null_ignored r (tag = Some TAG_NULL) s" "objects s (write_key r) \<noteq> None" by blast
  then show ?thesis
  proof cases
    case null
    moreover have "answers iid [0x20, octet_of iid, 15]"
      using answers_simple_ack [of iid 15] simple_ack_eq [OF iid, of 15] by (simp add: octet_of_def)
    ultimately show ?thesis using w(1,2) by simp
  next
    case unknown
    obtain a where "error_pdu iid SERVICE_WRITE_PROPERTY ERROR_CLASS_OBJECT ERROR_CODE_UNKNOWN_OBJECT = Inr a"
      "error_class_and_code a = Inr (Some (ERROR_CLASS_OBJECT, ERROR_CODE_UNKNOWN_OBJECT))" "answers iid a"
      by (rule error_answer [of iid SERVICE_WRITE_PROPERTY ERROR_CLASS_OBJECT ERROR_CODE_UNKNOWN_OBJECT]) (use iid in auto)
    then show ?thesis using w(1,3) unknown by simp
  next
    case denied
    obtain a where "error_pdu iid SERVICE_WRITE_PROPERTY ERROR_CLASS_PROPERTY ERROR_CODE_WRITE_ACCESS_DENIED = Inr a"
      "error_class_and_code a = Inr (Some (ERROR_CLASS_PROPERTY, ERROR_CODE_WRITE_ACCESS_DENIED))" "answers iid a"
      by (rule error_answer [of iid SERVICE_WRITE_PROPERTY ERROR_CLASS_PROPERTY ERROR_CODE_WRITE_ACCESS_DENIED]) (use iid in auto)
    moreover have "refusal_of r s = Some (ERROR_CLASS_PROPERTY, ERROR_CODE_WRITE_ACCESS_DENIED)"
      using refused denied(2) by (auto simp: refusal_of_def)
    ultimately show ?thesis using w(1,4) denied by simp
  qed
qed

text \<open>A write in refusing mode although a Reject is scripted, and a NULL outside the writable set.\<close>

theorem server_write_refused_witness:
  "(\<exists>a s'. server_answer (example_write_frame (example_write 28 [0x72, 0, 66] None))
      (example_server\<lparr>mode := ''refusing'', failures := [((1, 1), ''reject'')]\<rparr>) = (Inr (Some a), s') \<and>
      error_class_and_code a = Inr (Some (ERROR_CLASS_PROPERTY, ERROR_CODE_WRITE_ACCESS_DENIED))) \<and>
   server_answer (example_write_frame (example_write 28 [0x00] None)) (example_server\<lparr>writable := Some {}\<rparr>) =
     (Inr (Some [0x20, 7, 15]), example_server\<lparr>writable := Some {}, write_requests := write_requests example_server @ [example_write 28 [0x00] None]\<rparr>)"
proof
  let ?r = "example_write 28 [0x72, 0, 66] None" and ?s = "example_server\<lparr>mode := ''refusing'', failures := [((1, 1), ''reject'')]\<rparr>"
  have "write_frame (example_write_frame ?r) 7 ?r" by code_simp
  moreover have "application_tag (wr_value_octets ?r) = Inr (Some 7)" by code_simp
  ultimately show "\<exists>a s'. server_answer (example_write_frame ?r) ?s = (Inr (Some a), s') \<and>
      error_class_and_code a = Inr (Some (ERROR_CLASS_PROPERTY, ERROR_CODE_WRITE_ACCESS_DENIED))"
    using server_write_refused [of "example_write_frame ?r" 7 ?r ?s "Some 7"]
    by (auto simp: example_write_def null_ignored_def no_failure_def)
next
  let ?r = "example_write 28 [0x00] None" and ?s = "example_server\<lparr>writable := Some {}\<rparr>"
  have "write_frame (example_write_frame ?r) 7 ?r" by code_simp
  moreover have "application_tag (wr_value_octets ?r) = Inr (Some 0)" by code_simp
  ultimately show "server_answer (example_write_frame ?r) ?s =
     (Inr (Some [0x20, 7, 15]), example_server\<lparr>writable := Some {}, write_requests := write_requests example_server @ [?r]\<rparr>)"
    using server_write_refused [of "example_write_frame ?r" 7 ?r ?s "Some 0"]
    by (auto simp: example_write_def null_ignored_def no_failure_def is_commanded_def octet_of_def)
qed

text \<open>C10: An offline server sends nothing, whatever datagram it serves to the end, and nothing it serves
  changes.\<close>
theorem server_offline_silent:
  assumes "mode s = ''offline''" and "server_serve data source b s = (Inr out, s')"
  shows "out = [] \<and> same_service s s'"
proof -
  from assms(2) obtain f where f: "Frame (recvfrom 2048 data) source = Inr f"
    by (auto simp: server_serve_def serve_one_def ebind_lift split: sum.splits)
  let ?s = "s\<lparr>received := received s @ [f],
       received_on_broadcast := (if b then received_on_broadcast s @ [f] else received_on_broadcast s)\<rparr>"
  have same: "same_service s ?s" by (simp add: same_service_def)
  show ?thesis
  proof (cases "frame_ok f \<and> network_message f = None")
    case True
    with assms(2) f obtain a t where a: "server_answer f ?s = (Inr a, t)"
      and rest: "(case a of None \<Rightarrow> eret [] | Some apdu \<Rightarrow> ebind (elift (reply f apdu)) (\<lambda>d. eret [d])) t = (Inr out, s')"
      by (auto simp: server_serve_def serve_one_def elim!: ebind_InrE)
    from server_answer_offline [OF _ a] assms(1) have "a = None" "same_service ?s t" by simp_all
    with rest same show ?thesis by (auto simp: same_service_def)
  next
    case False
    with assms(2) f same show ?thesis by (auto simp: server_serve_def serve_one_def)
  qed
qed

theorem server_offline_silent_witness:
  "\<exists>s'. server_serve [1, 2] ([1], 5) True (example_server\<lparr>mode := ''offline''\<rparr>) = (Inr [], s') \<and>
    same_service (example_server\<lparr>mode := ''offline''\<rparr>) s'"
proof -
  have "Frame (recvfrom 2048 [1, 2]) ([1], 5) = Inr (frame_init [1, 2] ([1], 5))" by code_simp
  moreover have "\<not> frame_ok (frame_init [1, 2] ([1], 5))" by code_simp
  ultimately have "\<exists>s'. server_serve [1, 2] ([1], 5) True (example_server\<lparr>mode := ''offline''\<rparr>) = (Inr [], s')"
    by (simp add: server_serve_def serve_one_def)
  then obtain s' where s': "server_serve [1, 2] ([1], 5) True (example_server\<lparr>mode := ''offline''\<rparr>) = (Inr [], s')" ..
  with server_offline_silent [OF _ s'] show ?thesis by simp
qed

text \<open>C11: Not offline, with no failure scripted and with array elements served, a ReadProperty with an
  index gets the number of elements for index 0, the element itself for an index in range, and
  INVALID_ARRAY_INDEX beyond the end.\<close>
theorem server_array_element:
  assumes f: "read_frame f iid ot i p (Some ix)" and s: "failures s = []" "mode s \<noteq> ''offline''" "array_elements s"
    and v: "server_value s ot i p = Some (concat es)" "\<And>e. e \<in> set es \<Longrightarrow> \<exists>n b. is_tag e n False Value b"
    and l: "unsigned32 (int (length es))"
  shows "\<exists>a s'. server_answer f s = (Inr (Some a), s') \<and> answers iid a \<and>
    (if ix = 0 then \<exists>e. read_property_value a = Inr (Some e) \<and> decode_application e = Inr (PyInt (int (length es)))
     else if ix \<le> int (length es) then read_property_value a = Inr (Some (es ! nat (ix - 1)))
     else error_class_and_code a = Inr (Some (ERROR_CLASS_PROPERTY, ERROR_CODE_INVALID_ARRAY_INDEX)))"
proof -
  have r: "unsigned8 iid" "object_range ot i" "unsigned32 p" "unsigned32 ix" using f by (simp_all add: read_frame_def)
  have es: "application_elements (concat es) = Inr es" using v(2) by (intro application_elements_concat) blast
  note answer = server_answer_element [OF f s v(1) es]
  consider "ix = 0" | "0 < ix" "ix \<le> int (length es)" | "int (length es) < ix" using r(4) by linarith
  then show ?thesis
  proof cases
    case 1
    obtain e where e: "application_unsigned (int (length es)) = Inr e" "balanced e" "decode_application e = Inr (PyInt (int (length es)))"
      by (rule unsigned_codec.encode_ok [OF l]) (metis append_Nil2)
    obtain a where a: "array_element_ack iid ot i p 0 e = Inr a" "read_property_value a = Inr (Some e)" "answers iid a"
      using array_element_answer [OF r(1-3) _ e(2), of 0] by auto
    with answer(1) [OF 1 e(1) a(1)] e(3) 1 show ?thesis by auto
  next
    case 2
    then have "es ! nat (ix - 1) \<in> set es" by simp
    with v(2) have "balanced (es ! nat (ix - 1))" using balanced_value by blast
    then obtain a where a: "array_element_ack iid ot i p ix (es ! nat (ix - 1)) = Inr a"
      "read_property_value a = Inr (Some (es ! nat (ix - 1)))" "answers iid a"
      using array_element_answer [OF r] by blast
    with answer(2) [OF 2 a(1)] 2 show ?thesis by auto
  next
    case 3
    obtain a where a: "error_pdu iid SERVICE_READ_PROPERTY ERROR_CLASS_PROPERTY ERROR_CODE_INVALID_ARRAY_INDEX = Inr a"
      "error_class_and_code a = Inr (Some (ERROR_CLASS_PROPERTY, ERROR_CODE_INVALID_ARRAY_INDEX))" "answers iid a"
      by (rule error_answer [of iid SERVICE_READ_PROPERTY ERROR_CLASS_PROPERTY ERROR_CODE_INVALID_ARRAY_INDEX]) (use r in auto)
    with answer(3) [OF 3 a(1)] 3 show ?thesis by auto
  qed
qed

theorem server_array_element_witness:
  "\<exists>a s'. server_answer (example_frame (read_property_request 7 1 1 87 (Some 2))) example_server = (Inr (Some a), s') \<and>
    answers 7 a \<and> read_property_value a = Inr (Some [0x21, 7])"
proof -
  let ?f = "example_frame (read_property_request 7 1 1 87 (Some 2))"
  have f: "read_frame ?f 7 1 1 87 (Some 2)" by code_simp
  have e: "is_tag [0x00] 0 False Value []" "is_tag [0x21, 7] 2 False Value [7]" by code_simp+
  have "\<exists>n b. is_tag e n False Value b" if "e \<in> set [[0x00], [0x21, 7]]" for e using that e by auto
  with server_array_element [OF f, of example_server "[[0x00], [0x21, 7]]"] show ?thesis
    by (auto simp: server_value_def call_served_def)
qed

text \<open>C12: An online server carries out the failure scripted for the object a ReadProperty or
  WriteProperty is about: a Reject or an Abort with the request's invoke id and no change of state;
  silence, which is counted; or, for a ReadProperty of an object it has, a malformed answer, which is a
  NULL as the value of whatever property was asked for, under the request's invoke id and not logged.\<close>
theorem server_scripted_failure:
  assumes f: "read_frame f iid ot i p ix \<or> (\<exists>r. write_frame f iid r \<and> write_key r = (ot, i))"
    and s: "mode s = ''online''" "map_of (failures s) (ot, i) = Some failure"
  shows "(failure = ''reject'' \<longrightarrow> server_answer f s = (Inr (Some [0x60, octet_of iid, 9]), s)) \<and>
    (failure = ''abort'' \<longrightarrow> server_answer f s = (Inr (Some [0x71, octet_of iid, 4]), s)) \<and>
    (failure = ''silent'' \<longrightarrow> server_answer f s = (Inr None, s\<lparr>silent_requests := silent_requests s + 1\<rparr>)) \<and>
    (failure = ''malformed'' \<and> read_frame f iid ot i p ix \<and> objects s (ot, i) \<noteq> None \<longrightarrow>
      (\<exists>a. server_answer f s = (Inr (Some a), s) \<and> answers iid a \<and> read_property_value a = Inr (Some [0x00])))"
proof -
  from f have r: "pdu_type f = Some PDU_CONFIRMED_REQUEST" "requested_object f = Inr (Some (ot, i))" "answered_id f = Inr iid"
    and iid: "unsigned8 iid"
    using read_frame_facts [of f iid ot i p ix] write_frame_facts [of f iid]
    by (auto simp: read_frame_def write_frame_def)
  note failing = failure_of_scripted [OF s r(1,2)]
  have answered: "failure = ''reject'' \<longrightarrow> server_answer f s = (Inr (Some [0x60, octet_of iid, 9]), s)"
    "failure = ''abort'' \<longrightarrow> server_answer f s = (Inr (Some [0x71, octet_of iid, 4]), s)"
    "failure = ''silent'' \<longrightarrow> server_answer f s = (Inr None, s\<lparr>silent_requests := silent_requests s + 1\<rparr>)"
    using failing r iid
    by (auto simp: server_answer_def answer_with_def reject_pdu_def abort_pdu_def push_bit_eq_mult py_bytes_def octet_of_def)
  have "\<exists>a. server_answer f s = (Inr (Some a), s) \<and> answers iid a \<and> read_property_value a = Inr (Some [0x00])"
    if m: "failure = ''malformed''" "read_frame f iid ot i p ix" "objects s (ot, i) \<noteq> None"
  proof -
    obtain a where a: "read_property_ack iid ot i p [0x00] = Inr a" "read_property_value a = Inr (Some [0x00])" "answers iid a"
      using malformed_answer [of iid ot i p] m(2) by (auto simp: read_frame_def)
    have null: "application_null = Inr [0x00]" by code_simp
    have special: "read_special f ((ot, i, p), ix) (Some ''malformed'') s = (Inr (Some a), s)"
      by (simp add: read_special_def answer_with_def ebind_lift null a(1) r(3))
    have "server_answer f s = (Inr (Some a), s)"
      using failing m(1,3) s(1) read_frame_facts [OF m(2)] special
      by (auto simp: server_answer_def answer_by_mode_def note_write_def answer_read_def answer_listed_def ebind_lift)
    with a(2,3) show ?thesis by blast
  qed
  with answered show ?thesis by blast
qed

theorem server_scripted_failure_witness:
  "server_answer (example_frame (read_property_request 7 1 1 85 None)) (example_server\<lparr>failures := [((1, 1), ''reject'')]\<rparr>) =
    (Inr (Some [0x60, octet_of 7, 9]), example_server\<lparr>failures := [((1, 1), ''reject'')]\<rparr>) \<and>
   (\<exists>a. server_answer (example_frame (read_property_request 7 1 1 85 None)) (example_server\<lparr>failures := [((1, 1), ''malformed'')]\<rparr>) =
      (Inr (Some a), example_server\<lparr>failures := [((1, 1), ''malformed'')]\<rparr>) \<and> read_property_value a = Inr (Some [0x00]))"
proof -
  have "read_frame (example_frame (read_property_request 7 1 1 85 None)) 7 1 1 85 None" by code_simp
  then show ?thesis
    using server_scripted_failure [of _ 7 1 1 85 None "example_server\<lparr>failures := [((1, 1), ''reject'')]\<rparr>" "''reject''"]
      server_scripted_failure [of _ 7 1 1 85 None "example_server\<lparr>failures := [((1, 1), ''malformed'')]\<rparr>" "''malformed''"] by auto
qed

text \<open>C35: An accepted write to a commanded Present_Value with a priority above 16 raises IndexError after
  the value was stored: the served Present_Value is the written one although no slot of the priority
  array holds it.\<close>
theorem write_priority_out_of_range:
  assumes f: "write_frame f iid r" and s: "server_ok s" "failures s = []" "mode s = ''online''"
    and r: "is_commanded r s" "refusal_of r s = None" "wr_priority r = Some pr" "16 < pr"
    and tag: "application_tag (wr_value_octets r) = Inr tag"
  shows "\<exists>s'. server_answer f s = (Inl IndexError, s') \<and> priority_arrays s' = priority_arrays s \<and>
    server_value s' (wr_object_type r) (wr_instance r) PROPERTY_PRESENT_VALUE = Some (wr_value_octets r)"
proof -
  let ?s = "s\<lparr>write_requests := write_requests s @ [r]\<rparr>"
  from is_commandedE [OF s(1) r(1)] obtain props slots where k: "objects s (write_key r) = Some props"
    "priority_arrays s (write_key r) = Some slots" "length slots = 16" "wr_property_identifier r = PROPERTY_PRESENT_VALUE" by metis
  let ?t = "store_property (write_key r) PROPERTY_PRESENT_VALUE (Octets (wr_value_octets r)) ?s"
  have t: "priority_arrays ?t = priority_arrays s"
    "server_value ?t (wr_object_type r) (wr_instance r) PROPERTY_PRESENT_VALUE = Some (wr_value_octets r)"
    using k by (simp_all add: store_property_def server_value_def call_served_def)
  have "commit_write r True (tag = Some TAG_NULL) ?s = (Inl IndexError, ?t)"
    using command_slot_out_of_range [of ?t "write_key r" slots r] k r(3,4) t(1)
    by (simp add: commit_write_def slot_index_def Let_def)
  moreover have "\<not> null_ignored r n s" for n using r(1) by (simp add: null_ignored_def)
  ultimately have "write_property f (Some r) ?s = (Inl IndexError, ?t)"
    using tag r(1,2) k(1) by (simp add: write_property_def Let_def)
  with server_answer_write [OF f s(2)] s(3) t show ?thesis by auto
qed

theorem write_priority_out_of_range_witness:
  "\<exists>s'. server_answer (example_write_frame (example_write 85 [0x44, 0x42, 0xC8, 0, 0] (Some 17))) example_server = (Inl IndexError, s') \<and>
    priority_arrays s' = priority_arrays example_server \<and> server_value s' 1 1 PROPERTY_PRESENT_VALUE = Some [0x44, 0x42, 0xC8, 0, 0]"
proof -
  let ?r = "example_write 85 [0x44, 0x42, 0xC8, 0, 0] (Some 17)"
  have "write_frame (example_write_frame ?r) 7 ?r" by code_simp
  moreover have "application_tag (wr_value_octets ?r) = Inr (Some 4)" by code_simp
  ultimately show ?thesis
    using write_priority_out_of_range [of "example_write_frame ?r" 7 ?r example_server 17 "Some 4"] example_server_ok
    by (simp add: example_write_def refusal_of_def check_write_def is_commanded_def)
qed

end
