(* ===== verification/Endpoint.thy ===== *)
theory Endpoint
  imports Peer_Device
begin

text \<open>
  \<^verbatim>\<open>src/wiretest/endpoint.py\<close>: a UDP socket that keeps every frame it receives. The
  socket, the clock and the far side are explicit: \<open>clock\<close> is \<open>time.monotonic()\<close> in
  milliseconds and moves only while a receive waits, \<open>inbox\<close> holds what will arrive and when, and
  \<open>sent\<close> what was put on the wire. What the network and the device under test do with a datagram
  is the parameter \<open>net\<close>: from their state \<open>world\<close> and the datagram to the arrivals it causes,
  each with its delay.
\<close>

section \<open>The socket\<close>

datatype arrival = Datagram octets address | Connection_reset

type_synonym 'w network = "'w \<Rightarrow> datagram \<Rightarrow> (int \<times> arrival) list \<times> 'w"

record 'w udp =
  clock :: int
  inbox :: "(int \<times> arrival) list"
  sent :: "datagram list"
  world :: 'w

record 'w endpoint = "'w udp" +
  ep_frames :: "frame list"

definition Endpoint :: "'w udp \<Rightarrow> 'w endpoint" where
  "Endpoint u = udp.extend (udp.truncate u) \<lparr>ep_frames = []\<rparr>"

definition deliver :: "int \<Rightarrow> (int \<times> arrival) list \<Rightarrow> (int \<times> arrival) list \<Rightarrow> (int \<times> arrival) list" where
  "deliver now arrivals queued = fold (insort_key fst) (map (\<lambda>(delay, a). (now + delay, a)) arrivals) queued"

definition after_send :: "'w network \<Rightarrow> datagram \<Rightarrow> ('w, 'b) udp_scheme \<Rightarrow> ('w, 'b) udp_scheme" where
  "after_send net d s = (let (arrivals, w) = net (world s) d in
     s\<lparr>sent := sent s @ [d], world := w, inbox := deliver (clock s) arrivals (inbox s)\<rparr>)"

lemma after_send_fields [simp]:
  "sent (after_send net d s) = sent s @ [d]" "clock (after_send net d s) = clock s"
  "udp.more (after_send net d s) = udp.more s" "world (after_send net d s) = snd (net (world s) d)"
  "inbox (after_send net d s) = deliver (clock s) (fst (net (world s) d)) (inbox s)"
  by (simp_all add: after_send_def split: prod.splits)

lemma after_send_endpoint [simp]:
  "ep_frames (after_send net d s) = ep_frames s" "endpoint.more (after_send net d s) = endpoint.more s"
  by (simp_all add: after_send_def split: prod.splits)

definition ep_send :: "'w network \<Rightarrow> octets \<Rightarrow> address \<Rightarrow> (('w, 'b) udp_scheme, unit) exec" where
  "ep_send net octets target =
     emodify (after_send net (octets, target))"

section \<open>Receiving\<close>

definition receive :: "int \<Rightarrow> (('w, 'b) endpoint_scheme, bool) exec" where
  "receive timeout s =
     (case inbox s of
        (t, a) # rest \<Rightarrow>
          if t \<le> clock s + timeout then
            (let s' = s\<lparr>clock := max (clock s) t, inbox := rest\<rparr> in
             case a of
               Connection_reset \<Rightarrow> (Inr True, s')
             | Datagram data source \<Rightarrow>
                 (case Frame (recvfrom 2048 data) source of
                    Inl e \<Rightarrow> (Inl e, s')
                  | Inr f \<Rightarrow> (Inr True, s'\<lparr>ep_frames := ep_frames s' @ [f]\<rparr>)))
          else (Inr False, s\<lparr>clock := clock s + timeout\<rparr>)
      | [] \<Rightarrow> (Inr False, s\<lparr>clock := clock s + timeout\<rparr>))"

lemma receive_consumes: "receive timeout s = (Inr True, s') \<Longrightarrow> length (inbox s') < length (inbox s)"
  by (auto simp: receive_def Let_def split: list.splits prod.splits if_splits arrival.splits sum.splits)

function collect_until :: "int \<Rightarrow> (('w, 'b) endpoint_scheme, frame list) exec" where
  "collect_until deadline s =
     (let remaining = deadline - clock s in
      if remaining \<le> 0 then (Inr (ep_frames s), s)
      else
      case receive remaining s of
        (Inl e, s') \<Rightarrow> (Inl e, s')
      | (Inr more_data, s') \<Rightarrow> if more_data then collect_until deadline s' else (Inr (ep_frames s'), s'))"
  by pat_completeness auto
termination
  by (relation "measure (\<lambda>(deadline, s). length (inbox s))") (auto intro: receive_consumes)

declare collect_until.simps [simp del]

definition collect :: "int \<Rightarrow> (('w, 'b) endpoint_scheme, frame list) exec" where
  "collect duration s = collect_until (clock s + duration) s"

definition clear :: "(('w, 'b) endpoint_scheme, unit) exec" where
  "clear = ebind (collect 50) (\<lambda>_. emodify (\<lambda>s. s\<lparr>ep_frames := []\<rparr>))"

text \<open>\<open>for frame in frames: if frame.ok and predicate(frame): return frame\<close>.\<close>

fun find_match :: "(frame \<Rightarrow> bool result) \<Rightarrow> frame list \<Rightarrow> frame option result" where
  "find_match predicate [] = Inr None"
| "find_match predicate (f # fs) =
     (if frame_ok f then rbind (predicate f) (\<lambda>hit. if hit then Inr (Some f) else find_match predicate fs)
      else find_match predicate fs)"

function wait_until_match ::
  "(frame \<Rightarrow> bool result) \<Rightarrow> int \<Rightarrow> nat \<Rightarrow> (('w, 'b) endpoint_scheme, frame option) exec" where
  "wait_until_match predicate deadline seen s =
     (case find_match predicate (drop seen (ep_frames s)) of
        Inl e \<Rightarrow> (Inl e, s)
      | Inr (Some f) \<Rightarrow> (Inr (Some f), s)
      | Inr None \<Rightarrow>
          let seen = length (ep_frames s); remaining = deadline - clock s in
          if remaining \<le> 0 then (find_match predicate (drop seen (ep_frames s)), s)
          else
          case receive remaining s of
            (Inl e, s') \<Rightarrow> (Inl e, s')
          | (Inr more_data, s') \<Rightarrow>
              if more_data then wait_until_match predicate deadline seen s'
              else (find_match predicate (drop seen (ep_frames s')), s'))"
  by pat_completeness auto
termination
  by (relation "measure (\<lambda>(predicate, deadline, seen, s). length (inbox s))") (auto intro: receive_consumes)

declare wait_until_match.simps [simp del]

definition wait_for :: "(frame \<Rightarrow> bool result) \<Rightarrow> int \<Rightarrow> (('w, 'b) endpoint_scheme, frame option) exec" where
  "wait_for predicate duration s = wait_until_match predicate (clock s + duration) 0 s"

section \<open>What waiting returns\<close>

lemma find_match_Some:
  "find_match predicate fs = Inr (Some f) \<Longrightarrow> f \<in> set fs \<and> frame_ok f \<and> predicate f = Inr True"
  by (induction fs) (auto simp: rbind_eq_Inr split: if_splits)

lemma find_match_None:
  "find_match predicate fs = Inr None \<longleftrightarrow> (\<forall>f \<in> set fs. frame_ok f \<longrightarrow> predicate f = Inr False)"
proof (induction fs)
  case (Cons f fs)
  then show ?case by (cases "predicate f") auto
qed simp

lemma find_match_append:
  "find_match predicate xs = Inr None \<Longrightarrow> find_match predicate (xs @ ys) = find_match predicate ys"
  by (induction xs) (auto simp: rbind_eq_Inr split: if_splits)

lemma receive_frames:
  assumes "receive timeout s = (r, s')"
  shows "\<exists>new. ep_frames s' = ep_frames s @ new" and "sent s' = sent s" and "world s' = world s"
    and "endpoint.more s' = endpoint.more s"
    and "clock s \<le> clock s' \<or> timeout < 0" and "0 \<le> timeout \<Longrightarrow> clock s' \<le> clock s + timeout"
  using assms
  by (auto simp: receive_def Let_def split: list.splits prod.splits if_splits arrival.splits sum.splits)

text \<open>A returned frame matches; the wait adds frames, sends nothing and ends by its deadline.\<close>

lemma wait_until_match_result:
  assumes "wait_until_match predicate deadline seen s = (r, s')"
  shows "(r = Inr (Some f) \<longrightarrow> f \<in> set (ep_frames s') \<and> frame_ok f \<and> predicate f = Inr True) \<and>
    sent s' = sent s \<and> world s' = world s \<and> clock s' \<le> max (clock s) deadline \<and>
    endpoint.more s' = endpoint.more s"
  using assms
proof (induction predicate deadline seen s rule: wait_until_match.induct)
  case (1 predicate deadline seen s)
  note step = "1.prems"
  have sub: "g \<in> set (ep_frames t)" if "g \<in> set (drop n (ep_frames t))" for g n and t :: "('a, 'b) endpoint_scheme"
    using that by (meson in_set_dropD)
  consider (e) e where "find_match predicate (drop seen (ep_frames s)) = Inl e"
    | (hit) g where "find_match predicate (drop seen (ep_frames s)) = Inr (Some g)"
    | (miss) "find_match predicate (drop seen (ep_frames s)) = Inr None"
    by (metis not_None_eq old.sum.exhaust)
  then show ?case
  proof cases
    case e
    then show ?thesis using step by (subst (asm) wait_until_match.simps) auto
  next
    case hit
    then show ?thesis using step find_match_Some [OF hit] sub
      by (subst (asm) wait_until_match.simps) auto
  next
    case miss
    show ?thesis
    proof (cases "deadline - clock s \<le> 0")
      case True
      then show ?thesis using step miss by (subst (asm) wait_until_match.simps) auto
    next
      case False
      obtain q t where q: "receive (deadline - clock s) s = (q, t)" by (metis surj_pair)
      note t = receive_frames [OF q]
      have w: "(case q of Inl e \<Rightarrow> (Inl e, t) | Inr more_data \<Rightarrow>
          if more_data then wait_until_match predicate deadline (length (ep_frames s)) t
          else (find_match predicate (drop (length (ep_frames s)) (ep_frames t)), t)) = (r, s')"
        using step miss False q by (subst (asm) wait_until_match.simps) (auto simp: Let_def split: sum.splits)
      show ?thesis
      proof (cases "q = Inr True")
        case True
        then show ?thesis
          using "1.IH" [OF miss _ refl refl False q [symmetric]] w t False by (auto simp: not_le)
      next
        case False
        then show ?thesis
          using w t \<open>\<not> deadline - clock s \<le> 0\<close> sub
          by (auto split: sum.splits if_splits dest: find_match_Some)
      qed
    qed
  qed
qed

text \<open>The frame returned is the first match among all frames kept when the wait ends.\<close>

lemma wait_until_match_first:
  assumes "wait_until_match predicate deadline seen s = (Inr x, s')"
    and "find_match predicate (take seen (ep_frames s)) = Inr None"
  shows "find_match predicate (ep_frames s') = Inr x"
  using assms
proof (induction predicate deadline seen s rule: wait_until_match.induct)
  case (1 predicate deadline seen s)
  have all: "find_match predicate (ep_frames s) = find_match predicate (drop seen (ep_frames s))"
    using find_match_append [OF "1.prems"(2), of "drop seen (ep_frames s)"] by simp
  show ?case
  proof (cases "find_match predicate (drop seen (ep_frames s)) = Inr None \<and> 0 < deadline - clock s")
    case False
    then show ?thesis using "1.prems"(1) all
      by (subst (asm) wait_until_match.simps) (auto simp: Let_def split: sum.splits option.splits if_splits)
  next
    case True
    obtain q t where q: "receive (deadline - clock s) s = (q, t)" by (metis surj_pair)
    obtain new where new: "ep_frames t = ep_frames s @ new" using receive_frames(1) [OF q] by blast
    have w: "(case q of Inl e \<Rightarrow> (Inl e, t) | Inr more_data \<Rightarrow>
        if more_data then wait_until_match predicate deadline (length (ep_frames s)) t
        else (find_match predicate (drop (length (ep_frames s)) (ep_frames t)), t)) = (Inr x, s')"
      using "1.prems"(1) True q by (subst (asm) wait_until_match.simps) (auto simp: Let_def split: sum.splits)
    have none: "find_match predicate (take (length (ep_frames s)) (ep_frames t)) = Inr None"
      using True all by (simp add: new)
    have "\<not> deadline - clock s \<le> 0" using True by simp
    with "1.IH" [of None "length (ep_frames s)" "deadline - clock s" q t True] True q w none show ?thesis
      using find_match_append [of predicate "ep_frames s" new] all new
      by (cases q) (auto split: if_splits)
  qed
qed

text \<open>A matching datagram that arrives in time is returned, whatever harmless arrivals precede it.\<close>

definition harmless :: "(frame \<Rightarrow> bool result) \<Rightarrow> arrival \<Rightarrow> bool" where
  "harmless predicate a = (case a of
     Connection_reset \<Rightarrow> True
   | Datagram data source \<Rightarrow> (case Frame (recvfrom 2048 data) source of
        Inl _ \<Rightarrow> False | Inr f \<Rightarrow> frame_ok f \<longrightarrow> predicate f = Inr False))"

lemma find_match_snoc_harmless:
  assumes "find_match predicate (drop n fs) = Inr None" and "frame_ok f \<longrightarrow> predicate f = Inr False"
  shows "find_match predicate (drop (length fs) (fs @ [f])) = Inr None"
  using assms by auto

lemma wait_until_match_delivers:
  assumes "find_match predicate (drop seen (ep_frames s)) = Inr None" and "clock s < deadline"
    and "inbox s = q @ (t, Datagram data source) # rest" and "t \<le> deadline"
    and "list_all (\<lambda>(t', a). t' < deadline \<and> harmless predicate a) q"
    and "Frame (recvfrom 2048 data) source = Inr f" and "frame_ok f" and "predicate f = Inr True"
  shows "\<exists>s'. wait_until_match predicate deadline seen s = (Inr (Some f), s') \<and> inbox s' = rest"
  using assms
proof (induction q arbitrary: s seen)
  case Nil
  let ?s = "s\<lparr>clock := max (clock s) t, inbox := rest, ep_frames := ep_frames s @ [f]\<rparr>"
  have "receive (deadline - clock s) s = (Inr True, ?s)"
    using Nil by (simp add: receive_def)
  moreover have "find_match predicate (drop (length (ep_frames s)) (ep_frames ?s)) = Inr (Some f)"
    using Nil by simp
  then have "wait_until_match predicate deadline (length (ep_frames s)) ?s = (Inr (Some f), ?s)"
    by (subst wait_until_match.simps) simp
  ultimately show ?case
    using Nil.prems(1,2) by (subst wait_until_match.simps) (simp add: Let_def)
next
  case (Cons p q)
  obtain t' a where p: "p = (t', a)" by (cases p)
  have t': "t' < deadline" and h: "harmless predicate a" using Cons.prems(5) p by auto
  obtain s' where r: "receive (deadline - clock s) s = (Inr True, s')"
    and s': "clock s' < deadline" "inbox s' = q @ (t, Datagram data source) # rest"
      "find_match predicate (drop (length (ep_frames s)) (ep_frames s')) = Inr None"
    using h t' Cons.prems(2,3)
    by (cases a) (auto simp: receive_def p harmless_def Let_def split: sum.splits)
  have "\<exists>u. wait_until_match predicate deadline (length (ep_frames s)) s' = (Inr (Some f), u) \<and> inbox u = rest"
    using Cons.IH [OF s'(3,1,2)] Cons.prems(4-8) by simp
  then show ?case
    using Cons.prems(1,2) r by (subst wait_until_match.simps) (auto simp: Let_def)
qed

section \<open>Claims\<close>

text \<open>C15: A wait returns the first matching frame among all frames kept when it ends (or None when there
  is none), sends nothing, leaves the far side alone and ends by its deadline.\<close>
theorem wait_for_first_match:
  assumes "wait_for predicate duration s = (Inr r, s')"
  shows "find_match predicate (ep_frames s') = Inr r \<and> sent s' = sent s \<and> world s' = world s \<and>
    clock s' \<le> clock s + max 0 duration"
  using wait_until_match_first [OF assms [unfolded wait_for_def]]
    wait_until_match_result [OF assms [unfolded wait_for_def]] by (auto simp: max_def)

theorem wait_for_first_match_witness:
  "find_match (\<lambda>_. Inr True) (ep_frames (snd (wait_for (\<lambda>_. Inr True) 500
      \<lparr>clock = 0, inbox = [], sent = [], world = (), ep_frames = []\<rparr>))) = Inr None"
proof -
  let ?s = "\<lparr>clock = 0, inbox = [], sent = [], world = (), ep_frames = []\<rparr>"
  have "wait_for (\<lambda>_. Inr True) 500 ?s = (Inr None, ?s\<lparr>clock := 500\<rparr>)"
    by (simp add: wait_for_def wait_until_match.simps receive_def Let_def)
  from wait_for_first_match [OF this] this show ?thesis by simp
qed

text \<open>C16: A matching datagram that arrives within the duration is returned, whatever connection resets
  and frames that do not match arrive before it.\<close>
theorem wait_for_delivers:
  assumes "find_match predicate (ep_frames s) = Inr None" and "0 < duration"
    and "inbox s = q @ (t, Datagram data source) # rest" and "t \<le> clock s + duration"
    and "list_all (\<lambda>(t', a). t' < clock s + duration \<and> harmless predicate a) q"
    and "Frame (recvfrom 2048 data) source = Inr f" and "frame_ok f" and "predicate f = Inr True"
  shows "\<exists>s'. wait_for predicate duration s = (Inr (Some f), s') \<and> inbox s' = rest"
  using wait_until_match_delivers [of predicate 0 s "clock s + duration" q t data source rest f] assms
  by (simp add: wait_for_def)

theorem wait_for_delivers_witness:
  "\<exists>f s'. wait_for (\<lambda>f. Inr (pdu_type f = Some PDU_SIMPLE_ACK)) 500
      \<lparr>clock = 0, inbox = [(3, Connection_reset), (7, Datagram [0x81, 0x0A, 0, 9, 1, 0, 0x20, 1, 15] ([1], 5))], sent = [],
        world = (), ep_frames = []\<rparr> = (Inr (Some f), s')"
proof -
  let ?s = "\<lparr>clock = 0, inbox = [(3, Connection_reset), (7, Datagram [0x81, 0x0A, 0, 9, 1, 0, 0x20, 1, 15] ([1], 5))],
      sent = [], world = (), ep_frames = []\<rparr>"
  let ?f = "projr (Frame (recvfrom 2048 [0x81, 0x0A, 0, 9, 1, 0, 0x20, 1, 15]) ([1], 5))"
  have f: "Frame (recvfrom 2048 [0x81, 0x0A, 0, 9, 1, 0, 0x20, 1, 15]) ([1], 5) = Inr ?f" "frame_ok ?f"
    "Inr (pdu_type ?f = Some PDU_SIMPLE_ACK) = (Inr True :: bool result)" by code_simp+
  show ?thesis
    using wait_for_delivers [of "\<lambda>f. Inr (pdu_type f = Some PDU_SIMPLE_ACK)" ?s 500 "[(3, Connection_reset)]" 7, OF _ _ _ _ _ f]
    by (auto simp: harmless_def)
qed

end
