(* ===== verification/Alarm.thy ===== *)
theory Alarm
  imports Codec_Decode
begin

text \<open>
  \<^verbatim>\<open>src/wiretest/alarm.py\<close>: the alarm and device-management services. Encoders of
  time stamps, destinations and requests; the event notification a Peer sends; and the decoders
  \<open>EventNotification\<close> and \<open>parse_event_summaries\<close>. The main lemma says that a notification
  the encoder makes is decoded with every field it was given.
\<close>

section \<open>Numbers\<close>

abbreviation (input) SERVICE_ACKNOWLEDGE_ALARM :: int where "SERVICE_ACKNOWLEDGE_ALARM \<equiv> 0"
abbreviation (input) SERVICE_CONFIRMED_EVENT_NOTIFICATION :: int where "SERVICE_CONFIRMED_EVENT_NOTIFICATION \<equiv> 2"
abbreviation (input) SERVICE_DEVICE_COMMUNICATION_CONTROL :: int where "SERVICE_DEVICE_COMMUNICATION_CONTROL \<equiv> 17"
abbreviation (input) SERVICE_GET_EVENT_INFORMATION :: int where "SERVICE_GET_EVENT_INFORMATION \<equiv> 29"
abbreviation (input) SERVICE_UNCONFIRMED_EVENT_NOTIFICATION :: int where "SERVICE_UNCONFIRMED_EVENT_NOTIFICATION \<equiv> 3"
abbreviation (input) SERVICE_TIME_SYNCHRONIZATION :: int where "SERVICE_TIME_SYNCHRONIZATION \<equiv> 6"
abbreviation (input) EVENT_STATE_NORMAL :: int where "EVENT_STATE_NORMAL \<equiv> 0"
abbreviation (input) NOTIFY_TYPE_ACK_NOTIFICATION :: int where "NOTIFY_TYPE_ACK_NOTIFICATION \<equiv> 2"
abbreviation (input) EVENT_TYPE_OUT_OF_RANGE :: int where "EVENT_TYPE_OUT_OF_RANGE \<equiv> 5"

section \<open>Values\<close>

type_synonym date_time = "octets \<times> octets"

definition context_date_time :: "int \<Rightarrow> date_time \<Rightarrow> octets result" where
  "context_date_time tag stamp = (case stamp of (date_octets, time_octets) \<Rightarrow>
     cat [opening_tag tag, opening_tag 2, py_bytes [0xA4], Inr date_octets, py_bytes [0xB4], Inr time_octets,
          closing_tag 2, closing_tag tag])"

definition destination ::
  "octets \<Rightarrow> int \<Rightarrow> bool \<Rightarrow> bool list \<Rightarrow> int \<Rightarrow> bool list \<Rightarrow> int \<times> int \<times> int \<times> int \<Rightarrow> int \<times> int \<times> int \<times> int
    \<Rightarrow> octets result" where
  "destination mac_octets process_identifier confirmed transitions network_number valid_days from_time to_time =
     rbind (if length mac_octets < 5 then cat [py_bytes [0x60 OR int (length mac_octets)], Inr mac_octets]
            else cat [py_bytes [0x65, int (length mac_octets)], Inr mac_octets]) (\<lambda>mac_body.
     cat [application_bit_string valid_days,
          (case from_time of (h, m, s, c) \<Rightarrow> application_time h m s c),
          (case to_time of (h, m, s, c) \<Rightarrow> application_time h m s c),
          opening_tag 1, application_unsigned network_number, Inr mac_body, closing_tag 1,
          application_unsigned process_identifier, application_boolean confirmed,
          application_bit_string transitions])"

section \<open>Requests\<close>

definition acknowledge_alarm_request ::
  "int \<Rightarrow> int \<Rightarrow> int \<Rightarrow> int \<Rightarrow> int \<Rightarrow> date_time \<Rightarrow> pystr \<Rightarrow> date_time \<Rightarrow> octets result" where
  "acknowledge_alarm_request iid process_identifier object_type instance_number event_state_acknowledged
       time_stamp source time_of_acknowledgment =
     rbind (cat [context_unsigned 0 process_identifier, context_object_id 1 object_type instance_number,
                 context_enumerated 2 event_state_acknowledged, context_date_time 3 time_stamp,
                 context_character_string 4 source, context_date_time 5 time_of_acknowledgment])
       (confirmed_request iid SERVICE_ACKNOWLEDGE_ALARM)"

definition get_event_information_request :: "int \<Rightarrow> object_ref option \<Rightarrow> octets result" where
  "get_event_information_request iid last_received =
     rbind (case last_received of None \<Rightarrow> Inr [] | Some (ot, i) \<Rightarrow> context_object_id 0 ot i)
       (confirmed_request iid SERVICE_GET_EVENT_INFORMATION)"

definition device_communication_control_request :: "int \<Rightarrow> int \<Rightarrow> pystr option \<Rightarrow> int option \<Rightarrow> octets result" where
  "device_communication_control_request iid enable_disable password minutes =
     rbind (cat ((case minutes of None \<Rightarrow> [] | Some m \<Rightarrow> [context_unsigned 0 m]) @
                 [context_enumerated 1 enable_disable] @
                 (case password of None \<Rightarrow> [] | Some p \<Rightarrow> [context_character_string 2 p])))
       (confirmed_request iid SERVICE_DEVICE_COMMUNICATION_CONTROL)"

definition time_synchronization :: "int \<Rightarrow> int \<Rightarrow> int \<Rightarrow> int \<Rightarrow> int \<Rightarrow> int \<Rightarrow> int \<Rightarrow> octets result" where
  "time_synchronization year month day weekday hour minute second =
     cat [py_bytes [0x10, SERVICE_TIME_SYNCHRONIZATION], application_date year month day weekday,
          application_time hour minute second 0]"

text \<open>The arguments of \<open>event_notification()\<close> and its defaults; 95.0, 90.0 and 1.0 as IEEE bits.\<close>

record event_args =
  ea_from_state :: int
  ea_confirmed :: bool
  ea_invoke_id :: int
  ea_process_identifier :: int
  ea_notification_class :: int
  ea_priority :: int
  ea_notify_type :: int
  ea_ack_required :: bool
  ea_message_text :: "pystr option"
  ea_time_stamp :: "int \<times> int \<times> int \<times> int \<times> int \<times> int \<times> int"
  ea_exceeding_value :: py_float
  ea_exceeded_limit :: py_float

definition event_defaults :: event_args where
  "event_defaults = \<lparr>ea_from_state = EVENT_STATE_NORMAL, ea_confirmed = False, ea_invoke_id = 0,
     ea_process_identifier = 1, ea_notification_class = 1, ea_priority = 100, ea_notify_type = 0,
     ea_ack_required = True, ea_message_text = None, ea_time_stamp = (2026, 10, 15, 4, 12, 30, 0),
     ea_exceeding_value = 0x4057C00000000000, ea_exceeded_limit = 0x4056800000000000\<rparr>"

definition event_stamp :: "int \<times> int \<times> int \<times> int \<times> int \<times> int \<times> int \<Rightarrow> date_time result" where
  "event_stamp stamp = (case stamp of (year, month, day, weekday, hour, minute, second) \<Rightarrow>
     rbind (application_date year month day weekday) (\<lambda>d.
     rbind (application_time hour minute second 0) (\<lambda>t. Inr (drop 1 d, drop 1 t))))"

text \<open>What follows the notify type: states and event values, or only the to-state of an ack notification.\<close>

definition event_values :: "int \<Rightarrow> event_args \<Rightarrow> octets result list" where
  "event_values to_state a =
     (if ea_notify_type a \<noteq> NOTIFY_TYPE_ACK_NOTIFICATION then
        [context_boolean 9 (ea_ack_required a), context_enumerated 10 (ea_from_state a),
         context_enumerated 11 to_state,
         opening_tag 12, opening_tag 5, context_real 0 (ea_exceeding_value a),
         context_bit_string 1 [to_state \<noteq> EVENT_STATE_NORMAL, False, False, False],
         context_real 2 0x3FF0000000000000, context_real 3 (ea_exceeded_limit a), closing_tag 5, closing_tag 12]
      else [context_enumerated 11 to_state])"

definition event_notification :: "int \<Rightarrow> object_ref \<Rightarrow> int \<Rightarrow> event_args \<Rightarrow> octets result" where
  "event_notification initiating_device event_object to_state a =
     rbind (event_stamp (ea_time_stamp a)) (\<lambda>stamp.
     rbind (cat ([context_unsigned 0 (ea_process_identifier a),
                  context_object_id 1 OBJECT_TYPE_DEVICE initiating_device,
                  (case event_object of (ot, i) \<Rightarrow> context_object_id 2 ot i),
                  context_date_time 3 stamp,
                  context_unsigned 4 (ea_notification_class a),
                  context_unsigned 5 (ea_priority a),
                  context_enumerated 6 EVENT_TYPE_OUT_OF_RANGE] @
                 (case ea_message_text a of None \<Rightarrow> [] | Some t \<Rightarrow> [context_character_string 7 t]) @
                 [context_enumerated 8 (ea_notify_type a)] @ event_values to_state a)) (\<lambda>parameters.
     if ea_confirmed a then confirmed_request (ea_invoke_id a) SERVICE_CONFIRMED_EVENT_NOTIFICATION parameters
     else cat [py_bytes [push_bit 4 PDU_UNCONFIRMED_REQUEST, SERVICE_UNCONFIRMED_EVENT_NOTIFICATION], Inr parameters]))"

section \<open>Decoding\<close>

definition skip_constructed :: "octets \<Rightarrow> nat \<Rightarrow> nat result" where
  "skip_constructed octets position = rbind (close_of octets 1 position) (\<lambda>(_, after). Inr after)"

definition read_time_stamp_choice :: "octets \<Rightarrow> nat \<Rightarrow> (date_time option \<times> nat) result" where
  "read_time_stamp_choice octets position =
     rbind (read_tag octets position) (\<lambda>t.
     if tag_kind t = Open \<and> tag_number t = 2 then
       rbind (read_tag octets (tag_next t)) (\<lambda>d.
       rbind (read_tag octets (tag_next d)) (\<lambda>c.
       rbind (read_tag octets (tag_next c)) (\<lambda>e.
       Inr (Some (tag_body d, tag_body c), tag_next e))))
     else if tag_kind t = Open then
       rbind (skip_constructed octets (tag_next t)) (\<lambda>after. Inr (None, after))
     else Inr (None, tag_next t))"

definition read_time_stamp :: "octets \<Rightarrow> nat \<Rightarrow> (date_time option \<times> nat) result" where
  "read_time_stamp octets position =
     rbind (read_time_stamp_choice octets position) (\<lambda>(stamp, position).
     rbind (read_tag octets position) (\<lambda>t. Inr (stamp, tag_next t)))"

record notification =
  en_frame :: frame
  en_confirmed :: bool
  en_invoke_id :: "int option"
  en_process_identifier :: "int option"
  en_initiating_device :: "object_ref option"
  en_event_object :: "object_ref option"
  en_time_stamp :: "date_time option"
  en_notification_class :: "int option"
  en_priority :: "int option"
  en_event_type :: "int option"
  en_notify_type :: "int option"
  en_ack_required :: "bool option"
  en_from_state :: "int option"
  en_to_state :: "int option"

definition object_identifier :: "octets \<Rightarrow> object_ref result" where
  "object_identifier body = rbind (unpack_I body) (\<lambda>raw. Inr (drop_bit 22 raw, raw AND MAX_INSTANCE))"

text \<open>One context-tagged primitive of the notification's parameters.\<close>

definition notification_field :: "int \<Rightarrow> octets \<Rightarrow> notification \<Rightarrow> notification result" where
  "notification_field number body n =
     (let integer = from_bytes body in
      if number = 0 then Inr (n\<lparr>en_process_identifier := Some integer\<rparr>)
      else if number = 1 then rbind (object_identifier body) (\<lambda>i. Inr (n\<lparr>en_initiating_device := Some i\<rparr>))
      else if number = 2 then rbind (object_identifier body) (\<lambda>i. Inr (n\<lparr>en_event_object := Some i\<rparr>))
      else if number = 4 then Inr (n\<lparr>en_notification_class := Some integer\<rparr>)
      else if number = 5 then Inr (n\<lparr>en_priority := Some integer\<rparr>)
      else if number = 6 then Inr (n\<lparr>en_event_type := Some integer\<rparr>)
      else if number = 8 then Inr (n\<lparr>en_notify_type := Some integer\<rparr>)
      else if number = 9 then Inr (n\<lparr>en_ack_required := Some (integer \<noteq> 0)\<rparr>)
      else if number = 10 then Inr (n\<lparr>en_from_state := Some integer\<rparr>)
      else if number = 11 then Inr (n\<lparr>en_to_state := Some integer\<rparr>)
      else Inr n)"

lemma skip_constructed_progress: "skip_constructed octets p = Inr q \<Longrightarrow> p < q"
  by (auto simp: skip_constructed_def rbind_eq_Inr dest: close_of_progress)

lemma read_time_stamp_choice_progress: "read_time_stamp_choice octets p = Inr (s, q) \<Longrightarrow> p < q"
  by (fastforce simp: read_time_stamp_choice_def rbind_eq_Inr split: if_splits
      dest!: read_tag_progress skip_constructed_progress)

lemma read_time_stamp_progress: "read_time_stamp octets p = Inr (s, q) \<Longrightarrow> p < q"
  by (fastforce simp: read_time_stamp_def rbind_eq_Inr dest: read_time_stamp_choice_progress read_tag_progress)

function notification_loop :: "octets \<Rightarrow> nat \<Rightarrow> notification \<Rightarrow> notification result" where
  "notification_loop octets position n =
     (if position < length octets then
        rbind (read_tag octets position) (\<lambda>t.
        if tag_kind t = Open then
          (if tag_number t = 3
           then rbind (read_time_stamp octets (tag_next t)) (\<lambda>(stamp, position).
                notification_loop octets position (n\<lparr>en_time_stamp := stamp\<rparr>))
           else rbind (skip_constructed octets (tag_next t)) (\<lambda>position. notification_loop octets position n))
        else if tag_kind t \<noteq> Value \<or> \<not> tag_context t then notification_loop octets (tag_next t) n
        else rbind (notification_field (tag_number t) (tag_body t) n) (notification_loop octets (tag_next t)))
      else Inr n)"
  by pat_completeness auto
termination
  by (relation "measure (\<lambda>(octets, position, n). length octets - position)")
    (fastforce dest: read_tag_progress read_time_stamp_progress skip_constructed_progress)+

declare notification_loop.simps [simp del]

definition EventNotification :: "frame \<Rightarrow> notification result" where
  "EventNotification f =
     (let confirmed = (pdu_type f = Some PDU_CONFIRMED_REQUEST) in
      rbind (if confirmed then invoke_id f else Inr None) (\<lambda>iid.
      notification_loop (drop (if confirmed then 4 else 2) (payload f)) 0
        \<lparr>en_frame = f, en_confirmed = confirmed, en_invoke_id = iid, en_process_identifier = None,
         en_initiating_device = None, en_event_object = None, en_time_stamp = None,
         en_notification_class = None, en_priority = None, en_event_type = None, en_notify_type = None,
         en_ack_required = None, en_from_state = None, en_to_state = None\<rparr>))"

definition is_event_notification :: "frame \<Rightarrow> bool result" where
  "is_event_notification f =
     (if network_message f \<noteq> None then Inr False
      else if pdu_type f = Some PDU_CONFIRMED_REQUEST
        then rbind (service f) (\<lambda>s. Inr (s = Some SERVICE_CONFIRMED_EVENT_NOTIFICATION))
      else if pdu_type f = Some PDU_UNCONFIRMED_REQUEST
        then rbind (service f) (\<lambda>s. Inr (s = Some SERVICE_UNCONFIRMED_EVENT_NOTIFICATION))
      else Inr False)"

section \<open>Event summaries\<close>

text \<open>\<open>_bits\<close> decodes a bit string's body exactly as \<open>decode_application\<close> does.\<close>

definition bits :: "octets \<Rightarrow> bool list result" where
  "bits body = decode_bits body"

record summary =
  su_object :: object_ref
  su_event_state :: "int option"
  su_acked_transitions :: "bool list option"
  su_time_stamps :: "date_time option list option"
  su_notify_type :: "int option"
  su_event_enable :: "bool list option"
  su_priorities :: "int list option"

record summary_state =
  ss_summaries :: "summary list"
  ss_more_events :: "bool option"
  ss_in_list :: bool

text \<open>
  \<open>current[...] = ...\<close>: the current summary is the one appended last; before the first one
  \<open>current\<close> is \<open>None\<close>, a \<open>TypeError\<close>.
\<close>

definition set_current :: "(summary \<Rightarrow> summary) \<Rightarrow> summary_state \<Rightarrow> summary_state result" where
  "set_current g s =
     (if ss_summaries s = [] then Inl TypeError
      else Inr (s\<lparr>ss_summaries := butlast (ss_summaries s) @ [g (last (ss_summaries s))]\<rparr>))"

text \<open>The inner loops: three time stamps and their closing tag, and priorities up to a closing tag.\<close>

definition three_stamps :: "octets \<Rightarrow> nat \<Rightarrow> (date_time option list \<times> nat) result" where
  "three_stamps octets position =
     rbind (read_time_stamp_choice octets position) (\<lambda>(a, position).
     rbind (read_time_stamp_choice octets position) (\<lambda>(b, position).
     rbind (read_time_stamp_choice octets position) (\<lambda>(c, position). Inr ([a, b, c], position))))"

function priorities_until_close :: "octets \<Rightarrow> nat \<Rightarrow> (int list \<times> nat) result" where
  "priorities_until_close octets position =
     rbind (read_tag octets position) (\<lambda>t.
     if tag_kind t = Close then Inr ([], tag_next t)
     else rbind (priorities_until_close octets (tag_next t)) (\<lambda>(ps, after). Inr (from_bytes (tag_body t) # ps, after)))"
  by pat_completeness auto
termination
  by (relation "measure (\<lambda>(octets, position). length octets - position)") (auto dest: read_tag_progress)

declare priorities_until_close.simps [simp del]

text \<open>One turn of the loop: the state and the position it leaves.\<close>

definition summary_turn :: "octets \<Rightarrow> tag \<Rightarrow> summary_state \<Rightarrow> (summary_state \<times> nat) result" where
  "summary_turn octets t s =
     (let here = (\<lambda>r. rbind r (\<lambda>s'. Inr (s', tag_next t)));
          primitive = (tag_kind t = Value \<and> tag_context t) in
      if \<not> ss_in_list s then here (Inr (
        if tag_kind t = Open \<and> tag_number t = 0 then s\<lparr>ss_in_list := True\<rparr>
        else if primitive \<and> tag_number t = 1 then s\<lparr>ss_more_events := Some (from_bytes (tag_body t) \<noteq> 0)\<rparr>
        else s))
      else if tag_kind t = Close \<and> tag_number t = 0 then here (Inr (s\<lparr>ss_in_list := False\<rparr>))
      else if primitive \<and> tag_number t = 0 then here (
        rbind (object_identifier (tag_body t)) (\<lambda>i.
        Inr (s\<lparr>ss_summaries := ss_summaries s @ [\<lparr>su_object = i, su_event_state = None, su_acked_transitions = None,
          su_time_stamps = None, su_notify_type = None, su_event_enable = None, su_priorities = None\<rparr>]\<rparr>)))
      else if primitive \<and> tag_number t = 1 then
        here (set_current (\<lambda>c. c\<lparr>su_event_state := Some (from_bytes (tag_body t))\<rparr>) s)
      else if primitive \<and> tag_number t = 2 then here (
        rbind (bits (tag_body t)) (\<lambda>b. set_current (\<lambda>c. c\<lparr>su_acked_transitions := Some b\<rparr>) s))
      else if primitive \<and> tag_number t = 5 then here (
        rbind (bits (tag_body t)) (\<lambda>b. set_current (\<lambda>c. c\<lparr>su_event_enable := Some b\<rparr>) s))
      else if tag_kind t = Open \<and> tag_number t = 3 then
        rbind (three_stamps octets (tag_next t)) (\<lambda>(stamps, position).
        rbind (set_current (\<lambda>c. c\<lparr>su_time_stamps := Some stamps\<rparr>) s) (\<lambda>s'.
        rbind (read_tag octets position) (\<lambda>e. Inr (s', tag_next e))))
      else if primitive \<and> tag_number t = 4 then
        here (set_current (\<lambda>c. c\<lparr>su_notify_type := Some (from_bytes (tag_body t))\<rparr>) s)
      else if tag_kind t = Open \<and> tag_number t = 6 then
        rbind (priorities_until_close octets (tag_next t)) (\<lambda>(ps, position).
        rbind (set_current (\<lambda>c. c\<lparr>su_priorities := Some ps\<rparr>) s) (\<lambda>s'. Inr (s', position)))
      else here (Inr s))"

lemma three_stamps_progress: "three_stamps octets p = Inr (ts, q) \<Longrightarrow> p < q"
  by (fastforce simp: three_stamps_def rbind_eq_Inr dest!: read_time_stamp_choice_progress)

lemma priorities_progress: "priorities_until_close octets p = Inr (ps, q) \<Longrightarrow> p < q"
proof (induction octets p arbitrary: ps q rule: priorities_until_close.induct)
  case (1 octets p)
  from "1.prems" obtain t where t: "read_tag octets p = Inr t"
    by (subst (asm) priorities_until_close.simps) (auto simp: rbind_eq_Inr)
  with "1.prems" "1.IH" [OF t] read_tag_progress [OF t] show ?case
    by (fastforce simp: priorities_until_close.simps [of octets p] rbind_eq_Inr split: if_splits)
qed

lemma summary_turn_progress:
  assumes "summary_turn octets t s = Inr (s', q)"
  shows "tag_next t \<le> q"
  using assms unfolding summary_turn_def Let_def
  by (auto simp: rbind_eq_Inr split: if_split_asm
      dest!: three_stamps_progress priorities_progress read_tag_progress)

function summaries_loop :: "octets \<Rightarrow> nat \<Rightarrow> summary_state \<Rightarrow> summary_state result" where
  "summaries_loop octets position s =
     (if position < length octets then
        rbind (read_tag octets position) (\<lambda>t.
        rbind (summary_turn octets t s) (\<lambda>(s', after). summaries_loop octets after s'))
      else Inr s)"
  by pat_completeness auto
termination
  by (relation "measure (\<lambda>(octets, position, s). length octets - position)")
    (fastforce dest: read_tag_progress summary_turn_progress)+

declare summaries_loop.simps [simp del]

definition parse_event_summaries :: "octets \<Rightarrow> (summary list \<times> bool option) result" where
  "parse_event_summaries apdu =
     rbind (summaries_loop (drop 3 apdu) 0 \<lparr>ss_summaries = [], ss_more_events = None, ss_in_list = False\<rparr>) (\<lambda>s.
     Inr (ss_summaries s, ss_more_events s))"

section \<open>A notification comes back\<close>

lemma object_identifier_oid [simp]: "object_range ot i \<Longrightarrow> object_identifier (oid ot i) = Inr (ot, i)"
  by (simp add: object_identifier_def)

lemma notification_value:
  assumes "0 \<le> t" "t < 15" "length b < 65536"
  shows "notification_loop (pre @ ctx_prim t b @ suf) (length pre) n =
    rbind (notification_field t b n) (notification_loop ((pre @ ctx_prim t b) @ suf) (length (pre @ ctx_prim t b)))"
  using is_tag_nonempty [OF is_tag_ctx_prim [OF assms]]
  by (subst notification_loop.simps) (simp add: read_tag_at [OF is_tag_ctx_prim [OF assms]])

lemma notification_skip:
  assumes "balanced v" "0 \<le> t" "t < 15" "t \<noteq> 3"
  shows "notification_loop (pre @ enclosed t v @ suf) (length pre) n =
    notification_loop ((pre @ enclosed t v) @ suf) (length (pre @ enclosed t v)) n"
  using close_of_enclosed(1,3) [OF assms(1-3), of pre suf] assms(4)
  by (subst notification_loop.simps) (simp add: skip_constructed_def enclosed_def open_prim_def)

definition stamp_octets :: "date_time \<Rightarrow> octets" where
  "stamp_octets stamp = (case stamp of (d, t) \<Rightarrow> enclosed 2 (app_prim 10 d @ app_prim 11 t))"

lemma notification_stamp:
  assumes "length d = 4" "length t = 4"
  shows "notification_loop (pre @ enclosed 3 (stamp_octets (d, t)) @ suf) (length pre) n =
    notification_loop ((pre @ enclosed 3 (stamp_octets (d, t))) @ suf)
      (length (pre @ enclosed 3 (stamp_octets (d, t)))) (n\<lparr>en_time_stamp := Some (d, t)\<rparr>)"
proof -
  let ?a = "pre @ open_prim 3" let ?b = "?a @ open_prim 2" let ?d = "app_prim 10 d" let ?t = "app_prim 11 t"
  let ?all = "?b @ ?d @ ?t @ close_prim 2 @ close_prim 3 @ suf"
  have d: "is_tag ?d 10 False Value d" and t: "is_tag ?t 11 False Value t"
    using assms by (simp_all add: is_tag_app_prim)
  have r: "read_tag ?all (length pre) = Inr \<lparr>tag_number = 3, tag_context = True, tag_kind = Open, tag_body = [], tag_next = length ?a\<rparr>"
    "read_tag ?all (length ?a) = Inr \<lparr>tag_number = 2, tag_context = True, tag_kind = Open, tag_body = [], tag_next = length ?b\<rparr>"
    "read_tag ?all (length ?b) = Inr \<lparr>tag_number = 10, tag_context = False, tag_kind = Value, tag_body = d, tag_next = length (?b @ ?d)\<rparr>"
    "read_tag ?all (length (?b @ ?d)) = Inr \<lparr>tag_number = 11, tag_context = False, tag_kind = Value, tag_body = t, tag_next = length (?b @ ?d @ ?t)\<rparr>"
    "read_tag ?all (length (?b @ ?d @ ?t)) = Inr \<lparr>tag_number = 2, tag_context = True, tag_kind = Close, tag_body = [], tag_next = length (?b @ ?d @ ?t @ close_prim 2)\<rparr>"
    "read_tag ?all (length (?b @ ?d @ ?t @ close_prim 2)) = Inr \<lparr>tag_number = 3, tag_context = True, tag_kind = Close, tag_body = [], tag_next = length (?b @ ?d @ ?t @ close_prim 2 @ close_prim 3)\<rparr>"
    using read_tag_at [OF is_tag_open_prim [of 3], of pre "open_prim 2 @ ?d @ ?t @ close_prim 2 @ close_prim 3 @ suf"]
      read_tag_at [OF is_tag_open_prim [of 2], of ?a "?d @ ?t @ close_prim 2 @ close_prim 3 @ suf"]
      read_tag_at [OF d, of ?b "?t @ close_prim 2 @ close_prim 3 @ suf"]
      read_tag_at [OF t, of "?b @ ?d" "close_prim 2 @ close_prim 3 @ suf"]
      read_tag_at [OF is_tag_close_prim [of 2], of "?b @ ?d @ ?t" "close_prim 3 @ suf"]
      read_tag_at [OF is_tag_close_prim [of 3], of "?b @ ?d @ ?t @ close_prim 2" suf]
    by (simp_all add: add.assoc)
  have "read_time_stamp_choice ?all (length ?a) = Inr (Some (d, t), length (?b @ ?d @ ?t @ close_prim 2))"
    unfolding read_time_stamp_choice_def by (simp only: r rbind_Inr tag.simps) simp
  then have "read_time_stamp ?all (length ?a) = Inr (Some (d, t), length (?b @ ?d @ ?t @ close_prim 2 @ close_prim 3))"
    unfolding read_time_stamp_def by (simp only: r(6) rbind_Inr tag.simps prod.case)
  moreover have "length pre < length ?all" by (simp add: open_prim_def)
  ultimately have "notification_loop ?all (length pre) n =
      notification_loop ?all (length (?b @ ?d @ ?t @ close_prim 2 @ close_prim 3)) (n\<lparr>en_time_stamp := Some (d, t)\<rparr>)"
    by (subst notification_loop.simps) (simp only: r(1) if_True rbind_Inr tag.simps prod.case simp_thms)
  then show ?thesis by (simp add: stamp_octets_def enclosed_def add.assoc)
qed

text \<open>A run of primitives is a fold over their numbers and bodies.\<close>

fun notification_fold :: "(int \<times> octets) list \<Rightarrow> notification \<Rightarrow> notification result" where
  "notification_fold [] n = Inr n"
| "notification_fold ((t, b) # fs) n = rbind (notification_field t b n) (notification_fold fs)"

lemma notification_run:
  assumes "list_all (\<lambda>(t, b). 0 \<le> t \<and> t < 15 \<and> length b < 65536) fs" and "notification_fold fs n = Inr n'"
  shows "notification_loop (pre @ ctx_run fs @ suf) (length pre) n =
    notification_loop ((pre @ ctx_run fs) @ suf) (length (pre @ ctx_run fs)) n'"
  using assms
proof (induction fs arbitrary: pre n)
  case Nil
  then show ?case by simp
next
  case (Cons f fs)
  obtain t b where f: "f = (t, b)" by (cases f)
  then obtain m where m: "notification_field t b n = Inr m" "notification_fold fs m = Inr n'"
    using Cons.prems(2) by (auto simp: rbind_eq_Inr)
  have "0 \<le> t" "t < 15" "length b < 65536" using Cons.prems(1) f by auto
  from notification_value [OF this, of pre "ctx_run fs @ suf" n] Cons.IH [OF _ m(2), of "pre @ ctx_prim t b"] Cons.prems(1) m(1) f
  show ?case by simp
qed

lemma notification_end: "notification_loop data (length data) n = Inr n"
  by (subst notification_loop.simps) simp

text \<open>The arguments an event notification can carry.\<close>

definition event_fits :: "int \<Rightarrow> object_ref \<Rightarrow> int \<Rightarrow> event_args \<Rightarrow> bool" where
  "event_fits dev obj to_state a \<longleftrightarrow>
     object_range OBJECT_TYPE_DEVICE dev \<and> (case obj of (ot, i) \<Rightarrow> object_range ot i) \<and> unsigned32 to_state \<and>
     unsigned32 (ea_from_state a) \<and> unsigned8 (ea_invoke_id a) \<and> unsigned32 (ea_process_identifier a) \<and>
     unsigned32 (ea_notification_class a) \<and> unsigned32 (ea_priority a) \<and> unsigned32 (ea_notify_type a) \<and>
     (case ea_message_text a of None \<Rightarrow> True | Some t \<Rightarrow> short_text t) \<and>
     (case ea_time_stamp a of (y, m, d, w, h, mi, s) \<Rightarrow>
        unsigned8 (y - 1900) \<and> unsigned8 m \<and> unsigned8 d \<and> unsigned8 w \<and> unsigned8 h \<and> unsigned8 mi \<and> unsigned8 s) \<and>
     is_real32 (ea_exceeding_value a) \<and> is_real32 (ea_exceeded_limit a)"

definition stamp_of :: "event_args \<Rightarrow> date_time" where
  "stamp_of a = projr (event_stamp (ea_time_stamp a))"

lemma event_stamp_eq:
  assumes "event_fits dev obj to_state a"
  shows "event_stamp (ea_time_stamp a) = Inr (stamp_of a)" "length (fst (stamp_of a)) = 4" "length (snd (stamp_of a)) = 4"
  using assms
  by (auto simp: event_fits_def stamp_of_def event_stamp_def application_date_def application_time_def py_bytes_def
      split: prod.splits)

definition fields_before :: "int \<Rightarrow> object_ref \<Rightarrow> event_args \<Rightarrow> (int \<times> octets) list" where
  "fields_before dev obj a = [(0, u_octets (ea_process_identifier a)), (1, oid OBJECT_TYPE_DEVICE dev),
     (2, oid (fst obj) (snd obj))]"

definition fields_after :: "int \<Rightarrow> event_args \<Rightarrow> (int \<times> octets) list" where
  "fields_after to_state a = [(4, u_octets (ea_notification_class a)), (5, u_octets (ea_priority a)),
     (6, u_octets EVENT_TYPE_OUT_OF_RANGE)] @
     (case ea_message_text a of None \<Rightarrow> [] | Some t \<Rightarrow> [(7, projr (text_body t))]) @
     [(8, u_octets (ea_notify_type a))] @
     (if ea_notify_type a \<noteq> NOTIFY_TYPE_ACK_NOTIFICATION
      then [(9, [of_bool (ea_ack_required a)]), (10, u_octets (ea_from_state a))] else []) @
     [(11, u_octets to_state)]"

definition value_part :: "int \<Rightarrow> event_args \<Rightarrow> octets" where
  "value_part to_state a =
     (if ea_notify_type a \<noteq> NOTIFY_TYPE_ACK_NOTIFICATION
      then enclosed 12 (enclosed 5 (ctx_run [(0, real_octets (ea_exceeding_value a)),
        (1, bit_body [to_state \<noteq> EVENT_STATE_NORMAL, False, False, False]), (2, real_octets 0x3FF0000000000000),
        (3, real_octets (ea_exceeded_limit a))]))
      else [])"

lemma is_real32_one: "is_real32 0x3FF0000000000000"
  by code_simp

lemma balanced_ctx_run: "list_all (\<lambda>(t, b). 0 \<le> t \<and> t < 15 \<and> length b < 65536) fs \<Longrightarrow> balanced (ctx_run fs)"
  by (induction fs) (auto intro!: balanced_append balanced_ctx_prim)

lemma balanced_enclosed: "0 \<le> t \<Longrightarrow> t < 15 \<Longrightarrow> balanced v \<Longrightarrow> balanced (enclosed t v)"
  unfolding enclosed_def by (rule balanced_open_close)

lemma context_date_time_eq:
  assumes "length d = 4" "length t = 4"
  shows "context_date_time 3 (d, t) = Inr (enclosed 3 (stamp_octets (d, t)))"
  using assms
  by (simp add: context_date_time_def opening_tag_eq closing_tag_eq py_bytes_def stamp_octets_def enclosed_def
      app_prim_def length_octets_def)

lemma event_values_eq:
  assumes "event_fits dev obj to_state a"
  shows "cat (event_values to_state a) = Inr (ctx_run ((if ea_notify_type a \<noteq> NOTIFY_TYPE_ACK_NOTIFICATION
      then [(9, [of_bool (ea_ack_required a)]), (10, u_octets (ea_from_state a))] else []) @ [(11, u_octets to_state)]) @
      value_part to_state a)"
proof -
  have r: "is_real32 (ea_exceeding_value a)" "is_real32 (ea_exceeded_limit a)" "unsigned32 to_state" "unsigned32 (ea_from_state a)"
    using assms by (auto simp: event_fits_def)
  note real = context_real_eq [OF _ _ pack_f_real32(1,2)]
  show ?thesis
    using r by (simp add: event_values_def value_part_def enclosed_def opening_tag_eq closing_tag_eq context_boolean_eq
        context_enumerated_eq context_bit_string_eq real is_real32_one)
qed

definition event_parameters :: "int \<Rightarrow> object_ref \<Rightarrow> int \<Rightarrow> event_args \<Rightarrow> octets" where
  "event_parameters dev obj to_state a =
     ctx_run (fields_before dev obj a) @ enclosed 3 (stamp_octets (stamp_of a)) @ ctx_run (fields_after to_state a) @
     value_part to_state a"

definition event_head :: "event_args \<Rightarrow> octets" where
  "event_head a = (if ea_confirmed a then [0, 5, octet_of (ea_invoke_id a), 2] else [0x10, 3])"

lemma event_notification_eq:
  assumes fits: "event_fits dev obj to_state a"
  shows "event_notification dev obj to_state a = Inr (event_head a @ event_parameters dev obj to_state a)"
proof -
  note stamp = event_stamp_eq [OF fits]
  have dt: "context_date_time 3 (stamp_of a) = Inr (enclosed 3 (stamp_octets (stamp_of a)))"
    using context_date_time_eq [OF stamp(2,3)] by simp
  have msg: "cat (case ea_message_text a of None \<Rightarrow> [] | Some t \<Rightarrow> [context_character_string 7 t]) =
      Inr (ctx_run (case ea_message_text a of None \<Rightarrow> [] | Some t \<Rightarrow> [(7, projr (text_body t))]))"
    using fits short_text_body(1) [of _ 7] by (auto simp: event_fits_def split: option.splits)
  have params: "cat ([context_unsigned 0 (ea_process_identifier a), context_object_id 1 OBJECT_TYPE_DEVICE dev,
        (case obj of (ot, i) \<Rightarrow> context_object_id 2 ot i), context_date_time 3 (stamp_of a),
        context_unsigned 4 (ea_notification_class a), context_unsigned 5 (ea_priority a),
        context_enumerated 6 EVENT_TYPE_OUT_OF_RANGE] @
       (case ea_message_text a of None \<Rightarrow> [] | Some t \<Rightarrow> [context_character_string 7 t]) @
       [context_enumerated 8 (ea_notify_type a)] @ event_values to_state a) = Inr (event_parameters dev obj to_state a)"
    using fits
    by (cases obj) (simp add: cat_append msg event_values_eq [OF fits] dt context_unsigned_eq context_enumerated_eq
        context_object_id_eq event_fits_def event_parameters_def fields_before_def fields_after_def)
  have "unsigned8 (ea_invoke_id a)" using fits by (simp add: event_fits_def)
  then show ?thesis
    unfolding event_notification_def stamp(1) rbind_Inr params
    by (simp add: event_head_def confirmed_request_eq push_bit_eq_mult py_bytes_def octet_of_def)
qed

text \<open>What the decoder makes of it.\<close>

definition decoded_event :: "int \<Rightarrow> object_ref \<Rightarrow> int \<Rightarrow> event_args \<Rightarrow> frame \<Rightarrow> notification" where
  "decoded_event dev obj to_state a f =
     (let ack = (ea_notify_type a = NOTIFY_TYPE_ACK_NOTIFICATION) in
      \<lparr>en_frame = f, en_confirmed = ea_confirmed a,
       en_invoke_id = (if ea_confirmed a then Some (ea_invoke_id a) else None),
       en_process_identifier = Some (ea_process_identifier a), en_initiating_device = Some (OBJECT_TYPE_DEVICE, dev),
       en_event_object = Some obj, en_time_stamp = Some (stamp_of a),
       en_notification_class = Some (ea_notification_class a), en_priority = Some (ea_priority a),
       en_event_type = Some EVENT_TYPE_OUT_OF_RANGE, en_notify_type = Some (ea_notify_type a),
       en_ack_required = (if ack then None else Some (ea_ack_required a)),
       en_from_state = (if ack then None else Some (ea_from_state a)), en_to_state = Some to_state\<rparr>)"

lemma fields_fit:
  assumes "event_fits dev obj to_state a"
  shows "list_all (\<lambda>(t, b). 0 \<le> t \<and> t < 15 \<and> length b < 65536) (fields_before dev obj a)"
    and "list_all (\<lambda>(t, b). 0 \<le> t \<and> t < 15 \<and> length b < 65536) (fields_after to_state a)"
  using assms short_text_body(2) [of _ 7]
  by (fastforce simp: fields_before_def fields_after_def event_fits_def small_body split: option.splits)+

lemma EventNotification_event:
  assumes fits: "event_fits dev obj to_state a" and pl: "event_notification dev obj to_state a = Inr (payload f)"
    and "network_message f = None"
  shows "EventNotification f = Inr (decoded_event dev obj to_state a f)"
proof -
  let ?b = "fields_before dev obj a" and ?c = "fields_after to_state a" and ?s = "enclosed 3 (stamp_octets (stamp_of a))"
  let ?v = "value_part to_state a"
  have p: "payload f = event_head a @ event_parameters dev obj to_state a"
    using pl event_notification_eq [OF fits] by simp
  have iid: "unsigned8 (ea_invoke_id a)" using fits by (simp add: event_fits_def)
  have t: "pdu_type f = Some PDU_CONFIRMED_REQUEST \<longleftrightarrow> ea_confirmed a"
    using assms(3) by (simp add: pdu_type_def p event_head_def drop_bit_eq_div)
  have i: "invoke_id f = Inr (Some (ea_invoke_id a))" if "ea_confirmed a"
    using that t iid by (auto simp: invoke_id_def p event_head_def uint_octet_of)
  have rest: "drop (if ea_confirmed a then 4 else 2) (payload f) = event_parameters dev obj to_state a"
    by (simp add: p event_head_def)
  define n0 where "n0 = \<lparr>en_frame = f, en_confirmed = ea_confirmed a,
     en_invoke_id = (if ea_confirmed a then Some (ea_invoke_id a) else None), en_process_identifier = None,
     en_initiating_device = None, en_event_object = None, en_time_stamp = None,
     en_notification_class = None, en_priority = None, en_event_type = None, en_notify_type = None,
     en_ack_required = None, en_from_state = None, en_to_state = None\<rparr>"
  define n1 where "n1 = n0\<lparr>en_process_identifier := Some (ea_process_identifier a),
     en_initiating_device := Some (OBJECT_TYPE_DEVICE, dev), en_event_object := Some obj\<rparr>"
  have 1: "notification_fold ?b n0 = Inr n1"
    using fits by (cases obj) (simp add: fields_before_def notification_field_def n1_def event_fits_def)
  have 2: "notification_fold ?c (n1\<lparr>en_time_stamp := Some (stamp_of a)\<rparr>) = Inr (decoded_event dev obj to_state a f)"
    using fits
    by (cases "ea_message_text a") (auto simp: fields_after_def notification_field_def n1_def n0_def event_fits_def decoded_event_def)
  have 3: "notification_loop (pre @ ?v) (length pre) m = Inr m" for pre m
  proof -
    have v: "balanced (enclosed 5 (ctx_run [(0, real_octets (ea_exceeding_value a)),
        (1, bit_body [to_state \<noteq> EVENT_STATE_NORMAL, False, False, False]), (2, real_octets 0x3FF0000000000000),
        (3, real_octets (ea_exceeded_limit a))]))"
      using fits pack_f_real32(2) is_real32_one
      by (intro balanced_enclosed balanced_ctx_run) (auto simp: event_fits_def bit_body_length)
    show ?thesis
      using notification_skip [OF v, of 12 pre "[]" m] notification_end [of "pre @ ?v" m]
      by (auto simp: value_part_def notification_end)
  qed
  have "notification_loop (event_parameters dev obj to_state a) 0 n0 = Inr (decoded_event dev obj to_state a f)"
    using notification_run [OF fields_fit(1) [OF fits] 1, of "[]" "?s @ ctx_run ?c @ ?v"]
      notification_stamp [OF event_stamp_eq(2,3) [OF fits], of "ctx_run ?b" "ctx_run ?c @ ?v" n1]
      notification_run [OF fields_fit(2) [OF fits] 2, of "ctx_run ?b @ ?s" ?v]
      3 [of "ctx_run ?b @ ?s @ ctx_run ?c" "decoded_event dev obj to_state a f"]
    by (simp add: event_parameters_def)
  with t i rest show ?thesis
    by (auto simp: EventNotification_def Let_def n0_def)
qed

section \<open>Claims\<close>

text \<open>C24: An event notification, confirmed or not, is recognised as one and decodes to the process,
  device, object, time stamp, class, priority, states and acknowledgement flag it was made with.\<close>
theorem event_roundtrip:
  assumes "event_fits dev obj to_state a"
  shows "\<exists>apdu. event_notification dev obj to_state a = Inr apdu \<and> (\<forall>f. payload f = apdu \<and> network_message f = None \<longrightarrow>
    is_event_notification f = Inr True \<and> EventNotification f = Inr (decoded_event dev obj to_state a f))"
proof (intro exI conjI allI impI)
  show e: "event_notification dev obj to_state a = Inr (event_head a @ event_parameters dev obj to_state a)"
    by (rule event_notification_eq [OF assms])
  fix f :: frame
  assume f: "payload f = event_head a @ event_parameters dev obj to_state a \<and> network_message f = None"
  then show "EventNotification f = Inr (decoded_event dev obj to_state a f)"
    using EventNotification_event [OF assms] e by simp
  have "pdu_type f = Some (if ea_confirmed a then PDU_CONFIRMED_REQUEST else PDU_UNCONFIRMED_REQUEST)"
    using f by (auto simp: pdu_type_def event_head_def drop_bit_eq_div)
  with f show "is_event_notification f = Inr True"
    by (auto simp: is_event_notification_def service_def event_head_def event_parameters_def enclosed_def open_prim_def)
qed

theorem event_roundtrip_witness:
  "\<exists>n. EventNotification (example_frame (event_notification 8001 (0, 1) 3 event_defaults)) = Inr n \<and>
    en_to_state n = Some 3 \<and> en_event_object n = Some (0, 1) \<and> en_initiating_device n = Some (8, 8001) \<and> \<not> en_confirmed n"
proof -
  let ?f = "example_frame (event_notification 8001 (0, 1) 3 event_defaults)"
  have "event_fits 8001 (0, 1) 3 event_defaults" by code_simp
  moreover have "event_notification 8001 (0, 1) 3 event_defaults = Inr (payload ?f)" "network_message ?f = None" by code_simp+
  ultimately have "EventNotification ?f = Inr (decoded_event 8001 (0, 1) 3 event_defaults ?f)"
    using event_roundtrip [of 8001 "(0, 1)" 3 event_defaults] by auto
  then show ?thesis by (simp add: decoded_event_def event_defaults_def)
qed

end
