(* ===== verification/Client.thy ===== *)
theory Client
  imports Endpoint Alarm
begin

text \<open>
  \<^verbatim>\<open>src/wiretest/client.py\<close>: what came back for a confirmed request (\<open>Answer\<close>), the retry
  loop every client shares, the confirmed-service calls, and \<open>Client\<close>, an endpoint that numbers
  its invoke ids and waits for the answer with the matching one. The locale \<open>retrying\<close> is the
  contract of one attempt; the clients of the harness provide it.
\<close>

section \<open>Answers\<close>

type_synonym answer = "frame option"

definition answered :: "answer \<Rightarrow> bool" where
  "answered a \<longleftrightarrow> a \<noteq> None"

definition answer_ok :: "answer \<Rightarrow> bool" where
  "answer_ok a = (case a of None \<Rightarrow> False | Some f \<Rightarrow> pdu_type f \<in> Some ` {PDU_COMPLEX_ACK, PDU_SIMPLE_ACK})"

definition acked :: "answer \<Rightarrow> bool" where
  "acked a = (case a of None \<Rightarrow> False | Some f \<Rightarrow> pdu_type f = Some PDU_SIMPLE_ACK)"

definition value_octets :: "answer \<Rightarrow> octets option result" where
  "value_octets a = (case a of
     None \<Rightarrow> Inr None
   | Some f \<Rightarrow> if pdu_type f \<noteq> Some PDU_COMPLEX_ACK then Inr None else read_property_value (payload f))"

definition answer_value :: "answer \<Rightarrow> py_value result" where
  "answer_value a =
     rbind (value_octets a) (\<lambda>v. case v of None \<Rightarrow> Inr PyNone | Some octets \<Rightarrow> decode_application octets)"

definition answer_error :: "answer \<Rightarrow> (int \<times> int) option result" where
  "answer_error a = (case a of
     None \<Rightarrow> Inr None
   | Some f \<Rightarrow> if pdu_type f \<noteq> Some PDU_ERROR then Inr None else error_class_and_code (payload f))"

definition reason_of :: "int \<Rightarrow> answer \<Rightarrow> int option" where
  "reason_of pdu a = (case a of
     None \<Rightarrow> None
   | Some f \<Rightarrow> if pdu_type f \<noteq> Some pdu \<or> length (payload f) < 3 then None else Some (uint (payload f ! 2)))"

definition reject_reason :: "answer \<Rightarrow> int option" where
  "reject_reason = reason_of PDU_REJECT"

definition abort_reason :: "answer \<Rightarrow> int option" where
  "abort_reason = reason_of PDU_ABORT"

section \<open>Retries\<close>

text \<open>\<open>for attempt_number in range(1 + retries)\<close>, for the number of attempts left.\<close>

fun attempts_left :: "('s, 'a option) exec \<Rightarrow> nat \<Rightarrow> ('s, 'a option) exec" where
  "attempts_left attempt 0 = eret None"
| "attempts_left attempt (Suc n) =
     ebind attempt (\<lambda>frame. if frame \<noteq> None then eret frame else attempts_left attempt n)"

definition send_with_retries :: "(int \<Rightarrow> ('s, answer) exec) \<Rightarrow> int \<Rightarrow> int \<Rightarrow> ('s, answer) exec" where
  "send_with_retries attempt retries timeout = attempts_left (attempt timeout) (nat (1 + retries))"

text \<open>One attempt: it puts the same datagram on the wire once, and what it returns answers the request.\<close>

locale retrying =
  fixes attempt :: "('s, 'a option) exec"
    and trace :: "'s \<Rightarrow> datagram list"
    and request :: datagram
    and matches :: "'a \<Rightarrow> bool"
  assumes attempt_sends: "attempt s = (r, s') \<Longrightarrow> trace s' = trace s @ [request]"
    and attempt_matches: "attempt s = (Inr (Some f), s') \<Longrightarrow> matches f"
begin

lemma attempts_trace:
  assumes "attempts_left attempt n s = (r, s')"
  shows "\<exists>k \<le> n. trace s' = trace s @ replicate k request \<and> (r = Inr None \<longrightarrow> k = n) \<and> (0 < n \<longrightarrow> 0 < k)"
  using assms
proof (induction n arbitrary: s)
  case 0
  then show ?case by simp
next
  case (Suc n)
  obtain q t where q: "attempt s = (q, t)" by (metis surj_pair)
  note t = attempt_sends [OF q]
  show ?case
  proof (cases "q = Inr None")
    case True
    with Suc.prems q have "attempts_left attempt n t = (r, s')" by simp
    from Suc.IH [OF this] obtain k where "k \<le> n" "trace s' = trace t @ replicate k request" "r = Inr None \<longrightarrow> k = n"
      by blast
    with t show ?thesis by (intro exI [of _ "Suc k"]) (simp add: replicate_append_same)
  next
    case False
    with Suc.prems q have "s' = t \<and> r = q" by (cases q) (auto simp: ebind_def)
    with t False show ?thesis by (intro exI [of _ 1]) auto
  qed
qed

lemma attempts_match: "attempts_left attempt n s = (Inr (Some f), s') \<Longrightarrow> matches f"
proof (induction n arbitrary: s)
  case (Suc n)
  then show ?case by (auto elim!: ebind_InrE split: if_splits dest: attempt_matches)
qed simp

end

section \<open>The client\<close>

record 'w client = "'w endpoint" +
  client_invoke_id :: int
  client_retries :: int
  client_timeout :: int

text \<open>\<open>__init__\<close>, on the socket it opens.\<close>

definition Client :: "'w endpoint \<Rightarrow> int \<Rightarrow> int \<Rightarrow> 'w client" where
  "Client e retries timeout = endpoint.extend (endpoint.truncate e)
     \<lparr>client_invoke_id = 0, client_retries = retries, client_timeout = timeout\<rparr>"

definition next_invoke_id :: "('w client, int) exec" where
  "next_invoke_id =
     ebind (emodify (\<lambda>c. c\<lparr>client_invoke_id := (client_invoke_id c + 1) mod 256\<rparr>)) (\<lambda>_. eget client_invoke_id)"

definition client_attempt :: "'w network \<Rightarrow> octets \<Rightarrow> address \<Rightarrow> int \<Rightarrow> int \<Rightarrow> ('w client, answer) exec" where
  "client_attempt net octets target iid duration =
     ebind (ep_send net octets target) (\<lambda>_. wait_for (is_answer_to iid) duration)"

definition client_request ::
  "'w network \<Rightarrow> (int \<Rightarrow> octets result) \<Rightarrow> address \<Rightarrow> int option \<Rightarrow> octets \<Rightarrow> int option \<Rightarrow> ('w client, answer) exec" where
  "client_request net build_apdu target to_dnet to_dadr timeout =
     ebind next_invoke_id (\<lambda>iid.
     ebind (emodify (\<lambda>c. c\<lparr>ep_frames := []\<rparr>)) (\<lambda>_.
     ebind (elift (rbind (build_apdu iid) (\<lambda>apdu.
       rbind (npdu apdu (npdu_defaults\<lparr>arg_dnet := to_dnet, arg_dadr := to_dadr, arg_expecting_reply := True\<rparr>))
         (\<lambda>n. bvlc n False)))) (\<lambda>octets.
     ebind (eget (\<lambda>c. (client_retries c, case timeout of None \<Rightarrow> client_timeout c | Some t \<Rightarrow> t))) (\<lambda>(retries, duration).
     send_with_retries (client_attempt net octets target iid) retries duration))))"

definition client_who_is_attempt :: "'w network \<Rightarrow> int \<Rightarrow> address \<Rightarrow> int \<Rightarrow> ('w client, answer) exec" where
  "client_who_is_attempt net instance_number target duration =
     ebind (emodify (\<lambda>c. c\<lparr>ep_frames := []\<rparr>)) (\<lambda>_.
     ebind (elift (rbind (who_is (Some instance_number) (Some instance_number)) (\<lambda>apdu.
       rbind (npdu apdu npdu_defaults) (\<lambda>n. bvlc n False)))) (\<lambda>octets.
     ebind (ep_send net octets target) (\<lambda>_.
     wait_for (\<lambda>f. rbind (i_am_device_instance (payload f)) (\<lambda>d. Inr (d = Some instance_number))) duration)))"

definition client_who_is :: "'w network \<Rightarrow> int \<Rightarrow> address \<Rightarrow> int option \<Rightarrow> int option \<Rightarrow> ('w client, answer) exec" where
  "client_who_is net instance_number target attempts timeout =
     ebind (eget (\<lambda>c. (case attempts of None \<Rightarrow> 1 + client_retries c | Some n \<Rightarrow> n,
                       case timeout of None \<Rightarrow> client_timeout c | Some t \<Rightarrow> t))) (\<lambda>(n, duration).
     attempts_left (client_who_is_attempt net instance_number target duration) (nat n))"

text \<open>The calls of \<open>ConfirmedServices\<close>, for whichever class's \<open>request\<close>.\<close>

definition read_property_call :: "((int \<Rightarrow> octets result) \<Rightarrow> 'r) \<Rightarrow> int \<Rightarrow> int \<Rightarrow> int \<Rightarrow> int option \<Rightarrow> 'r" where
  "read_property_call request object_type instance_number property_identifier array_index =
     request (\<lambda>iid. read_property_request iid object_type instance_number property_identifier array_index)"

definition write_property_call ::
  "((int \<Rightarrow> octets result) \<Rightarrow> 'r) \<Rightarrow> int \<Rightarrow> int \<Rightarrow> int \<Rightarrow> octets \<Rightarrow> int option \<Rightarrow> int option \<Rightarrow> 'r" where
  "write_property_call request object_type instance_number property_identifier v priority array_index =
     request (\<lambda>iid. write_property_request iid object_type instance_number property_identifier v priority array_index)"

definition device_communication_control_call ::
  "((int \<Rightarrow> octets result) \<Rightarrow> 'r) \<Rightarrow> int \<Rightarrow> pystr option \<Rightarrow> int option \<Rightarrow> 'r" where
  "device_communication_control_call request enable_disable password minutes =
     request (\<lambda>iid. device_communication_control_request iid enable_disable password minutes)"

section \<open>What a request does\<close>

lemma client_attempt_eq:
  "client_attempt net octets target iid duration s =
     wait_until_match (is_answer_to iid) (clock s + duration) 0 (after_send net (octets, target) s)"
  by (simp add: client_attempt_def ep_send_def wait_for_def)

lemma client_attempt_sends:
  assumes "client_attempt net octets target iid duration s = (r, s')"
  shows "sent s' = sent s @ [(octets, target)]"
  using wait_until_match_result [OF assms [unfolded client_attempt_eq]] by simp

lemma client_attempt_matches:
  assumes "client_attempt net octets target iid duration s = (Inr (Some f), s')"
  shows "frame_ok f \<and> is_answer_to iid f = Inr True"
  using wait_until_match_result [OF assms [unfolded client_attempt_eq], of f] by simp

interpretation client_retry: retrying "client_attempt net octets target iid duration" sent "(octets, target)"
  "\<lambda>f. frame_ok f \<and> is_answer_to iid f = Inr True"
  by unfold_locales (auto dest: client_attempt_sends client_attempt_matches)

lemma keeps_attempts [keeps_intros]: "keeps P attempt \<Longrightarrow> keeps P (attempts_left attempt n)"
  by (induction n) (auto intro!: keeps_intros)

lemma client_attempt_keeps [keeps_intros]:
  "keeps (\<lambda>c. endpoint.more c = m) (client_attempt net octets target iid duration)"
  unfolding keeps_def client_attempt_eq
proof (intro allI impI)
  fix c :: "'a client"
  assume "endpoint.more c = m"
  then show "endpoint.more (snd (wait_until_match (is_answer_to iid) (clock c + duration) 0 (after_send net (octets, target) c))) = m"
    using wait_until_match_result [of "is_answer_to iid" "clock c + duration" 0 "after_send net (octets, target) c"]
    by (cases "wait_until_match (is_answer_to iid) (clock c + duration) 0 (after_send net (octets, target) c)") simp
qed

lemma client_more_fields:
  assumes "endpoint.more (c :: 'w client) = endpoint.more d"
  shows "client_invoke_id c = client_invoke_id d" "client_retries c = client_retries d" "client_timeout c = client_timeout d"
  using assms by (cases c; cases d; simp)+

text \<open>The datagram of a request, and the request as its attempts.\<close>

definition request_octets :: "(int \<Rightarrow> octets result) \<Rightarrow> int option \<Rightarrow> octets \<Rightarrow> int \<Rightarrow> octets result" where
  "request_octets build_apdu to_dnet to_dadr iid = rbind (build_apdu iid) (\<lambda>apdu.
     rbind (npdu apdu (npdu_defaults\<lparr>arg_dnet := to_dnet, arg_dadr := to_dadr, arg_expecting_reply := True\<rparr>))
       (\<lambda>n. bvlc n False))"

definition next_id :: "'w client \<Rightarrow> int" where
  "next_id c = (client_invoke_id c + 1) mod 256"

definition request_start :: "'w client \<Rightarrow> 'w client" where
  "request_start c = c\<lparr>client_invoke_id := next_id c, ep_frames := []\<rparr>"

lemma client_request_eq:
  assumes "request_octets build to_dnet to_dadr (next_id c) = Inr octets"
  shows "client_request net build target to_dnet to_dadr timeout c =
    attempts_left (client_attempt net octets target (next_id c)
      (case timeout of None \<Rightarrow> client_timeout c | Some t \<Rightarrow> t)) (nat (1 + client_retries c)) (request_start c)"
  using assms
  by (cases timeout)
    (simp_all add: client_request_def next_invoke_id_def request_octets_def next_id_def request_start_def
      send_with_retries_def)

lemma client_request_invoke_id:
  assumes "request_octets build to_dnet to_dadr (next_id c) = Inr octets"
    and "client_request net build target to_dnet to_dadr timeout c = (r, c')"
  shows "client_invoke_id c' = next_id c"
proof -
  have "keeps (\<lambda>d. endpoint.more d = endpoint.more (request_start c)) (attempts_left (client_attempt net octets target (next_id c)
      (case timeout of None \<Rightarrow> client_timeout c | Some t \<Rightarrow> t)) (nat (1 + client_retries c)))"
    by (intro keeps_intros)
  from keeps_run [OF this, of "request_start c"] have "endpoint.more c' = endpoint.more (request_start c)"
    using assms(2) client_request_eq [OF assms(1)] by (metis snd_conv)
  from client_more_fields(1) [OF this] show ?thesis by (simp add: request_start_def)
qed

text \<open>
  An answer in time: with one attempt and an empty inbox, a network that answers the request with
  a matching datagram within the timeout makes the request return that frame.
\<close>

lemma client_request_answered:
  assumes o: "request_octets build to_dnet to_dadr (next_id c) = Inr octets"
    and c: "0 \<le> client_retries c" "inbox c = []" "0 < client_timeout c"
    and n: "fst (net (world c) (octets, target)) = [(delay, Datagram data source)]" "delay \<le> client_timeout c"
    and f: "Frame (recvfrom 2048 data) source = Inr f" "frame_ok f" "is_answer_to (next_id c) f = Inr True"
  shows "\<exists>c'. client_request net build target to_dnet to_dadr None c = (Inr (Some f), c') \<and>
    world c' = snd (net (world c) (octets, target)) \<and> inbox c' = [] \<and> sent c' = sent c @ [(octets, target)] \<and>
    client_invoke_id c' = next_id c \<and> client_retries c' = client_retries c \<and> client_timeout c' = client_timeout c"
proof -
  let ?s = "after_send net (octets, target) (request_start c)"
  have "\<exists>s'. wait_until_match (is_answer_to (next_id c)) (clock c + client_timeout c) 0 ?s = (Inr (Some f), s') \<and> inbox s' = []"
    using c n f by (intro wait_until_match_delivers [where q = "[]" and rest = "[]" and t = "clock c + delay"
          and data = data and source = source]) (simp_all add: request_start_def deliver_def)
  then obtain s' where w: "wait_until_match (is_answer_to (next_id c)) (clock c + client_timeout c) 0 ?s = (Inr (Some f), s')"
    and i: "inbox s' = []" by blast
  from w have a: "client_attempt net octets target (next_id c) (client_timeout c) (request_start c) = (Inr (Some f), s')"
    by (simp add: client_attempt_eq request_start_def)
  obtain k where "nat (1 + client_retries c) = Suc k" using c(1) by (metis Suc_nat_eq_nat_zadd1 add.commute)
  then have "client_request net build target to_dnet to_dadr None c = (Inr (Some f), s')"
    using client_request_eq [OF o, of net target None] a by simp
  moreover from wait_until_match_result [OF w] have "sent s' = sent c @ [(octets, target)]"
    "world s' = snd (net (world c) (octets, target))" and m: "endpoint.more s' = endpoint.more (request_start c)"
    by (simp_all add: request_start_def)
  moreover from client_more_fields [OF m] have "client_invoke_id s' = next_id c" "client_retries s' = client_retries c"
    "client_timeout s' = client_timeout c" by (simp_all add: request_start_def)
  ultimately show ?thesis using i by blast
qed

text \<open>The ids of \<open>n\<close> successive requests.\<close>

fun invoke_ids :: "nat \<Rightarrow> 'w client \<Rightarrow> int list" where
  "invoke_ids 0 c = []"
| "invoke_ids (Suc n) c = (case next_invoke_id c of (Inr i, c') \<Rightarrow> i # invoke_ids n c' | (Inl _, _) \<Rightarrow> [])"

lemma next_invoke_id_eq: "next_invoke_id c = (Inr (next_id c), c\<lparr>client_invoke_id := next_id c\<rparr>)"
  by (simp add: next_invoke_id_def next_id_def)

lemma invoke_ids_eq: "invoke_ids n c = map (\<lambda>k. (client_invoke_id c + 1 + int k) mod 256) [0..<n]"
proof (induction n arbitrary: c)
  case (Suc n)
  have "map (\<lambda>k. (next_id c + 1 + int k) mod 256) [0..<n] = map (\<lambda>k. (client_invoke_id c + 1 + int k) mod 256) (map Suc [0..<n])"
    by (simp add: next_id_def) (intro ballI, simp add: mod_simps add.assoc, simp add: add.left_commute)
  with Suc show ?case
    by (simp add: next_invoke_id_eq upt_conv_Cons map_Suc_upt next_id_def del: upt_Suc)
qed simp

section \<open>Claims\<close>

text \<open>C13: A client request puts the same datagram on the wire at least once and at most once per attempt,
  exactly that often when nobody answers; the frame it returns is a well-formed answer to the invoke
  id of this request, and the next request starts from that id.\<close>
theorem client_request_sends:
  assumes "request_octets build to_dnet to_dadr (next_id c) = Inr octets" and "0 \<le> client_retries c"
    and "client_request net build target to_dnet to_dadr timeout c = (r, c')"
  shows "\<exists>k. 1 \<le> k \<and> k \<le> nat (1 + client_retries c) \<and> sent c' = sent c @ replicate k (octets, target) \<and>
    (r = Inr None \<longrightarrow> k = nat (1 + client_retries c)) \<and> client_invoke_id c' = next_id c \<and>
    (\<forall>f. r = Inr (Some f) \<longrightarrow> frame_ok f \<and> is_answer_to (next_id c) f = Inr True)"
proof -
  let ?duration = "case timeout of None \<Rightarrow> client_timeout c | Some t \<Rightarrow> t"
  have a: "attempts_left (client_attempt net octets target (next_id c) ?duration) (nat (1 + client_retries c)) (request_start c) = (r, c')"
    using assms(3) client_request_eq [OF assms(1)] by simp
  from client_retry.attempts_trace [OF a] obtain k where "k \<le> nat (1 + client_retries c)"
    "sent c' = sent c @ replicate k (octets, target)" "r = Inr None \<longrightarrow> k = nat (1 + client_retries c)" "0 < k"
    using assms(2) by (auto simp: request_start_def)
  moreover have "frame_ok f \<and> is_answer_to (next_id c) f = Inr True" if "r = Inr (Some f)" for f
    using client_retry.attempts_match a that by blast
  ultimately show ?thesis using client_request_invoke_id [OF assms(1,3)] by (intro exI [of _ k]) auto
qed

theorem client_request_sends_witness:
  "\<exists>octets. sent (snd (client_request (\<lambda>w _. ([], w)) (\<lambda>iid. read_property_request iid 8 9 77 None) ([127], 5) None [] None
      \<lparr>clock = 0, inbox = [], sent = [], world = (), ep_frames = [], client_invoke_id = 255, client_retries = 0, client_timeout = 500\<rparr>))
    = [(octets, ([127], 5))]"
proof -
  let ?c = "\<lparr>clock = 0, inbox = [], sent = [], world = (), ep_frames = [], client_invoke_id = 255, client_retries = 0, client_timeout = 500\<rparr>"
  let ?build = "\<lambda>iid. read_property_request iid 8 9 77 None"
  obtain r c' where r: "client_request (\<lambda>w _. ([], w)) ?build ([127], 5) None [] None ?c = (r, c')" by (metis surj_pair)
  have "request_octets ?build None [] (next_id ?c) = Inr (projr (request_octets ?build None [] (next_id ?c)))" by code_simp
  from client_request_sends [OF this _ r] obtain k where
    "1 \<le> k" "k \<le> 1" "sent c' = replicate k (projr (request_octets ?build None [] (next_id ?c)), ([127], 5))" by auto
  then have "sent c' = [(projr (request_octets ?build None [] (next_id ?c)), ([127], 5))]" by (cases k) auto
  with r show ?thesis by simp
qed

text \<open>Up to 256 successive requests of a client carry distinct invoke ids, each of which fits an
  octet.\<close>
theorem invoke_ids_distinct:
  assumes "n \<le> 256"
  shows "length (invoke_ids n c) = n \<and> distinct (invoke_ids n c) \<and> set (invoke_ids n c) \<subseteq> {0..<256}"
proof -
  have "inj_on (\<lambda>k. (client_invoke_id c + 1 + int k) mod 256) {0..<n}"
  proof (rule inj_onI)
    fix j k assume "j \<in> {0..<n}" "k \<in> {0..<n}"
      and e: "(client_invoke_id c + 1 + int j) mod 256 = (client_invoke_id c + 1 + int k) mod 256"
    then have "j < 256" "k < 256" using assms by auto
    moreover have "256 dvd (client_invoke_id c + 1 + int j) - (client_invoke_id c + 1 + int k)"
      using e by (rule mod_eq_dvd_iff [THEN iffD1])
    then have "256 dvd int j - int k" by simp
    then obtain q where "int j - int k = 256 * q" by (rule dvdE)
    moreover from this \<open>j < 256\<close> \<open>k < 256\<close> have "q = 0" by linarith
    ultimately show "j = k" by simp
  qed
  then show ?thesis by (auto simp: invoke_ids_eq distinct_map)
qed

theorem invoke_ids_distinct_witness:
  "distinct (invoke_ids 200 \<lparr>clock = 0, inbox = [], sent = [], world = (), ep_frames = [], client_invoke_id = 254,
     client_retries = 0, client_timeout = 500\<rparr>)"
  using invoke_ids_distinct [of 200 "\<lparr>clock = 0, inbox = [], sent = [], world = (), ep_frames = [], client_invoke_id = 254,
     client_retries = 0, client_timeout = 500\<rparr>"] by simp

text \<open>C19: A ReadProperty ComplexACK of any encodable primitive is an answer whose value is the encoded
  value, under the invoke id and service it was made for.\<close>
theorem read_answer_roundtrip:
  assumes "primitive_fits x" "unsigned8 iid" "object_range ot i" "unsigned32 p" "network_message f = None"
    and "rbind (encode_primitive x) (read_property_ack iid ot i p) = Inr (payload f)"
  shows "answer_ok (Some f) \<and> answer_value (Some f) = Inr (primitive_value x) \<and> invoke_id f = Inr (Some iid) \<and>
    service f = Inr (Some SERVICE_READ_PROPERTY)"
proof -
  from encode_primitive_tag [OF assms(1)] obtain c n b where c: "encode_primitive x = Inr c" "is_tag c n False Value b"
    "decode_body n b = Inr (primitive_value x)" by auto
  have ack: "read_property_ack iid ot i p c = Inr (payload f)" using assms(6) c(1) by simp
  then have pl: "payload f = [0x30, octet_of iid, 12] @ property_head ot i p @ enclosed 3 c"
    using read_property_ack_eq [OF assms(2-4)] by simp
  then have t: "pdu_type f = Some PDU_COMPLEX_ACK" using assms(5) by (simp add: pdu_type_def drop_bit_eq_div)
  have v: "read_property_value (payload f) = Inr (Some c)"
    using read_property_value_roundtrip [OF assms(2-4) balanced_value [OF c(2)]] ack by simp
  have d: "decode_application c = Inr (primitive_value x)"
    using decode_application_tag(1) [OF c(2), of "[]"] c(3) by simp
  show ?thesis
    using assms(2) t v d pl
    by (simp add: answer_ok_def answer_value_def value_octets_def invoke_id_def service_def uint_octet_of)
qed

theorem read_answer_roundtrip_witness:
  "answer_value (Some (example_frame (rbind (encode_primitive (Text_value [0x41, 0xE9])) (read_property_ack 3 8 9 77)))) =
    Inr (PyStr [0x41, 0xE9])"
proof -
  let ?f = "example_frame (rbind (encode_primitive (Text_value [0x41, 0xE9])) (read_property_ack 3 8 9 77))"
  have "primitive_fits (Text_value [0x41, 0xE9])" "network_message ?f = None"
    "rbind (encode_primitive (Text_value [0x41, 0xE9])) (read_property_ack 3 8 9 77) = Inr (payload ?f)"
    by code_simp+
  with read_answer_roundtrip [of "Text_value [0x41, 0xE9]" 3 8 9 77 ?f] show ?thesis by simp
qed

text \<open>An Error PDU is an answer that is not ok, with the error class, the error code and the invoke
  id it was made with.\<close>
theorem error_roundtrip:
  assumes "unsigned8 iid" "unsigned8 srv" "unsigned32 c" "unsigned32 d" "network_message f = None"
    and "error_pdu iid srv c d = Inr (payload f)"
  shows "answer_error (Some f) = Inr (Some (c, d)) \<and> \<not> answer_ok (Some f) \<and> invoke_id f = Inr (Some iid)"
proof -
  have pl: "payload f = [0x50, octet_of iid, octet_of srv] @ app_prim 9 (u_octets c) @ app_prim 9 (u_octets d)"
    using error_pdu_eq [OF assms(1-4)] assms(6) by simp
  then have "pdu_type f = Some PDU_ERROR" using assms(5) by (simp add: pdu_type_def drop_bit_eq_div)
  with error_class_and_code_roundtrip [OF assms(1-4)] assms(1,6) pl show ?thesis
    by (auto simp: answer_error_def answer_ok_def invoke_id_def uint_octet_of)
qed

theorem error_roundtrip_witness:
  "answer_error (Some (example_frame (error_pdu 9 15 2 40))) = Inr (Some (2, 40))"
proof -
  have "network_message (example_frame (error_pdu 9 15 2 40)) = None"
    "error_pdu 9 15 2 40 = Inr (payload (example_frame (error_pdu 9 15 2 40)))" by code_simp+
  from error_roundtrip [OF _ _ _ _ this] show ?thesis by simp
qed

end
