(* ===== verification/Services.thy ===== *)
theory Services
  imports Client
begin

text \<open>
  \<^verbatim>\<open>src/wiretest/services.py\<close>: the confirmed services beyond ReadProperty and WriteProperty.
  Request encoders, the decoders of their ComplexACKs (which take the \<open>answer\<close> of the request and
  give \<open>None\<close> unless it is the ComplexACK they decode), and the constructed values a test writes
  and reads. A \<open>dict\<close> with a fixed set of keys is a record of optional fields.
\<close>

section \<open>Numbers\<close>

abbreviation (input) SERVICE_ATOMIC_READ_FILE :: int where "SERVICE_ATOMIC_READ_FILE \<equiv> 6"
abbreviation (input) SERVICE_ATOMIC_WRITE_FILE :: int where "SERVICE_ATOMIC_WRITE_FILE \<equiv> 7"
abbreviation (input) SERVICE_CREATE_OBJECT :: int where "SERVICE_CREATE_OBJECT \<equiv> 10"
abbreviation (input) SERVICE_DELETE_OBJECT :: int where "SERVICE_DELETE_OBJECT \<equiv> 11"
abbreviation (input) SERVICE_READ_RANGE :: int where "SERVICE_READ_RANGE \<equiv> 26"
abbreviation (input) SERVICE_LIFE_SAFETY_OPERATION :: int where "SERVICE_LIFE_SAFETY_OPERATION \<equiv> 27"
abbreviation (input) SERVICE_SUBSCRIBE_COV_PROPERTY_MULTIPLE :: int where "SERVICE_SUBSCRIBE_COV_PROPERTY_MULTIPLE \<equiv> 30"
abbreviation (input) SERVICE_CONFIRMED_COV_NOTIFICATION_MULTIPLE :: int where "SERVICE_CONFIRMED_COV_NOTIFICATION_MULTIPLE \<equiv> 31"
abbreviation (input) SERVICE_UNCONFIRMED_COV_NOTIFICATION_MULTIPLE :: int where "SERVICE_UNCONFIRMED_COV_NOTIFICATION_MULTIPLE \<equiv> 11"

section \<open>Helpers\<close>

definition complex_ack :: "answer \<Rightarrow> int option \<Rightarrow> octets option result" where
  "complex_ack a choice = (case a of
     None \<Rightarrow> Inr None
   | Some f \<Rightarrow>
       if pdu_type f \<noteq> Some PDU_COMPLEX_ACK then Inr None
       else (case choice of
         None \<Rightarrow> Inr (Some (payload f))
       | Some c \<Rightarrow> rbind (service f) (\<lambda>s. Inr (if s \<noteq> Some c then None else Some (payload f)))))"

definition constructed_end :: "octets \<Rightarrow> nat \<Rightarrow> nat result" where
  "constructed_end octets position = rbind (close_of octets 1 position) (\<lambda>(_, after). Inr after)"

definition constructed_body :: "octets \<Rightarrow> nat \<Rightarrow> (octets \<times> nat) result" where
  "constructed_body octets position =
     rbind (close_of octets 1 position) (\<lambda>(tag_start, after). Inr (py_slice octets position tag_start, after))"

lemma constructed_end_progress: "constructed_end octets p = Inr q \<Longrightarrow> p < q"
  by (auto simp: constructed_end_def rbind_eq_Inr dest: close_of_progress)

lemma constructed_body_progress: "constructed_body octets p = Inr (b, q) \<Longrightarrow> p < q"
  by (auto simp: constructed_body_def rbind_eq_Inr dest: close_of_progress)

section \<open>ReadPropertyMultiple\<close>

definition read_property_multiple_request :: "int \<Rightarrow> (int \<times> int \<times> reference list) list \<Rightarrow> octets result" where
  "read_property_multiple_request iid specifications =
     rbind (cat (map (\<lambda>(ot, i, references). read_access_specification ot i references) specifications))
       (confirmed_request iid SERVICE_READ_PROPERTY_MULTIPLE)"

text \<open>The call of \<open>ConfirmedServices\<close>, for whichever class's \<open>request\<close>.\<close>

definition read_property_multiple_call ::
  "((int \<Rightarrow> octets result) \<Rightarrow> 'r) \<Rightarrow> (int \<times> int \<times> reference list) list \<Rightarrow> 'r" where
  "read_property_multiple_call request specifications =
     request (\<lambda>iid. read_property_multiple_request iid specifications)"

text \<open>One result: the value octets, or \<open>("error", class, code)\<close> with the integers that were there.\<close>

datatype rpm_result = Rpm_value octets | Rpm_error "int list"

text \<open>A property reference of the ACK; the identifier is \<open>None\<close> before any [2] was seen.\<close>

type_synonym rpm_reference = "int option \<times> int option"
type_synonym rpm_results = "(object_ref \<times> (rpm_reference \<times> rpm_result) list) list"

record rpm_state =
  rpm_results :: rpm_results
  rpm_current :: "object_ref option"
  rpm_property :: "int option"
  rpm_index :: "int option"

definition rpm_store :: "rpm_result \<Rightarrow> rpm_state \<Rightarrow> rpm_state" where
  "rpm_store r s = (case rpm_current s of
     None \<Rightarrow> s
   | Some key \<Rightarrow> s\<lparr>rpm_results := AList.map_entry key (AList.update (rpm_property s, rpm_index s) r) (rpm_results s)\<rparr>)"

definition set_default :: "'k \<Rightarrow> 'v \<Rightarrow> ('k \<times> 'v) list \<Rightarrow> ('k \<times> 'v) list" where
  "set_default k v d = (case map_of d k of None \<Rightarrow> d @ [(k, v)] | Some _ \<Rightarrow> d)"

function rpm_loop :: "octets \<Rightarrow> nat \<Rightarrow> rpm_state \<Rightarrow> rpm_state result" where
  "rpm_loop apdu position s =
     (if position < length apdu then
        rbind (read_tag apdu position) (\<lambda>t.
        if tag_kind t = Value \<and> tag_context t \<and> tag_number t = 0 then
          rbind (object_identifier (tag_body t)) (\<lambda>key.
          rpm_loop apdu (tag_next t) (s\<lparr>rpm_results := set_default key [] (rpm_results s), rpm_current := Some key\<rparr>))
        else if tag_kind t = Value \<and> tag_context t \<and> tag_number t = 2 then
          rpm_loop apdu (tag_next t) (s\<lparr>rpm_property := Some (from_bytes (tag_body t)), rpm_index := None\<rparr>)
        else if tag_kind t = Value \<and> tag_context t \<and> tag_number t = 3 then
          rpm_loop apdu (tag_next t) (s\<lparr>rpm_index := Some (from_bytes (tag_body t))\<rparr>)
        else if tag_kind t = Open \<and> (tag_number t = 4 \<or> tag_number t = 5) \<and> rpm_current s \<noteq> None then
          rbind (constructed_body apdu (tag_next t)) (\<lambda>(inner, position).
          if tag_number t = 4 then rpm_loop apdu position (rpm_store (Rpm_value inner) s)
          else rbind (application_values inner) (\<lambda>values.
               rpm_loop apdu position (rpm_store (Rpm_error (map (\<lambda>v. from_bytes (snd v)) (take 2 values))) s)))
        else rpm_loop apdu (tag_next t) s)
      else Inr s)"
  by pat_completeness auto
termination
  by (relation "measure (\<lambda>(apdu, position, s). length apdu - position)")
    (fastforce dest: read_tag_progress constructed_body_progress)+

declare rpm_loop.simps [simp del]

definition parse_read_property_multiple_ack :: "answer \<Rightarrow> rpm_results option result" where
  "parse_read_property_multiple_ack a =
     rbind (complex_ack a (Some SERVICE_READ_PROPERTY_MULTIPLE)) (\<lambda>ack. case ack of
       None \<Rightarrow> Inr None
     | Some apdu \<Rightarrow> except_none (
         rbind (rpm_loop apdu 3 \<lparr>rpm_results = [], rpm_current = None, rpm_property = None, rpm_index = None\<rparr>)
           (\<lambda>s. Inr (Some (rpm_results s)))))"

definition decode_result :: "rpm_result option \<Rightarrow> (py_value + int list) result" where
  "decode_result r = (case r of
     None \<Rightarrow> Inr (Inl PyNone)
   | Some (Rpm_error e) \<Rightarrow> Inr (Inr e)
   | Some (Rpm_value octets) \<Rightarrow> rbind (decode_application octets) (\<lambda>v. Inr (Inl v)))"

section \<open>ReadRange and Event Log records\<close>

definition read_range_request :: "int \<Rightarrow> int \<Rightarrow> int \<Rightarrow> int \<Rightarrow> int option \<Rightarrow> int option \<Rightarrow> octets result" where
  "read_range_request iid object_type instance_number property_identifier reference_index item_limit =
     rbind (cat ([context_object_id 0 object_type instance_number, context_unsigned 1 property_identifier] @
       (case reference_index of None \<Rightarrow> []
        | Some reference \<Rightarrow>
            [opening_tag 3, application_unsigned reference, rbind (needed item_limit) application_signed, closing_tag 3])))
       (confirmed_request iid SERVICE_READ_RANGE)"

record range_ack =
  result_flags :: "py_value option"
  item_count :: "int option"
  item_data :: octets

function range_loop :: "octets \<Rightarrow> nat \<Rightarrow> range_ack \<Rightarrow> range_ack result" where
  "range_loop apdu position r =
     (if position < length apdu then
        rbind (read_tag apdu position) (\<lambda>t.
        if tag_context t \<and> tag_kind t = Value \<and> tag_number t = 3 then
          rbind (cat [py_bytes [0x80 OR int (length (tag_body t))], Inr (tag_body t)]) (\<lambda>b.
          rbind (decode_application b) (\<lambda>v. range_loop apdu (tag_next t) (r\<lparr>result_flags := Some v\<rparr>)))
        else if tag_context t \<and> tag_kind t = Value \<and> tag_number t = 4 then
          range_loop apdu (tag_next t) (r\<lparr>item_count := Some (from_bytes (tag_body t))\<rparr>)
        else if tag_context t \<and> tag_kind t = Open \<and> tag_number t = 5 then
          rbind (constructed_body apdu (tag_next t)) (\<lambda>(inner, after). range_loop apdu after (r\<lparr>item_data := inner\<rparr>))
        else if tag_kind t = Open then
          rbind (constructed_end apdu (tag_next t)) (\<lambda>after. range_loop apdu after r)
        else range_loop apdu (tag_next t) r)
      else Inr r)"
  by pat_completeness auto
termination
  by (relation "measure (\<lambda>(apdu, position, r). length apdu - position)")
    (fastforce dest: read_tag_progress constructed_body_progress constructed_end_progress)+

declare range_loop.simps [simp del]

definition parse_read_range_ack :: "answer \<Rightarrow> range_ack option result" where
  "parse_read_range_ack a =
     rbind (complex_ack a (Some SERVICE_READ_RANGE)) (\<lambda>ack. case ack of
       None \<Rightarrow> Inr None
     | Some apdu \<Rightarrow> except_none (
         rbind (range_loop apdu 3 \<lparr>result_flags = None, item_count = None, item_data = []\<rparr>) (\<lambda>r. Inr (Some r))))"

function notification_fields_from :: "octets \<Rightarrow> nat \<Rightarrow> (int \<times> octets) list \<Rightarrow> (int \<times> octets) list result" where
  "notification_fields_from octets position seen =
     (if position < length octets then
        rbind (read_tag octets position) (\<lambda>t.
        if tag_kind t = Open then
          rbind (constructed_end octets (tag_next t)) (\<lambda>after. notification_fields_from octets after seen)
        else if tag_context t \<and> tag_kind t = Value then
          notification_fields_from octets (tag_next t) (AList.update (tag_number t) (tag_body t) seen)
        else notification_fields_from octets (tag_next t) seen)
      else Inr seen)"
  by pat_completeness auto
termination
  by (relation "measure (\<lambda>(octets, position, seen). length octets - position)")
    (fastforce dest: read_tag_progress constructed_end_progress)+

declare notification_fields_from.simps [simp del]

definition notification_fields :: "octets \<Rightarrow> (int \<times> octets) list result" where
  "notification_fields octets = notification_fields_from octets 0 []"

datatype log_datum =
    Log_status octets
  | Log_notification octets int "object_ref option" "object_ref option" "int option" "int option"
  | Log_time_change

record log_record =
  log_timestamp :: octets
  log_datum :: log_datum

definition log_notification :: "octets \<Rightarrow> log_datum result" where
  "log_notification octets =
     rbind (notification_fields octets) (\<lambda>seen.
     rbind (case map_of seen 1 of None \<Rightarrow> Inr None | Some b \<Rightarrow> rbind (object_identifier b) (\<lambda>i. Inr (Some i))) (\<lambda>dev.
     rbind (case map_of seen 2 of None \<Rightarrow> Inr None | Some b \<Rightarrow> rbind (object_identifier b) (\<lambda>i. Inr (Some i))) (\<lambda>obj.
     Inr (Log_notification octets (case map_of seen 0 of None \<Rightarrow> 0 | Some b \<Rightarrow> from_bytes b) dev obj
       (map_option from_bytes (map_of seen 10)) (map_option from_bytes (map_of seen 11))))))"

text \<open>The record at a position, and the position after it; \<open>None\<close> where the loop breaks.\<close>

definition event_log_record :: "octets \<Rightarrow> nat \<Rightarrow> (log_record \<times> nat) option result" where
  "event_log_record data position =
     rbind (read_tag data position) (\<lambda>t.
     if \<not> (tag_context t \<and> tag_number t = 0 \<and> tag_kind t = Open) then Inr None
     else
     rbind (constructed_end data (tag_next t)) (\<lambda>after.
     rbind (read_tag data after) (\<lambda>opn.
     rbind (read_tag data (tag_next opn)) (\<lambda>c.
     rbind (if tag_number c = 0 \<and> tag_kind c = Value then Inr (Log_status (tag_body c), tag_next c)
            else if tag_number c = 1 \<and> tag_kind c = Open then
              rbind (constructed_end data (tag_next c)) (\<lambda>e.
              rbind (log_notification (py_slice data (tag_next c) e)) (\<lambda>d. Inr (d, e)))
            else Inr (Log_time_change, tag_next c)) (\<lambda>(datum, position).
     rbind (read_tag data position) (\<lambda>cls.
     Inr (Some (\<lparr>log_timestamp = py_slice data (tag_next t) after, log_datum = datum\<rparr>, tag_next cls))))))))"

lemma event_log_record_progress: "event_log_record data p = Inr (Some (r, q)) \<Longrightarrow> p < q \<and> p < length data"
  by (fastforce simp: event_log_record_def rbind_eq_Inr split: if_splits
      dest: read_tag_progress constructed_end_progress)

function event_log_records_from :: "octets \<Rightarrow> nat \<Rightarrow> log_record list result" where
  "event_log_records_from data position =
     (if position < length data then
        rbind (event_log_record data position) (\<lambda>r. case r of
          None \<Rightarrow> Inr []
        | Some (entry, after) \<Rightarrow> rbind (event_log_records_from data after) (\<lambda>rest. Inr (entry # rest)))
      else Inr [])"
  by pat_completeness auto
termination
  by (relation "measure (\<lambda>(data, position). length data - position)") (auto dest: event_log_record_progress)

declare event_log_records_from.simps [simp del]

definition event_log_records :: "octets \<Rightarrow> log_record list result" where
  "event_log_records data = event_log_records_from data 0"

section \<open>Objects and files\<close>

definition create_object_request :: "int \<Rightarrow> int \<Rightarrow> int option \<Rightarrow> (int \<times> octets) list \<Rightarrow> octets result" where
  "create_object_request iid object_type instance_option initial_values =
     rbind (case instance_option of None \<Rightarrow> context_unsigned 0 object_type
            | Some i \<Rightarrow> context_object_id 1 object_type i) (\<lambda>specifier.
     rbind (cat ([opening_tag 0, Inr specifier, closing_tag 0] @
       (if initial_values \<noteq> [] then
          [opening_tag 1] @
          concat (map (\<lambda>(p, v). [context_unsigned 0 p, opening_tag 2, Inr v, closing_tag 2]) initial_values) @
          [closing_tag 1]
        else [])))
       (confirmed_request iid SERVICE_CREATE_OBJECT))"

definition created_object_identifier :: "answer \<Rightarrow> object_ref option result" where
  "created_object_identifier a =
     rbind (complex_ack a None) (\<lambda>ack. case ack of
       None \<Rightarrow> Inr None
     | Some apdu \<Rightarrow> rbind (decode_application (drop 3 apdu)) (\<lambda>v.
         Inr (case v of PyObject ot i \<Rightarrow> Some (ot, i) | _ \<Rightarrow> None)))"

definition delete_object_request :: "int \<Rightarrow> int \<Rightarrow> int \<Rightarrow> octets result" where
  "delete_object_request iid object_type instance_number =
     rbind (application_object_id object_type instance_number) (confirmed_request iid SERVICE_DELETE_OBJECT)"

definition atomic_read_file_request :: "int \<Rightarrow> int \<Rightarrow> int \<Rightarrow> int \<Rightarrow> octets result" where
  "atomic_read_file_request iid file_instance start requested_count =
     rbind (cat [application_object_id OBJECT_TYPE_FILE file_instance, opening_tag 0, application_signed start,
                 application_unsigned requested_count, closing_tag 0])
       (confirmed_request iid SERVICE_ATOMIC_READ_FILE)"

definition parse_atomic_read_file_ack :: "answer \<Rightarrow> (bool \<times> int \<times> octets) option result" where
  "parse_atomic_read_file_ack a =
     rbind (complex_ack a None) (\<lambda>ack. case ack of
       None \<Rightarrow> Inr None
     | Some apdu \<Rightarrow> except_none (
         rbind (read_tag apdu 3) (\<lambda>eof.
         rbind (read_tag apdu (tag_next eof)) (\<lambda>opn.
         if \<not> (tag_context opn \<and> tag_number opn = 0 \<and> tag_kind opn = Open) then Inr None
         else
         rbind (read_tag apdu (tag_next opn)) (\<lambda>start.
         rbind (read_tag apdu (tag_next start)) (\<lambda>data.
         rbind (index (tag_body eof) 0) (\<lambda>e.
         Inr (Some (e \<noteq> 0, from_bytes_signed (tag_body start), tag_body data)))))))))"

definition atomic_write_file_request :: "int \<Rightarrow> int \<Rightarrow> int \<Rightarrow> octets \<Rightarrow> octets result" where
  "atomic_write_file_request iid file_instance start data =
     rbind (cat [application_object_id OBJECT_TYPE_FILE file_instance, opening_tag 0, application_signed start,
                 application_octet_string data, closing_tag 0])
       (confirmed_request iid SERVICE_ATOMIC_WRITE_FILE)"

definition parse_atomic_write_file_ack :: "answer \<Rightarrow> int option result" where
  "parse_atomic_write_file_ack a =
     rbind (complex_ack a None) (\<lambda>ack. case ack of
       None \<Rightarrow> Inr None
     | Some apdu \<Rightarrow> rbind (read_tag apdu 3) (\<lambda>t.
         Inr (if \<not> (tag_context t \<and> tag_number t = 0 \<and> tag_kind t = Value) then None
              else Some (from_bytes_signed (tag_body t)))))"

section \<open>Change of value\<close>

definition subscribe_cov_property_multiple_request ::
  "int \<Rightarrow> int \<Rightarrow> bool \<Rightarrow> int option \<Rightarrow> (int \<times> int \<times> int list) list \<Rightarrow> int \<Rightarrow> octets result" where
  "subscribe_cov_property_multiple_request iid process_identifier confirmed lifetime specifications max_notification_delay =
     rbind (cat ([context_unsigned 0 process_identifier, context_boolean 1 confirmed] @
       (case lifetime of None \<Rightarrow> [] | Some l \<Rightarrow> [context_unsigned 2 l, context_unsigned 3 max_notification_delay]) @
       [opening_tag 4] @
       concat (map (\<lambda>(ot, i, ps). [context_object_id 0 ot i, opening_tag 1] @
         concat (map (\<lambda>p. [opening_tag 0, context_unsigned 0 p, closing_tag 0, context_boolean 2 False]) ps) @
         [closing_tag 1]) specifications) @
       [closing_tag 4]))
       (confirmed_request iid SERVICE_SUBSCRIBE_COV_PROPERTY_MULTIPLE)"

definition is_cov_notification_multiple :: "frame \<Rightarrow> bool result" where
  "is_cov_notification_multiple f =
     rbind (is_service f PDU_UNCONFIRMED_REQUEST SERVICE_UNCONFIRMED_COV_NOTIFICATION_MULTIPLE) (\<lambda>u.
     if u then Inr True else is_service f PDU_CONFIRMED_REQUEST SERVICE_CONFIRMED_COV_NOTIFICATION_MULTIPLE)"

type_synonym cov_value = "object_ref option \<times> int option \<times> int option \<times> octets"

record cov =
  cov_frame :: frame
  cov_confirmed :: bool
  cov_process_identifier :: "int option"
  cov_initiating_device :: "object_ref option"
  cov_time_remaining :: "int option"
  cov_values :: "cov_value list"

text \<open>The local variables of the constructor's loop.\<close>

record cov_state =
  cs_cov :: cov
  cs_depth :: int
  cs_monitored :: "object_ref option"
  cs_property :: "int option"
  cs_index :: "int option"

definition cov_field :: "int \<Rightarrow> octets \<Rightarrow> cov_state \<Rightarrow> cov_state result" where
  "cov_field number body s =
     (if cs_depth s = 0 \<and> number = 0 then Inr (s\<lparr>cs_cov := (cs_cov s)\<lparr>cov_process_identifier := Some (from_bytes body)\<rparr>\<rparr>)
      else if cs_depth s = 0 \<and> number = 1 then
        rbind (object_identifier body) (\<lambda>i. Inr (s\<lparr>cs_cov := (cs_cov s)\<lparr>cov_initiating_device := Some i\<rparr>\<rparr>))
      else if cs_depth s = 0 \<and> number = 2 then Inr (s\<lparr>cs_cov := (cs_cov s)\<lparr>cov_time_remaining := Some (from_bytes body)\<rparr>\<rparr>)
      else if cs_depth s = 1 \<and> number = 0 then
        rbind (object_identifier body) (\<lambda>i. Inr (s\<lparr>cs_monitored := Some i\<rparr>))
      else if cs_depth s = 2 \<and> number = 0 then Inr (s\<lparr>cs_property := Some (from_bytes body)\<rparr>)
      else if cs_depth s = 2 \<and> number = 1 then Inr (s\<lparr>cs_index := Some (from_bytes body)\<rparr>)
      else Inr s)"

function cov_loop :: "octets \<Rightarrow> nat \<Rightarrow> cov_state \<Rightarrow> cov_state result" where
  "cov_loop octets position s =
     (if position < length octets then
        rbind (read_tag octets position) (\<lambda>t.
        if tag_kind t = Open \<and> cs_depth s = 2 \<and> tag_number t = 2 then
          rbind (constructed_body octets (tag_next t)) (\<lambda>(v, after).
          cov_loop octets after (s\<lparr>cs_cov := (cs_cov s)\<lparr>cov_values :=
            cov_values (cs_cov s) @ [(cs_monitored s, cs_property s, cs_index s, v)]\<rparr>, cs_index := None\<rparr>))
        else if tag_kind t = Open then cov_loop octets (tag_next t) (s\<lparr>cs_depth := cs_depth s + 1\<rparr>)
        else if tag_kind t = Close then cov_loop octets (tag_next t) (s\<lparr>cs_depth := cs_depth s - 1\<rparr>)
        else if \<not> tag_context t then cov_loop octets (tag_next t) s
        else rbind (cov_field (tag_number t) (tag_body t) s) (cov_loop octets (tag_next t)))
      else Inr s)"
  by pat_completeness auto
termination
  by (relation "measure (\<lambda>(octets, position, s). length octets - position)")
    (fastforce dest: read_tag_progress constructed_body_progress)+

declare cov_loop.simps [simp del]

definition CovNotificationMultiple :: "frame \<Rightarrow> cov result" where
  "CovNotificationMultiple f =
     (let confirmed = (pdu_type f = Some PDU_CONFIRMED_REQUEST) in
      rbind (cov_loop (drop (if confirmed then 4 else 2) (payload f)) 0
        \<lparr>cs_cov = \<lparr>cov_frame = f, cov_confirmed = confirmed, cov_process_identifier = None,
           cov_initiating_device = None, cov_time_remaining = None, cov_values = []\<rparr>,
         cs_depth = 0, cs_monitored = None, cs_property = None, cs_index = None\<rparr>) (\<lambda>s. Inr (cs_cov s)))"

fun cov_value_in :: "cov_value list \<Rightarrow> object_ref \<Rightarrow> int \<Rightarrow> py_value result" where
  "cov_value_in [] key p = Inr PyNone"
| "cov_value_in ((monitored, identifier, _, octets) # vs) key p =
     (if monitored = Some key \<and> identifier = Some p then decode_application octets else cov_value_in vs key p)"

definition cov_value :: "cov \<Rightarrow> object_ref \<Rightarrow> int \<Rightarrow> py_value result" where
  "cov_value c key p = cov_value_in (cov_values c) key p"

section \<open>Life safety, landing calls and lighting\<close>

definition life_safety_operation_request :: "int \<Rightarrow> int \<Rightarrow> pystr \<Rightarrow> int \<Rightarrow> object_ref option \<Rightarrow> octets result" where
  "life_safety_operation_request iid process_identifier source operation object_reference =
     rbind (cat ([context_unsigned 0 process_identifier, context_character_string 1 source,
                  context_enumerated 2 operation] @
                 (case object_reference of None \<Rightarrow> [] | Some (ot, i) \<Rightarrow> [context_object_id 3 ot i])))
       (confirmed_request iid SERVICE_LIFE_SAFETY_OPERATION)"

definition landing_call_status :: "int \<Rightarrow> int option \<Rightarrow> int option \<Rightarrow> pystr option \<Rightarrow> octets result" where
  "landing_call_status floor_number direction destination_floor floor_text =
     (if (direction = None) = (destination_floor = None) then Inl ValueError
      else cat ([context_unsigned 0 floor_number] @
        (case direction of Some d \<Rightarrow> [context_enumerated 1 d]
         | None \<Rightarrow> [rbind (needed destination_floor) (context_unsigned 2)]) @
        (case floor_text of None \<Rightarrow> [] | Some t \<Rightarrow> [context_character_string 3 t])))"

record landing_call =
  lc_floor :: int
  lc_direction :: "int option"
  lc_destination :: "int option"
  lc_floor_text :: "pystr option"

text \<open>\<open>calls[-1][...] = ...\<close>.\<close>

definition update_last :: "('a \<Rightarrow> 'a) \<Rightarrow> 'a list \<Rightarrow> 'a list" where
  "update_last g xs = (if xs = [] then [] else butlast xs @ [g (last xs)])"

definition landing_step :: "nat \<Rightarrow> tag \<Rightarrow> landing_call list \<Rightarrow> landing_call list result" where
  "landing_step start t calls = Inr (
     if tag_kind t \<noteq> Value \<or> \<not> tag_context t then calls
     else if tag_number t = 0 then
       calls @ [\<lparr>lc_floor = from_bytes (tag_body t), lc_direction = None, lc_destination = None, lc_floor_text = None\<rparr>]
     else if tag_number t = 1 then update_last (\<lambda>c. c\<lparr>lc_direction := Some (from_bytes (tag_body t))\<rparr>) calls
     else if tag_number t = 2 then update_last (\<lambda>c. c\<lparr>lc_destination := Some (from_bytes (tag_body t))\<rparr>) calls
     else if tag_number t = 3 then update_last (\<lambda>c. c\<lparr>lc_floor_text := Some (utf8_decode (drop 1 (tag_body t)))\<rparr>) calls
     else calls)"

definition decode_landing_calls :: "octets \<Rightarrow> landing_call list result" where
  "decode_landing_calls octets = tag_loop octets landing_step 0 []"

record lighting =
  li_operation :: "int option"
  li_target_level :: "py_float option"
  li_ramp_rate :: "py_float option"
  li_step_increment :: "py_float option"
  li_fade_time :: "int option"
  li_priority :: "int option"

definition lighting_command ::
  "int \<Rightarrow> py_float option \<Rightarrow> py_float option \<Rightarrow> py_float option \<Rightarrow> int option \<Rightarrow> int option \<Rightarrow> octets result" where
  "lighting_command operation target_level ramp_rate step_increment fade_time priority =
     cat ([context_enumerated 0 operation] @
          (case target_level of None \<Rightarrow> [] | Some x \<Rightarrow> [context_real 1 x]) @
          (case ramp_rate of None \<Rightarrow> [] | Some x \<Rightarrow> [context_real 2 x]) @
          (case step_increment of None \<Rightarrow> [] | Some x \<Rightarrow> [context_real 3 x]) @
          (case fade_time of None \<Rightarrow> [] | Some x \<Rightarrow> [context_unsigned 4 x]) @
          (case priority of None \<Rightarrow> [] | Some x \<Rightarrow> [context_unsigned 5 x]))"

definition lighting_field :: "int \<times> octets \<Rightarrow> lighting \<Rightarrow> lighting result" where
  "lighting_field f l = (case f of (number, body) \<Rightarrow>
     if number = 0 then Inr (l\<lparr>li_operation := Some (from_bytes body)\<rparr>)
     else if number = 1 then rbind (unpack_f body) (\<lambda>x. Inr (l\<lparr>li_target_level := Some x\<rparr>))
     else if number = 2 then rbind (unpack_f body) (\<lambda>x. Inr (l\<lparr>li_ramp_rate := Some x\<rparr>))
     else if number = 3 then rbind (unpack_f body) (\<lambda>x. Inr (l\<lparr>li_step_increment := Some x\<rparr>))
     else if number = 4 then Inr (l\<lparr>li_fade_time := Some (from_bytes body)\<rparr>)
     else if number = 5 then Inr (l\<lparr>li_priority := Some (from_bytes body)\<rparr>)
     else Inr l)"

fun lighting_fields :: "(int \<times> octets) list \<Rightarrow> lighting \<Rightarrow> lighting result" where
  "lighting_fields [] l = Inr l"
| "lighting_fields (f # fs) l = rbind (lighting_field f l) (lighting_fields fs)"

definition decode_lighting_command :: "octets \<Rightarrow> lighting option result" where
  "decode_lighting_command octets =
     (if octets = [] then Inr None
      else rbind (context_values octets) (\<lambda>vs.
           rbind (lighting_fields vs \<lparr>li_operation = None, li_target_level = None, li_ramp_rate = None,
              li_step_increment = None, li_fade_time = None, li_priority = None\<rparr>) (\<lambda>l. Inr (Some l))))"

section \<open>A ReadPropertyMultiple answer comes back\<close>

lemma rpm_at:
  assumes "is_tag c n x k b"
  shows "rpm_loop (pre @ c @ suf) (length pre) s =
    (if k = Value \<and> x \<and> n = 0 then
       rbind (object_identifier b) (\<lambda>key.
       rpm_loop (pre @ c @ suf) (length (pre @ c)) (s\<lparr>rpm_results := set_default key [] (rpm_results s), rpm_current := Some key\<rparr>))
     else if k = Value \<and> x \<and> n = 2 then
       rpm_loop (pre @ c @ suf) (length (pre @ c)) (s\<lparr>rpm_property := Some (from_bytes b), rpm_index := None\<rparr>)
     else if k = Value \<and> x \<and> n = 3 then
       rpm_loop (pre @ c @ suf) (length (pre @ c)) (s\<lparr>rpm_index := Some (from_bytes b)\<rparr>)
     else if k = Open \<and> (n = 4 \<or> n = 5) \<and> rpm_current s \<noteq> None then
       rbind (constructed_body (pre @ c @ suf) (length (pre @ c))) (\<lambda>(inner, position).
       if n = 4 then rpm_loop (pre @ c @ suf) position (rpm_store (Rpm_value inner) s)
       else rbind (application_values inner) (\<lambda>values.
         rpm_loop (pre @ c @ suf) position (rpm_store (Rpm_error (map (\<lambda>v. from_bytes (snd v)) (take 2 values))) s)))
     else rpm_loop (pre @ c @ suf) (length (pre @ c)) s)"
  using is_tag_nonempty [OF assms]
  by (subst rpm_loop.simps) (simp add: read_tag_at [OF assms] cong: if_cong)

lemma constructed_body_enclosed:
  assumes "balanced v" "0 \<le> t" "t < 15"
  shows "constructed_body (pre @ enclosed t v @ suf) (length (pre @ open_prim t)) = Inr (v, length (pre @ enclosed t v))"
  using close_of_enclosed(1,2) [OF assms, of pre suf] by (simp add: constructed_body_def)

text \<open>The octets of one property of the answer, and what the parser stores for it.\<close>

definition rpm_entry :: "int \<times> octets option \<Rightarrow> octets" where
  "rpm_entry e = (case e of (p, v) \<Rightarrow> ctx_prim 2 (u_octets p) @ (case v of
     None \<Rightarrow> enclosed 5 (app_prim 9 (u_octets ERROR_CLASS_PROPERTY) @ app_prim 9 (u_octets ERROR_CODE_UNKNOWN_PROPERTY))
   | Some octets \<Rightarrow> enclosed 4 octets))"

definition rpm_outcome :: "octets option \<Rightarrow> rpm_result" where
  "rpm_outcome v = (case v of None \<Rightarrow> Rpm_error [ERROR_CLASS_PROPERTY, ERROR_CODE_UNKNOWN_PROPERTY]
     | Some octets \<Rightarrow> Rpm_value octets)"

definition entry_fits :: "int \<times> octets option \<Rightarrow> bool" where
  "entry_fits e = (case e of (p, v) \<Rightarrow> unsigned32 p \<and> (case v of None \<Rightarrow> True | Some octets \<Rightarrow> balanced octets))"

lemma rpm_enclosed:
  assumes "balanced v" "rpm_current s \<noteq> None" "n = 4 \<or> n = 5"
    and "n = 5 \<longrightarrow> application_values v = Inr values"
  shows "rpm_loop (pre @ enclosed n v @ suf) (length pre) s =
    rpm_loop ((pre @ enclosed n v) @ suf) (length (pre @ enclosed n v))
      (rpm_store (if n = 4 then Rpm_value v else Rpm_error (map (\<lambda>v. from_bytes (snd v)) (take 2 values))) s)"
proof -
  have n: "0 \<le> n" "n < 15" using assms(3) by auto
  have "rpm_loop (pre @ enclosed n v @ suf) (length pre) s =
      rbind (constructed_body (pre @ enclosed n v @ suf) (length (pre @ open_prim n))) (\<lambda>(inner, position).
       if n = 4 then rpm_loop (pre @ enclosed n v @ suf) position (rpm_store (Rpm_value inner) s)
       else rbind (application_values inner) (\<lambda>values. rpm_loop (pre @ enclosed n v @ suf) position
         (rpm_store (Rpm_error (map (\<lambda>v. from_bytes (snd v)) (take 2 values))) s)))"
    using rpm_at [OF is_tag_open_prim [OF n], of pre "v @ close_prim n @ suf" s] assms(2,3)
    by (auto simp: enclosed_def)
  also have "constructed_body (pre @ enclosed n v @ suf) (length (pre @ open_prim n)) = Inr (v, length (pre @ enclosed n v))"
    by (rule constructed_body_enclosed [OF assms(1) n])
  finally show ?thesis using assms(3,4) by auto
qed

lemma map_entry_fresh: "key \<notin> fst ` set ms \<Longrightarrow> AList.map_entry key g (ms @ [(key, es)]) = ms @ [(key, g es)]"
  by (induction ms) auto

lemma rpm_entry_loop:
  assumes "entry_fits (p, v)" and s: "rpm_current s = Some key" "rpm_results s = ms @ [(key, es)]"
    and fresh: "key \<notin> fst ` set ms" "(Some p, None) \<notin> fst ` set es"
  shows "rpm_loop (pre @ rpm_entry (p, v) @ suf) (length pre) s =
    rpm_loop ((pre @ rpm_entry (p, v)) @ suf) (length (pre @ rpm_entry (p, v)))
      (s\<lparr>rpm_property := Some p, rpm_index := None, rpm_results := ms @ [(key, es @ [((Some p, None), rpm_outcome v)])]\<rparr>)"
proof -
  let ?c = "ctx_prim 2 (u_octets p)"
  have p: "unsigned32 p" using assms(1) by (simp add: entry_fits_def)
  let ?s = "s\<lparr>rpm_property := Some p, rpm_index := None\<rparr>"
  have st: "rpm_store r ?s = ?s\<lparr>rpm_results := ms @ [(key, es @ [((Some p, None), r)])]\<rparr>" for r
    using s fresh by (simp add: rpm_store_def map_entry_fresh update_fresh(1))
  have first: "rpm_loop (pre @ ?c @ rest) (length pre) s = rpm_loop ((pre @ ?c) @ rest) (length (pre @ ?c)) ?s" for rest
    using rpm_at [OF is_tag_unsigned [of 2 p], of pre rest s] p by simp
  show ?thesis
  proof (cases v)
    case (Some octets)
    then have "balanced octets" using assms(1) by (simp add: entry_fits_def)
    from rpm_enclosed [OF this, of ?s 4 _ "pre @ ?c" suf] st s first [of "enclosed 4 octets @ suf"] Some show ?thesis
      by (simp add: rpm_entry_def rpm_outcome_def)
  next
    case None
    let ?e = "app_prim 9 (u_octets ERROR_CLASS_PROPERTY) @ app_prim 9 (u_octets ERROR_CODE_UNKNOWN_PROPERTY)"
    have e: "application_values ?e = Inr [(9, u_octets ERROR_CLASS_PROPERTY), (9, u_octets ERROR_CODE_UNKNOWN_PROPERTY)]"
      by (rule application_values_pair) (simp_all add: is_tag_app_unsigned)
    have "balanced ?e" by (intro balanced_append balanced_app_prim) (simp_all add: small_body)
    from rpm_enclosed [OF this, of ?s 5 _ "pre @ ?c" suf] e st s first [of "enclosed 5 ?e @ suf"] None show ?thesis
      by (simp add: rpm_entry_def rpm_outcome_def)
  qed
qed

lemma rpm_entries_loop:
  assumes "list_all entry_fits ps" "distinct (map fst ps)"
    and "rpm_current s = Some key" "rpm_results s = ms @ [(key, es)]"
    and "key \<notin> fst ` set ms" "\<forall>p \<in> fst ` set ps. (Some p, None) \<notin> fst ` set es"
  shows "\<exists>pi ix. rpm_loop (pre @ concat (map rpm_entry ps) @ suf) (length pre) s =
    rpm_loop ((pre @ concat (map rpm_entry ps)) @ suf) (length (pre @ concat (map rpm_entry ps)))
      (s\<lparr>rpm_property := pi, rpm_index := ix,
         rpm_results := ms @ [(key, es @ map (\<lambda>(p, v). ((Some p, None), rpm_outcome v)) ps)]\<rparr>)"
  using assms
proof (induction ps arbitrary: pre s es)
  case Nil
  then have "s = s\<lparr>rpm_property := rpm_property s, rpm_index := rpm_index s, rpm_results := ms @ [(key, es)]\<rparr>"
    by simp
  then show ?case by (metis append_Nil2 append_Nil concat.simps(1) list.simps(8))
next
  case (Cons e ps)
  obtain p v where e: "e = (p, v)" by (cases e)
  let ?s = "s\<lparr>rpm_property := Some p, rpm_index := None, rpm_results := ms @ [(key, es @ [((Some p, None), rpm_outcome v)])]\<rparr>"
  have "rpm_loop (pre @ rpm_entry e @ concat (map rpm_entry ps) @ suf) (length pre) s =
      rpm_loop ((pre @ rpm_entry e) @ concat (map rpm_entry ps) @ suf) (length (pre @ rpm_entry e)) ?s"
    using rpm_entry_loop [of p v s key ms es pre "concat (map rpm_entry ps) @ suf"] Cons.prems e by auto
  moreover have "\<exists>pi ix. rpm_loop ((pre @ rpm_entry e) @ concat (map rpm_entry ps) @ suf) (length (pre @ rpm_entry e)) ?s =
      rpm_loop (((pre @ rpm_entry e) @ concat (map rpm_entry ps)) @ suf) (length ((pre @ rpm_entry e) @ concat (map rpm_entry ps)))
      (?s\<lparr>rpm_property := pi, rpm_index := ix,
         rpm_results := ms @ [(key, (es @ [((Some p, None), rpm_outcome v)]) @ map (\<lambda>(p, v). ((Some p, None), rpm_outcome v)) ps)]\<rparr>)"
    using Cons.prems e by (intro Cons.IH) auto
  ultimately show ?case by (auto simp: e)
qed

definition rpm_object :: "int \<times> int \<times> (int \<times> octets option) list \<Rightarrow> octets" where
  "rpm_object r = (case r of (ot, i, ps) \<Rightarrow>
     ctx_prim 0 (oid ot i) @ open_prim 1 @ concat (map rpm_entry ps) @ close_prim 1)"

definition rpm_parsed :: "int \<times> int \<times> (int \<times> octets option) list \<Rightarrow> object_ref \<times> (rpm_reference \<times> rpm_result) list" where
  "rpm_parsed r = (case r of (ot, i, ps) \<Rightarrow> ((ot, i), map (\<lambda>(p, v). ((Some p, None), rpm_outcome v)) ps))"

definition result_fits :: "int \<times> int \<times> (int \<times> octets option) list \<Rightarrow> bool" where
  "result_fits r = (case r of (ot, i, ps) \<Rightarrow> object_range ot i \<and> list_all entry_fits ps \<and> distinct (map fst ps))"

lemma rpm_object_loop:
  assumes "result_fits r" and "rpm_results s = ms" and "fst (rpm_parsed r) \<notin> fst ` set ms"
  shows "\<exists>s'. rpm_loop (pre @ rpm_object r @ suf) (length pre) s =
    rpm_loop ((pre @ rpm_object r) @ suf) (length (pre @ rpm_object r)) s' \<and> rpm_results s' = ms @ [rpm_parsed r]"
proof -
  obtain ot i ps where r: "r = (ot, i, ps)" by (cases r) auto
  have fits: "object_range ot i" "list_all entry_fits ps" "distinct (map fst ps)"
    and fresh: "(ot, i) \<notin> fst ` set ms" using assms by (auto simp: r result_fits_def rpm_parsed_def)
  let ?o = "ctx_prim 0 (oid ot i)" and ?es = "concat (map rpm_entry ps)"
  let ?s = "s\<lparr>rpm_results := ms @ [((ot, i), [])], rpm_current := Some (ot, i)\<rparr>"
  have "set_default (ot, i) [] ms = ms @ [((ot, i), [])]"
    using fresh by (simp add: set_default_def map_of_eq_None_iff [THEN iffD2])
  then have 1: "rpm_loop (pre @ ?o @ rest) (length pre) s = rpm_loop ((pre @ ?o) @ rest) (length (pre @ ?o)) ?s" for rest
    using rpm_at [OF is_tag_oid [of 0 ot i], of pre rest s] fits(1) assms(2) by simp
  have 2: "rpm_loop ((pre @ ?o) @ open_prim 1 @ rest) (length (pre @ ?o)) ?s =
      rpm_loop (((pre @ ?o) @ open_prim 1) @ rest) (length ((pre @ ?o) @ open_prim 1)) ?s" for rest
    using rpm_at [OF is_tag_open_prim [of 1], of "pre @ ?o" rest ?s] by simp
  obtain pi ix where 3: "rpm_loop (((pre @ ?o) @ open_prim 1) @ ?es @ close_prim 1 @ suf) (length ((pre @ ?o) @ open_prim 1)) ?s =
      rpm_loop ((((pre @ ?o) @ open_prim 1) @ ?es) @ close_prim 1 @ suf) (length (((pre @ ?o) @ open_prim 1) @ ?es))
        (?s\<lparr>rpm_property := pi, rpm_index := ix, rpm_results := ms @ [((ot, i), [] @ map (\<lambda>(p, v). ((Some p, None), rpm_outcome v)) ps)]\<rparr>)"
    using rpm_entries_loop [OF fits(2,3), of ?s "(ot, i)" ms "[]" "(pre @ ?o) @ open_prim 1" "close_prim 1 @ suf"] fresh
    by auto
  have 4: "rpm_loop ((((pre @ ?o) @ open_prim 1) @ ?es) @ close_prim 1 @ suf) (length (((pre @ ?o) @ open_prim 1) @ ?es)) t =
      rpm_loop (((((pre @ ?o) @ open_prim 1) @ ?es) @ close_prim 1) @ suf) (length ((((pre @ ?o) @ open_prim 1) @ ?es) @ close_prim 1)) t" for t
    using rpm_at [OF is_tag_close_prim [of 1], of "((pre @ ?o) @ open_prim 1) @ ?es" suf t] by simp
  show ?thesis
    using 1 [of "open_prim 1 @ ?es @ close_prim 1 @ suf"] 2 [of "?es @ close_prim 1 @ suf"] 3 4
    by (intro exI [of _ "?s\<lparr>rpm_property := pi, rpm_index := ix,
          rpm_results := ms @ [((ot, i), [] @ map (\<lambda>(p, v). ((Some p, None), rpm_outcome v)) ps)]\<rparr>"])
      (simp add: r rpm_object_def rpm_parsed_def)
qed

lemma rpm_objects_loop:
  assumes "list_all result_fits rs" "distinct (map fst (ms @ map rpm_parsed rs))" "rpm_results s = ms"
  shows "\<exists>s'. rpm_loop (pre @ concat (map rpm_object rs)) (length pre) s = Inr s' \<and> rpm_results s' = ms @ map rpm_parsed rs"
  using assms
proof (induction rs arbitrary: pre ms s)
  case Nil
  then show ?case by (subst rpm_loop.simps) simp
next
  case (Cons r rs)
  then obtain s' where s': "rpm_loop (pre @ rpm_object r @ concat (map rpm_object rs)) (length pre) s =
      rpm_loop ((pre @ rpm_object r) @ concat (map rpm_object rs)) (length (pre @ rpm_object r)) s'"
    "rpm_results s' = ms @ [rpm_parsed r]"
    using rpm_object_loop [of r s ms pre "concat (map rpm_object rs)"] by auto
  with Cons.IH [of "ms @ [rpm_parsed r]" s' "pre @ rpm_object r"] Cons.prems show ?case by auto
qed

lemma rpm_property_result_eq:
  "entry_fits e \<Longrightarrow> cat (rpm_property_result e) = Inr (rpm_entry e)"
  by (auto simp: entry_fits_def rpm_property_result_def rpm_entry_def codec_simps enclosed_def split: prod.splits option.splits)

lemma cat_concat: "list_all (\<lambda>x. cat (g x) = Inr (h x)) xs \<Longrightarrow> cat (concat (map g xs)) = Inr (concat (map h xs))"
  by (induction xs) (auto simp: cat_append)

lemma read_property_multiple_ack_eq [codec_simps]:
  assumes "unsigned8 iid" "list_all result_fits rs"
  shows "read_property_multiple_ack iid rs = Inr ([0x30, octet_of iid, 14] @ concat (map rpm_object rs))"
proof -
  have entries: "cat (concat (map rpm_property_result ps)) = Inr (concat (map rpm_entry ps))" if "list_all entry_fits ps" for ps
    using that by (intro cat_concat) (auto simp: list_all_iff rpm_property_result_eq)
  have "cat (concat (map (\<lambda>(ot, i, ps). [context_object_id 0 ot i, opening_tag 1] @
      concat (map rpm_property_result ps) @ [closing_tag 1]) rs)) = Inr (concat (map rpm_object rs))"
    using assms(2) entries
    by (intro cat_concat) (auto simp: list_all_iff result_fits_def rpm_object_def cat_append codec_simps)
  with assms(1) show ?thesis
    by (simp add: read_property_multiple_ack_def push_bit_eq_mult py_bytes_def octet_of_def)
qed

lemma parse_rpm_roundtrip:
  assumes "unsigned8 iid" "list_all result_fits rs" "distinct (map (\<lambda>(ot, i, _). (ot, i)) rs)"
    and "read_property_multiple_ack iid rs = Inr (payload f)" "network_message f = None"
  shows "parse_read_property_multiple_ack (Some f) = Inr (Some (map rpm_parsed rs))"
proof -
  have pl: "payload f = [0x30, octet_of iid, 14] @ concat (map rpm_object rs)"
    using assms by (simp add: read_property_multiple_ack_eq)
  have t: "pdu_type f = Some PDU_COMPLEX_ACK" using assms(5) by (simp add: pdu_type_def pl drop_bit_eq_div)
  have sv: "service f = Inr (Some SERVICE_READ_PROPERTY_MULTIPLE)"
    unfolding service_def t by (simp add: pl)
  have "map fst (map rpm_parsed rs) = map (\<lambda>(ot, i, _). (ot, i)) rs"
    by (auto simp: rpm_parsed_def)
  then have d: "distinct (map fst ([] @ map rpm_parsed rs))" using assms(3) by (metis append_Nil)
  obtain s' where "rpm_loop (payload f) 3 \<lparr>rpm_results = [], rpm_current = None, rpm_property = None,
      rpm_index = None\<rparr> = Inr s'" "rpm_results s' = map rpm_parsed rs"
    using rpm_objects_loop [OF assms(2) d, of "\<lparr>rpm_results = [], rpm_current = None, rpm_property = None, rpm_index = None\<rparr>"
      "[0x30, octet_of iid, 14]"] pl by (auto simp: numeral_3_eq_3)
  with t sv show ?thesis by (simp add: parse_read_property_multiple_ack_def complex_ack_def)
qed

section \<open>Lighting commands and landing calls come back\<close>

lemma lighting_command_eq:
  assumes "unsigned32 op" "real32_option a" "real32_option b" "real32_option c" "unsigned32_option d" "unsigned32_option e"
  shows "lighting_command op a b c d e = Inr (ctx_run ([(0, u_octets op)] @ opt_real 1 a @ opt_real 2 b @ opt_real 3 c @
    opt_unsigned 4 d @ opt_unsigned 5 e))"
proof -
  have real: "cat (case v of None \<Rightarrow> [] | Some x \<Rightarrow> [context_real t x]) = Inr (ctx_run (opt_real t v))"
    if "real32_option v" "0 \<le> t" "t < 15" for v t
    using that context_real_eq [OF that(2,3) pack_f_real32(1,2)] by (cases v) (simp_all add: opt_real_def)
  have uns: "cat (case v of None \<Rightarrow> [] | Some x \<Rightarrow> [context_unsigned t x]) = Inr (ctx_run (opt_unsigned t v))"
    if "unsigned32_option v" "0 \<le> t" "t < 15" for v t
    using that by (cases v) (simp_all add: opt_unsigned_def context_unsigned_eq)
  show ?thesis
    unfolding lighting_command_def
    by (simp only: cat_append real [OF assms(2)] real [OF assms(3)] real [OF assms(4)] uns [OF assms(5)] uns [OF assms(6)])
      (simp add: context_enumerated_eq assms(1) cat_append real assms uns)
qed

lemma lighting_fields_append: "lighting_fields (xs @ ys) l = rbind (lighting_fields xs l) (lighting_fields ys)"
proof (induction xs arbitrary: l)
  case (Cons f xs)
  then show ?case by (cases "lighting_field f l") simp_all
qed simp

lemma lighting_fields_optional:
  "real32_option v \<Longrightarrow> lighting_fields (opt_real 1 v) l = Inr (if v = None then l else l\<lparr>li_target_level := v\<rparr>)"
  "real32_option v \<Longrightarrow> lighting_fields (opt_real 2 v) l = Inr (if v = None then l else l\<lparr>li_ramp_rate := v\<rparr>)"
  "real32_option v \<Longrightarrow> lighting_fields (opt_real 3 v) l = Inr (if v = None then l else l\<lparr>li_step_increment := v\<rparr>)"
  "unsigned32_option w \<Longrightarrow> lighting_fields (opt_unsigned 4 w) l = Inr (if w = None then l else l\<lparr>li_fade_time := w\<rparr>)"
  "unsigned32_option w \<Longrightarrow> lighting_fields (opt_unsigned 5 w) l = Inr (if w = None then l else l\<lparr>li_priority := w\<rparr>)"
  by (cases v; cases w; simp add: opt_real_def opt_unsigned_def lighting_field_def pack_f_real32)+

lemma lighting_roundtrip:
  assumes "unsigned32 op" "real32_option a" "real32_option b" "real32_option c" "unsigned32_option d" "unsigned32_option e"
  shows "rbind (lighting_command op a b c d e) decode_lighting_command =
    Inr (Some \<lparr>li_operation = Some op, li_target_level = a, li_ramp_rate = b, li_step_increment = c,
      li_fade_time = d, li_priority = e\<rparr>)"
proof -
  let ?fs = "[(0, u_octets op)] @ opt_real 1 a @ opt_real 2 b @ opt_real 3 c @ opt_unsigned 4 d @ opt_unsigned 5 e"
  let ?l = "\<lparr>li_operation = Some op, li_target_level = a, li_ramp_rate = b, li_step_increment = c,
      li_fade_time = d, li_priority = e\<rparr>"
  have fit: "list_all (\<lambda>(t, b). 0 \<le> t \<and> t < 15 \<and> length b < 65536) ?fs"
    using assms by (auto simp: opt_real_def opt_unsigned_def pack_f_real32 small_body split: option.splits)
  have "lighting_fields ?fs \<lparr>li_operation = None, li_target_level = None, li_ramp_rate = None,
      li_step_increment = None, li_fade_time = None, li_priority = None\<rparr> = Inr ?l"
    using assms by (simp add: lighting_fields_append lighting_fields_optional lighting_field_def)
  moreover have "ctx_run ?fs \<noteq> []" by (simp add: ctx_run_def ctx_prim_def)
  ultimately show ?thesis
    by (simp only: lighting_command_eq [OF assms] rbind_Inr decode_lighting_command_def context_values_run [OF fit] if_False)
qed

text \<open>What the landing-call decoder does with one context-tagged primitive.\<close>

definition landing_field :: "int \<times> octets \<Rightarrow> landing_call list \<Rightarrow> landing_call list" where
  "landing_field f calls = (case f of (number, body) \<Rightarrow>
     projr (landing_step 0 \<lparr>tag_number = number, tag_context = True, tag_kind = Value, tag_body = body, tag_next = 0\<rparr> calls))"

lemma landing_step_value:
  "landing_step n \<lparr>tag_number = t, tag_context = True, tag_kind = Value, tag_body = b, tag_next = q\<rparr> calls
     = Inr (landing_field (t, b) calls)"
  by (simp add: landing_field_def landing_step_def cong: if_cong)

lemma landing_run:
  assumes "list_all (\<lambda>(t, b). 0 \<le> t \<and> t < 15 \<and> length b < 65536) fs"
  shows "tag_loop (pre @ ctx_run fs @ suf) landing_step (length pre) calls =
    tag_loop ((pre @ ctx_run fs) @ suf) landing_step (length (pre @ ctx_run fs)) (fold landing_field fs calls)"
  using assms
proof (induction fs arbitrary: pre calls)
  case Nil
  then show ?case by simp
next
  case (Cons f fs)
  obtain t b where f: "f = (t, b)" by (cases f)
  then have "is_tag (ctx_prim t b) t True Value b" using Cons.prems by (intro is_tag_ctx_prim) auto
  from tag_loop_at [OF this, of pre "ctx_run fs @ suf" landing_step calls]
    Cons.IH [of "pre @ ctx_prim t b" "landing_field f calls"] Cons.prems
  show ?case by (simp add: f landing_step_value)
qed

definition call_fields :: "landing_call \<Rightarrow> (int \<times> octets) list" where
  "call_fields c = [(0, u_octets (lc_floor c))] @ opt_unsigned 1 (lc_direction c) @ opt_unsigned 2 (lc_destination c) @
     (case lc_floor_text c of None \<Rightarrow> [] | Some t \<Rightarrow> [(3, projr (text_body t))])"

definition call_fits :: "landing_call \<Rightarrow> bool" where
  "call_fits c \<longleftrightarrow> unsigned32 (lc_floor c) \<and> (lc_direction c = None) \<noteq> (lc_destination c = None) \<and>
     unsigned32_option (lc_direction c) \<and> unsigned32_option (lc_destination c) \<and>
     (case lc_floor_text c of None \<Rightarrow> True | Some t \<Rightarrow> short_text t)"

definition encode_call :: "landing_call \<Rightarrow> octets result" where
  "encode_call c = landing_call_status (lc_floor c) (lc_direction c) (lc_destination c) (lc_floor_text c)"

lemma encode_call_eq: "call_fits c \<Longrightarrow> encode_call c = Inr (ctx_run (call_fields c))"
  by (cases "lc_direction c"; cases "lc_destination c"; cases "lc_floor_text c")
    (simp_all add: encode_call_def landing_call_status_def call_fits_def call_fields_def opt_unsigned_def
      codec_simps short_text_body needed_def)

lemma landing_call_fields: "call_fits c \<Longrightarrow> fold landing_field (call_fields c) calls = calls @ [c]"
  by (cases c; cases "lc_direction c"; cases "lc_destination c"; cases "lc_floor_text c")
    (simp_all add: call_fits_def call_fields_def opt_unsigned_def landing_field_def landing_step_def
      update_last_def short_text_body [where n = 3])

lemma call_fields_fit: "call_fits c \<Longrightarrow> list_all (\<lambda>(t, b). 0 \<le> t \<and> t < 15 \<and> length b < 65536) (call_fields c)"
  using short_text_body(2) [where n = 3]
  by (fastforce simp: call_fits_def call_fields_def opt_unsigned_def small_body split: option.splits)

lemma landing_calls_roundtrip:
  assumes "list_all call_fits cs"
  shows "rbind (cat (map encode_call cs)) decode_landing_calls = Inr cs"
proof -
  have enc: "cat (map encode_call cs) = Inr (concat (map (\<lambda>c. ctx_run (call_fields c)) cs))"
    using assms by (induction cs) (auto simp: encode_call_eq)
  have "tag_loop (pre @ concat (map (\<lambda>c. ctx_run (call_fields c)) cs)) landing_step (length pre) calls = Inr (calls @ cs)" for pre calls
    using assms
  proof (induction cs arbitrary: pre calls)
    case Nil
    then show ?case using tag_loop_end [of pre] by simp
  next
    case (Cons c cs)
    then show ?case
      using landing_run [OF call_fields_fit, of c pre "concat (map (\<lambda>c. ctx_run (call_fields c)) cs)" calls]
        Cons.IH [of "pre @ ctx_run (call_fields c)" "calls @ [c]"]
      by (simp add: landing_call_fields)
  qed
  from this [of "[]" "[]"] show ?thesis by (simp add: enc decode_landing_calls_def)
qed

section \<open>Claims\<close>

text \<open>A lighting command decodes to the operation and to the optional level, ramp rate, step, fade
  time and priority it was made with, present or absent.\<close>
theorem lighting_command_roundtrip:
  assumes "unsigned32 op" "real32_option a" "real32_option b" "real32_option c" "unsigned32_option d" "unsigned32_option e"
  shows "\<exists>octets. lighting_command op a b c d e = Inr octets \<and> decode_lighting_command octets =
    Inr (Some \<lparr>li_operation = Some op, li_target_level = a, li_ramp_rate = b, li_step_increment = c, li_fade_time = d,
      li_priority = e\<rparr>)"
  using lighting_roundtrip [OF assms] by (auto simp: rbind_eq_Inr)

theorem lighting_command_roundtrip_witness:
  "\<exists>octets. lighting_command 2 (Some 0x4049000000000000) None None (Some 2000) (Some 8) = Inr octets \<and>
    decode_lighting_command octets = Inr (Some \<lparr>li_operation = Some 2, li_target_level = Some 0x4049000000000000,
      li_ramp_rate = None, li_step_increment = None, li_fade_time = Some 2000, li_priority = Some 8\<rparr>)"
proof -
  have "real32_option (Some 0x4049000000000000)" by code_simp
  from lighting_command_roundtrip [OF _ this, of 2 None None "Some 2000" "Some 8"] show ?thesis by simp
qed

text \<open>A list of landing calls, each with a direction or a destination and an optional floor text,
  decodes to the calls it was made of.\<close>
theorem landing_calls_read_back:
  assumes "list_all call_fits cs"
  shows "\<exists>octets. cat (map encode_call cs) = Inr octets \<and> decode_landing_calls octets = Inr cs"
  using landing_calls_roundtrip [OF assms] by (auto simp: rbind_eq_Inr)

theorem landing_calls_read_back_witness:
  "\<exists>octets. cat (map encode_call [\<lparr>lc_floor = 3, lc_direction = Some 1, lc_destination = None, lc_floor_text = Some [76]\<rparr>,
      \<lparr>lc_floor = 5, lc_direction = None, lc_destination = Some 9, lc_floor_text = None\<rparr>]) = Inr octets \<and>
    decode_landing_calls octets = Inr [\<lparr>lc_floor = 3, lc_direction = Some 1, lc_destination = None, lc_floor_text = Some [76]\<rparr>,
      \<lparr>lc_floor = 5, lc_direction = None, lc_destination = Some 9, lc_floor_text = None\<rparr>]"
  by (rule landing_calls_read_back) code_simp

end
