(* ===== verification/Serving.thy ===== *)
theory Serving
  imports Peer_Server Endpoint
begin

text \<open>
  The serving thread of a Peer beside the test that owns it: \<open>_serve\<close> and \<open>stop\<close> of
  \<^verbatim>\<open>src/wiretest/peer.py\<close> as a state machine. The thread's program counter is a \<open>thread\<close>
  value, the caller's progress through \<open>stop()\<close> a \<open>caller\<close> value, and an event is one turn of one of
  them, an arrival on one of the sockets, or a change of the Peer's settings by the test. The loop is
  the same for every class, so what is done with a datagram is an argument, \<open>serve\<close>; the workstation
  of \<^verbatim>\<open>src/wiretest/workstation.py\<close> runs the same loop on one socket.
\<close>

section \<open>State\<close>

datatype thread =
    At_while
  | In_select
  | Receiving "bool list"
  | Sending "datagram list" "bool list"
  | Returned
  | Raised py_error

datatype caller = Testing | Joining | Closing | Closing_broadcast | Stopped

record socket =
  sk_queue :: "arrival list"
  sk_open :: bool

record 's peer =
  peer_self :: 's
  own_sock :: socket
  broadcast_sock :: "socket option"
  running :: bool
  thread :: thread
  caller :: caller
  put_out :: "datagram list"

definition new_socket :: socket where
  "new_socket = \<lparr>sk_queue = [], sk_open = True\<rparr>"

text \<open>The state \<open>__init__\<close> leaves: the thread has been started, nothing has arrived.\<close>

definition started :: "'s \<Rightarrow> bool \<Rightarrow> 's peer" where
  "started self hears_broadcasts = \<lparr>peer_self = self, own_sock = new_socket,
     broadcast_sock = (if hears_broadcasts then Some new_socket else None), running = True,
     thread = At_while, caller = Testing, put_out = []\<rparr>"

section \<open>The thread\<close>

text \<open>Which sockets \<open>select\<close> reports, in the order of its argument; \<open>True\<close> is the broadcast socket.\<close>

definition ready_socks :: "'s peer \<Rightarrow> bool list" where
  "ready_socks p = (if sk_queue (own_sock p) \<noteq> [] then [False] else []) @
     (case broadcast_sock p of None \<Rightarrow> [] | Some k \<Rightarrow> if sk_queue k \<noteq> [] then [True] else [])"

definition all_open :: "'s peer \<Rightarrow> bool" where
  "all_open p \<longleftrightarrow> sk_open (own_sock p) \<and> (case broadcast_sock p of None \<Rightarrow> True | Some k \<Rightarrow> sk_open k)"

definition sock_of :: "bool \<Rightarrow> 's peer \<Rightarrow> socket option" where
  "sock_of b p = (if b then broadcast_sock p else Some (own_sock p))"

definition set_sock :: "bool \<Rightarrow> socket \<Rightarrow> 's peer \<Rightarrow> 's peer" where
  "set_sock b k p = (if b then p\<lparr>broadcast_sock := Some k\<rparr> else p\<lparr>own_sock := k\<rparr>)"

type_synonym 's handler = "octets \<Rightarrow> address \<Rightarrow> bool \<Rightarrow> ('s, datagram list) exec"

text \<open>
  One iteration of the loop over the ready sockets. \<open>recvfrom\<close> on a closed socket is an \<open>OSError\<close>
  and ends the thread; a reset is skipped; an exception while serving ends the thread where it is.
\<close>

definition receive_turn :: "'s handler \<Rightarrow> bool \<Rightarrow> bool list \<Rightarrow> 's peer \<Rightarrow> 's peer" where
  "receive_turn serve b bs p =
     (case sock_of b p of
        None \<Rightarrow> p
      | Some k \<Rightarrow>
          if \<not> sk_open k then p\<lparr>thread := Returned\<rparr>
          else (case sk_queue k of
            [] \<Rightarrow> p
          | Connection_reset # rest \<Rightarrow> (set_sock b (k\<lparr>sk_queue := rest\<rparr>) p)\<lparr>thread := Receiving bs\<rparr>
          | Datagram data source # rest \<Rightarrow>
              let p' = set_sock b (k\<lparr>sk_queue := rest\<rparr>) p in
              (case serve data source b (peer_self p) of
                 (Inl e, s) \<Rightarrow> p'\<lparr>peer_self := s, thread := Raised e\<rparr>
               | (Inr sends, s) \<Rightarrow> p'\<lparr>peer_self := s, thread := Sending sends bs\<rparr>)))"

text \<open>
  One turn of the thread: the test of the \<open>while\<close>, the return of \<open>select\<close> (a closed socket is an
  \<open>OSError\<close> or a \<open>ValueError\<close>, which end the thread), one ready socket, or the sends of the datagram
  just served. \<open>sendto\<close> on a closed socket is an \<open>OSError\<close> that nothing catches.
\<close>

definition thread_turn :: "'s handler \<Rightarrow> 's peer \<Rightarrow> 's peer" where
  "thread_turn serve p =
     (case thread p of
        At_while \<Rightarrow> p\<lparr>thread := if running p then In_select else Returned\<rparr>
      | In_select \<Rightarrow> p\<lparr>thread := if all_open p then Receiving (ready_socks p) else Returned\<rparr>
      | Receiving [] \<Rightarrow> p\<lparr>thread := At_while\<rparr>
      | Receiving (b # bs) \<Rightarrow> receive_turn serve b bs p
      | Sending sends bs \<Rightarrow>
          if sends = [] \<or> sk_open (own_sock p) then p\<lparr>put_out := put_out p @ sends, thread := Receiving bs\<rparr>
          else p\<lparr>thread := Raised OSError\<rparr>
      | Returned \<Rightarrow> p
      | Raised e \<Rightarrow> p)"

fun ended :: "thread \<Rightarrow> bool" where
  "ended Returned = True"
| "ended (Raised e) = True"
| "ended _ = False"

section \<open>The test\<close>

text \<open>
  The statements of \<open>stop()\<close>, one per turn. \<open>join(timeout=2)\<close> returns when the thread has ended or
  two seconds have passed, so it may return with the thread anywhere.
\<close>

definition stop_turn :: "'s peer \<Rightarrow> 's peer" where
  "stop_turn p =
     (case caller p of
        Testing \<Rightarrow> p\<lparr>running := False, caller := Joining\<rparr>
      | Joining \<Rightarrow> p\<lparr>caller := Closing\<rparr>
      | Closing \<Rightarrow> p\<lparr>own_sock := (own_sock p)\<lparr>sk_open := False\<rparr>,
          caller := if broadcast_sock p = None then Stopped else Closing_broadcast\<rparr>
      | Closing_broadcast \<Rightarrow>
          p\<lparr>broadcast_sock := map_option (\<lambda>k. k\<lparr>sk_open := False\<rparr>) (broadcast_sock p), caller := Stopped\<rparr>
      | Stopped \<Rightarrow> p)"

datatype 'c event = Thread_turn | Stop_turn | Arrives bool arrival | Changes 'c

text \<open>A datagram for a closed socket, or for one there is not, is not delivered.\<close>

definition arrives :: "bool \<Rightarrow> arrival \<Rightarrow> 's peer \<Rightarrow> 's peer option" where
  "arrives b a p = (case sock_of b p of
     None \<Rightarrow> None
   | Some k \<Rightarrow> if sk_open k then Some (set_sock b (k\<lparr>sk_queue := sk_queue k @ [a]\<rparr>) p) else None)"

fun peer_event :: "'s handler \<Rightarrow> ('c \<Rightarrow> 's \<Rightarrow> 's) \<Rightarrow> 'c event \<Rightarrow> 's peer \<Rightarrow> 's peer option" where
  "peer_event serve change Thread_turn p = (if ended (thread p) then None else Some (thread_turn serve p))"
| "peer_event serve change Stop_turn p = (if caller p = Stopped then None else Some (stop_turn p))"
| "peer_event serve change (Arrives b a) p = arrives b a p"
| "peer_event serve change (Changes c) p = Some (p\<lparr>peer_self := change c (peer_self p)\<rparr>)"

inductive peer_run :: "'s handler \<Rightarrow> ('c \<Rightarrow> 's \<Rightarrow> 's) \<Rightarrow> 's peer \<Rightarrow> 'c event list \<Rightarrow> 's peer \<Rightarrow> bool"
  for serve change p where
  Begin: "peer_run serve change p [] p"
| Next: "peer_run serve change p evs q \<Longrightarrow> peer_event serve change ev q = Some q' \<Longrightarrow>
    peer_run serve change p (evs @ [ev]) q'"

fun_cases arrivesE: "peer_event serve change (Arrives b a) p = Some q"

text \<open>An invariant of single events holds of whole runs.\<close>

lemma peer_run_invariant:
  assumes "peer_run serve change p evs q" and "I p"
    and "\<And>ev q q'. I q \<Longrightarrow> peer_event serve change ev q = Some q' \<Longrightarrow> I q'"
  shows "I q"
  using assms by (induction rule: peer_run.induct) auto

section \<open>Well-formed states\<close>

text \<open>
  The flag and the sockets follow the caller's progress, and \<open>select\<close> reports a socket only once
  and only with something to receive, which nobody but the thread takes away.
\<close>

definition ready_ok :: "bool list \<Rightarrow> 's peer \<Rightarrow> bool" where
  "ready_ok bs p \<longleftrightarrow> distinct bs \<and>
     (\<forall>b \<in> set bs. case sock_of b p of None \<Rightarrow> False | Some k \<Rightarrow> sk_queue k \<noteq> [])"

fun pending_socks :: "thread \<Rightarrow> bool list" where
  "pending_socks (Receiving bs) = bs"
| "pending_socks (Sending sends bs) = bs"
| "pending_socks _ = []"

definition peer_ok :: "'s peer \<Rightarrow> bool" where
  "peer_ok p \<longleftrightarrow> (running p \<longleftrightarrow> caller p = Testing) \<and>
     (sk_open (own_sock p) \<longleftrightarrow> caller p \<in> {Testing, Joining, Closing}) \<and>
     (case broadcast_sock p of None \<Rightarrow> caller p \<noteq> Closing_broadcast | Some k \<Rightarrow> sk_open k \<longleftrightarrow> caller p \<noteq> Stopped) \<and>
     ready_ok (pending_socks (thread p)) p"

lemma ready_ok_simps [simp]: "ready_ok [] p"
  by (simp add: ready_ok_def)

lemma ready_ok_sub: "ready_ok (b # bs) p \<Longrightarrow> ready_ok bs p"
  by (simp add: ready_ok_def)

lemma ready_ok_fields [simp]:
  "ready_ok bs (p\<lparr>thread := t\<rparr>) = ready_ok bs p" "ready_ok bs (p\<lparr>put_out := ds\<rparr>) = ready_ok bs p"
  "ready_ok bs (p\<lparr>peer_self := s\<rparr>) = ready_ok bs p" "ready_ok bs (p\<lparr>running := r\<rparr>) = ready_ok bs p"
  "ready_ok bs (p\<lparr>caller := c\<rparr>) = ready_ok bs p"
  by (simp_all add: ready_ok_def sock_of_def)

lemma sock_of_set_sock [simp]: "sock_of b (set_sock c k p) = (if b = c then Some k else sock_of b p)"
  by (simp add: sock_of_def set_sock_def)

lemma ready_ok_set_sock:
  assumes "ready_ok bs p" and "b \<notin> set bs \<or> sk_queue k \<noteq> []"
  shows "ready_ok bs (set_sock b k p)"
  unfolding ready_ok_def
proof (intro conjI ballI)
  fix c
  assume "c \<in> set bs"
  with assms show "case sock_of c (set_sock b k p) of None \<Rightarrow> False | Some k \<Rightarrow> sk_queue k \<noteq> []"
    by (cases "c = b") (auto simp: ready_ok_def)
qed (use assms in \<open>simp add: ready_ok_def\<close>)

lemma ready_ok_ready_socks: "ready_ok (ready_socks p) p"
  by (auto simp: ready_ok_def ready_socks_def sock_of_def split: option.splits)

lemma set_sock_fields [simp]:
  "thread (set_sock b k p) = thread p" "caller (set_sock b k p) = caller p" "running (set_sock b k p) = running p"
  "put_out (set_sock b k p) = put_out p" "peer_self (set_sock b k p) = peer_self p"
  by (simp_all add: set_sock_def)

text \<open>Replacing a socket by one that is as open keeps the flags in step.\<close>

lemma peer_ok_set_sock:
  assumes "peer_ok p" "sock_of b p = Some k" "sk_open k' = sk_open k" "ready_ok (pending_socks (thread p)) (set_sock b k' p)"
  shows "peer_ok (set_sock b k' p)"
  using assms by (cases b) (auto simp: peer_ok_def sock_of_def set_sock_def split: option.splits)

lemma peer_ok_thread:
  "peer_ok p \<Longrightarrow> ready_ok (pending_socks t) p \<Longrightarrow> peer_ok (p\<lparr>thread := t\<rparr>)"
  by (simp add: peer_ok_def split: option.splits)

lemma peer_ok_self [simp]: "peer_ok (p\<lparr>peer_self := s\<rparr>) = peer_ok p" "peer_ok (p\<lparr>put_out := ds\<rparr>) = peer_ok p"
  by (simp_all add: peer_ok_def split: option.splits)

lemma peer_ok_started: "peer_ok (started s hb)"
  by (simp add: peer_ok_def started_def new_socket_def)

text \<open>What is left of the ready sockets once the first is served.\<close>

lemma receive_turn_ok:
  assumes "peer_ok p" "thread p = Receiving (b # bs)"
  shows "peer_ok (receive_turn serve b bs p)"
proof -
  have r: "ready_ok (b # bs) p" using assms by (simp add: peer_ok_def)
  then obtain k where k: "sock_of b p = Some k" "sk_queue k \<noteq> []"
    by (auto simp: ready_ok_def split: option.splits)
  have rest: "ready_ok bs (set_sock b k' p)" for k'
    by (rule ready_ok_set_sock [OF ready_ok_sub [OF r]]) (use r in \<open>simp add: ready_ok_def\<close>)
  have base: "peer_ok (p\<lparr>thread := Receiving bs\<rparr>)"
    by (rule peer_ok_thread [OF assms(1)]) (simp add: ready_ok_sub [OF r])
  have popped: "peer_ok (set_sock b (k\<lparr>sk_queue := q\<rparr>) p\<lparr>thread := t\<rparr>)" if "ready_ok (pending_socks t) (set_sock b (k\<lparr>sk_queue := q\<rparr>) p)" for q t
    using assms(1) k(1) that by (cases b) (auto simp: peer_ok_def sock_of_def set_sock_def split: option.splits)
  have same: "set_sock b (k\<lparr>sk_queue := q\<rparr>) p\<lparr>peer_self := s, thread := t\<rparr> =
      set_sock b (k\<lparr>sk_queue := q\<rparr>) p\<lparr>thread := t\<rparr>\<lparr>peer_self := s\<rparr>" for q s t
    by simp
  show ?thesis
    using k rest popped peer_ok_thread [OF assms(1), of Returned]
    by (auto simp: receive_turn_def Let_def same split: list.splits arrival.splits prod.splits sum.splits)
qed

lemma thread_turn_ok: "peer_ok p \<Longrightarrow> peer_ok (thread_turn serve p)"
  by (auto simp: thread_turn_def receive_turn_ok ready_ok_ready_socks intro!: peer_ok_thread
      split: thread.splits list.splits) (simp_all add: peer_ok_def)

lemma stop_turn_ok: "peer_ok p \<Longrightarrow> peer_ok (stop_turn p)"
  by (auto simp: stop_turn_def peer_ok_def ready_ok_def sock_of_def split: caller.splits option.splits)

lemma arrives_ok:
  assumes "peer_ok p" "arrives b a p = Some q"
  shows "peer_ok q"
proof -
  from assms(2) obtain k where k: "sock_of b p = Some k" "q = set_sock b (k\<lparr>sk_queue := sk_queue k @ [a]\<rparr>) p"
    by (auto simp: arrives_def split: option.splits if_splits)
  have "ready_ok (pending_socks (thread p)) (set_sock b (k\<lparr>sk_queue := sk_queue k @ [a]\<rparr>) p)"
    by (rule ready_ok_set_sock) (use assms(1) in \<open>simp_all add: peer_ok_def\<close>)
  from peer_ok_set_sock [OF assms(1) k(1) _ this] k(2) show ?thesis by simp
qed

lemma peer_event_ok: "peer_ok p \<Longrightarrow> peer_event serve change ev p = Some q \<Longrightarrow> peer_ok q"
  by (cases ev) (auto simp: thread_turn_ok stop_turn_ok arrives_ok split: if_splits)

lemma peer_run_ok: "peer_run serve change p evs q \<Longrightarrow> peer_ok p \<Longrightarrow> peer_ok q"
  by (rule peer_run_invariant [where I = peer_ok]) (auto intro: peer_event_ok)

section \<open>Stopping\<close>

text \<open>How many turns the thread has left once it has been told to stop.\<close>

fun turns_left :: "thread \<Rightarrow> nat" where
  "turns_left At_while = 1"
| "turns_left In_select = 7"
| "turns_left (Receiving bs) = 2 * length bs + 2"
| "turns_left (Sending sends bs) = 2 * length bs + 3"
| "turns_left Returned = 0"
| "turns_left (Raised e) = 0"

lemma turns_left_0 [simp]: "turns_left t = 0 \<longleftrightarrow> ended t"
  by (cases t) auto

lemma turns_left_bound:
  assumes "peer_ok p"
  shows "turns_left (thread p) \<le> 7"
proof -
  have "length (pending_socks (thread p)) \<le> 2"
    using assms card_mono [of UNIV "set (pending_socks (thread p))"]
    by (simp add: peer_ok_def ready_ok_def distinct_card)
  then show ?thesis by (cases "thread p") auto
qed

lemma ready_socks_length: "length (ready_socks p) \<le> 2"
  by (simp add: ready_socks_def split: option.splits)

lemma thread_turn_progress:
  assumes "peer_ok p" "\<not> running p" "\<not> ended (thread p)"
  shows "turns_left (thread (thread_turn serve p)) < turns_left (thread p)"
proof (cases "thread p")
  case (Receiving bs)
  with assms(1) have "ready_ok bs p" by (simp add: peer_ok_def)
  with Receiving show ?thesis
    by (cases bs) (auto simp: thread_turn_def receive_turn_def ready_ok_def Let_def
        split: option.splits list.splits arrival.splits prod.splits sum.splits)
qed (use assms ready_socks_length [of p] in \<open>auto simp: thread_turn_def\<close>)

lemma thread_turn_running [simp]: "running (thread_turn serve p) = running p"
  by (auto simp: thread_turn_def receive_turn_def Let_def
      split: thread.splits option.splits list.splits arrival.splits prod.splits sum.splits)

lemma peer_event_quiet:
  assumes "peer_event serve change ev p = Some q" "ev \<noteq> Thread_turn"
  shows "thread q = thread p" "put_out q = put_out p" "\<not> running p \<Longrightarrow> \<not> running q"
  using assms by (cases ev; auto simp: stop_turn_def arrives_def split: caller.splits option.splits if_splits)+

lemma stopped_run:
  assumes "peer_run serve change p evs q" "peer_ok p" "\<not> running p"
  shows "\<not> running q \<and> count_list evs Thread_turn + turns_left (thread q) \<le> turns_left (thread p)"
  using assms
proof (induction rule: peer_run.induct)
  case (Next evs q ev q')
  have ok: "peer_ok q" using peer_run_ok Next.hyps(1) Next.prems(1) by blast
  show ?case
  proof (cases "ev = Thread_turn")
    case True
    with Next.hyps(2) have "\<not> ended (thread q)" "q' = thread_turn serve q" by (auto split: if_splits)
    with thread_turn_progress [OF ok _ this(1), of serve] Next.IH [OF Next.prems] True show ?thesis by auto
  next
    case False
    with peer_event_quiet [OF Next.hyps(2)] Next.IH [OF Next.prems] show ?thesis by simp
  qed
qed simp

text \<open>A Peer whose sockets are closed.\<close>

definition changes :: "('c \<Rightarrow> 's \<Rightarrow> 's) \<Rightarrow> 'c event list \<Rightarrow> 's \<Rightarrow> 's" where
  "changes change evs = fold (\<lambda>ev s. case ev of Changes c \<Rightarrow> change c s | _ \<Rightarrow> s) evs"

definition all_closed :: "'s peer \<Rightarrow> bool" where
  "all_closed p \<longleftrightarrow> peer_ok p \<and> caller p = Stopped"

lemma closed_turn:
  assumes "all_closed p"
  shows "put_out (thread_turn serve p) = put_out p \<and> peer_self (thread_turn serve p) = peer_self p \<and> caller (thread_turn serve p) = Stopped"
  using assms
  by (auto simp: all_closed_def peer_ok_def thread_turn_def receive_turn_def sock_of_def
      split: thread.splits option.splits list.splits if_splits)

section \<open>What a Peer keeps\<close>

text \<open>The frames of a sequence of arrivals_of taken from the sockets; a datagram \<open>Frame\<close> raises on has none.\<close>

definition kept_frames :: "(bool \<times> arrival) list \<Rightarrow> frame list" where
  "kept_frames = List.map_filter (\<lambda>(_, a). case a of
     Connection_reset \<Rightarrow> None
   | Datagram data source \<Rightarrow> (case Frame (recvfrom 2048 data) source of Inl e \<Rightarrow> None | Inr f \<Rightarrow> Some f))"

definition arrivals_of :: "'c event list \<Rightarrow> (bool \<times> arrival) list" where
  "arrivals_of = List.map_filter (\<lambda>ev. case ev of Arrives b a \<Rightarrow> Some (b, a) | _ \<Rightarrow> None)"

definition on_sock :: "bool \<Rightarrow> (bool \<times> arrival) list \<Rightarrow> arrival list" where
  "on_sock b tr = map snd (filter (\<lambda>(c, _). c = b) tr)"

definition queue_of :: "bool \<Rightarrow> 's peer \<Rightarrow> arrival list" where
  "queue_of b p = (case sock_of b p of None \<Rightarrow> [] | Some k \<Rightarrow> sk_queue k)"

text \<open>
  Everything that arrived is accounted for: on each socket it was taken, in order, or still waits;
  what was taken is what \<open>received\<close> and \<open>received_on_broadcast\<close> hold.
\<close>

definition accounted :: "(bool \<times> arrival) list \<Rightarrow> 'a device_scheme peer \<Rightarrow> bool" where
  "accounted tr p \<longleftrightarrow> (\<exists>taken. (\<forall>b. on_sock b tr = on_sock b taken @ queue_of b p) \<and>
     received (peer_self p) = kept_frames taken \<and>
     received_on_broadcast (peer_self p) = kept_frames (filter fst taken))"

lemma map_filter_append: "List.map_filter f (xs @ ys) = List.map_filter f xs @ List.map_filter f ys"
  by (simp add: List.map_filter_def)

lemma history_append [simp]:
  "kept_frames (xs @ ys) = kept_frames xs @ kept_frames ys" "on_sock b (xs @ ys) = on_sock b xs @ on_sock b ys"
  "arrivals_of (evs @ evs') = arrivals_of evs @ arrivals_of evs'"
  by (simp_all add: kept_frames_def on_sock_def arrivals_of_def map_filter_append)

lemma history_simps [simp]:
  "kept_frames [] = []" "on_sock b [] = []" "arrivals_of [] = []" "on_sock b [(c, a)] = (if c = b then [a] else [])"
  "arrivals_of [Thread_turn] = []" "arrivals_of [Stop_turn] = []" "arrivals_of [Changes c'] = []" "arrivals_of [Arrives c a] = [(c, a)]"
  "kept_frames [(c, Connection_reset)] = []"
  by (simp_all add: kept_frames_def on_sock_def arrivals_of_def map_filter_simps)

lemma queue_of_fields [simp]:
  "queue_of b (p\<lparr>thread := t\<rparr>) = queue_of b p" "queue_of b (p\<lparr>peer_self := s\<rparr>) = queue_of b p"
  "queue_of b (p\<lparr>put_out := ds\<rparr>) = queue_of b p" "queue_of b (set_sock c k p) = (if b = c then sk_queue k else queue_of b p)"
  by (simp_all add: queue_of_def sock_of_def set_sock_def)

lemma accounted_cong:
  assumes "accounted tr p" "\<And>b. queue_of b q = queue_of b p"
    and "received (peer_self q) = received (peer_self p)"
    and "received_on_broadcast (peer_self q) = received_on_broadcast (peer_self p)"
  shows "accounted tr q"
  using assms by (simp add: accounted_def)

lemma accounted_fields [simp]:
  "accounted tr (p\<lparr>thread := t\<rparr>) = accounted tr p" "accounted tr (p\<lparr>put_out := ds\<rparr>) = accounted tr p"
  by (simp_all add: accounted_def)

lemma accounted_arrives:
  assumes "accounted tr p" "arrives b a p = Some q"
  shows "accounted (tr @ [(b, a)]) q"
proof -
  from assms(1) obtain taken where t: "\<And>c. on_sock c tr = on_sock c taken @ queue_of c p"
      "received (peer_self p) = kept_frames taken" "received_on_broadcast (peer_self p) = kept_frames (filter fst taken)"
    unfolding accounted_def by blast
  from assms(2) obtain k where k: "sock_of b p = Some k" "q = set_sock b (k\<lparr>sk_queue := sk_queue k @ [a]\<rparr>) p"
    by (auto simp: arrives_def split: option.splits if_splits)
  from k(1) have "queue_of b p = sk_queue k" by (simp add: queue_of_def)
  with t k(2) show ?thesis unfolding accounted_def by (intro exI [of _ taken]) auto
qed

text \<open>Taking the first arrival of a socket, and what serving it added to the records.\<close>

lemma accounted_take:
  assumes "accounted tr p" "sock_of b p = Some k" "sk_queue k = a # rest"
    and "received s = received (peer_self p) @ kept_frames [(b, a)]"
    and "received_on_broadcast s = received_on_broadcast (peer_self p) @ (if b then kept_frames [(b, a)] else [])"
  shows "accounted tr (set_sock b (k\<lparr>sk_queue := rest\<rparr>) p\<lparr>peer_self := s\<rparr>)"
proof -
  from assms(1) obtain taken where t: "\<And>c. on_sock c tr = on_sock c taken @ queue_of c p"
      "received (peer_self p) = kept_frames taken" "received_on_broadcast (peer_self p) = kept_frames (filter fst taken)"
    unfolding accounted_def by blast
  have "queue_of b p = a # rest" using assms(2,3) by (simp add: queue_of_def)
  with t assms(4,5) show ?thesis
    unfolding accounted_def by (intro exI [of _ "taken @ [(b, a)]"]) auto
qed

locale recording_peer = responder answer
  for answer :: "frame \<Rightarrow> ('a device_scheme, octets option) exec" +
  fixes change :: "'c \<Rightarrow> 'a device_scheme \<Rightarrow> 'a device_scheme"
  assumes answer_history: "answer f s = (r, s') \<Longrightarrow>
      received s' = received s \<and> received_on_broadcast s' = received_on_broadcast s"
    and change_history: "received (change c s) = received s" "received_on_broadcast (change c s) = received_on_broadcast s"
begin

lemma serve_history:
  assumes "serve_one answer data source b s = (r, s')"
  shows "received s' = received s @ kept_frames [(b, Datagram data source)]"
    and "received_on_broadcast s' = received_on_broadcast s @ (if b then kept_frames [(b, Datagram data source)] else [])"
proof -
  have k: "kept_frames [(b, Datagram data source)] = (case Frame (recvfrom 2048 data) source of Inl e \<Rightarrow> [] | Inr f \<Rightarrow> [f])"
    by (simp add: kept_frames_def map_filter_simps split: sum.splits)
  show "received s' = received s @ kept_frames [(b, Datagram data source)]"
    and "received_on_broadcast s' = received_on_broadcast s @ (if b then kept_frames [(b, Datagram data source)] else [])"
    using assms unfolding k
    by (auto simp: serve_one_def ebind_def split: sum.splits prod.splits if_splits option.splits dest!: answer_history)
qed

lemma receive_accounted:
  assumes "accounted tr p"
  shows "accounted tr (receive_turn (serve_one answer) b bs p)"
proof (cases "sock_of b p")
  case (Some k)
  show ?thesis
  proof (cases "sk_open k \<and> sk_queue k \<noteq> []")
    case True
    then obtain a rest where q: "sk_queue k = a # rest" by (cases "sk_queue k") auto
    note take = accounted_take [OF assms Some q]
    show ?thesis
    proof (cases a)
      case Connection_reset
      have "accounted tr (set_sock b (k\<lparr>sk_queue := rest\<rparr>) p)"
        by (rule accounted_cong [OF take [of "peer_self p"]]) (simp_all add: Connection_reset)
      with Some q True Connection_reset show ?thesis
        by (simp add: receive_turn_def)
    next
      case (Datagram data source)
      obtain r s where r: "serve_one answer data source b (peer_self p) = (r, s)" by (metis surj_pair)
      have "accounted tr (set_sock b (k\<lparr>sk_queue := rest\<rparr>) p\<lparr>peer_self := s\<rparr>)"
        by (rule take) (use serve_history [OF r] Datagram in simp_all)
      with Some q True Datagram r show ?thesis
        by (simp add: receive_turn_def Let_def split: sum.splits)
    qed
  next
    case False
    with Some assms show ?thesis by (auto simp: receive_turn_def split: list.splits)
  qed
qed (simp add: receive_turn_def assms)

lemma event_accounted:
  assumes "accounted tr p" "peer_event (serve_one answer) change ev p = Some q"
  shows "accounted (tr @ arrivals_of [ev]) q"
proof (cases ev)
  case Thread_turn
  with assms show ?thesis
    by (auto simp: thread_turn_def receive_accounted split: if_splits thread.splits list.splits)
next
  case Stop_turn
  with assms show ?thesis
    by (auto simp: stop_turn_def elim!: accounted_cong split: if_splits caller.splits)
      (auto simp: queue_of_def sock_of_def split: option.splits)
next
  case (Arrives b a)
  with assms show ?thesis by (simp add: accounted_arrives)
next
  case (Changes c)
  with assms show ?thesis by (auto simp: change_history elim!: accounted_cong)
qed

lemma run_accounted:
  assumes "peer_run (serve_one answer) change p evs q" "accounted [] p"
  shows "accounted (arrivals_of evs) q"
  using assms by (induction rule: peer_run.induct) (auto dest: event_accounted)

end

section \<open>The two Peers\<close>

text \<open>What a test may set on a running server; a plain device has nothing to set.\<close>

datatype setting =
    Mode string
  | Failures "(object_ref \<times> string) list"
  | Whole_arrays_refused "(int \<times> int \<times> int) set"

fun server_change :: "setting \<Rightarrow> server \<Rightarrow> server" where
  "server_change (Mode m) s = s\<lparr>mode := m\<rparr>"
| "server_change (Failures fs) s = s\<lparr>failures := fs\<rparr>"
| "server_change (Whole_arrays_refused w) s = s\<lparr>whole_arrays_refused := w\<rparr>"

definition device_change :: "unit \<Rightarrow> device \<Rightarrow> device" where
  "device_change c d = d"

abbreviation (input) server_peer_run :: "server peer \<Rightarrow> setting event list \<Rightarrow> server peer \<Rightarrow> bool" where
  "server_peer_run \<equiv> peer_run server_serve server_change"

abbreviation (input) device_peer_run :: "device peer \<Rightarrow> unit event list \<Rightarrow> device peer \<Rightarrow> bool" where
  "device_peer_run \<equiv> peer_run device_serve device_change"

definition same_history :: "'a device_scheme \<Rightarrow> 'a device_scheme \<Rightarrow> bool" where
  "same_history s t \<longleftrightarrow> received t = received s \<and> received_on_broadcast t = received_on_broadcast s"

text \<open>No answer touches the record of what was received: the method's assignments are to other attributes.\<close>

named_theorems history_intros \<open>methods keep the record of what was received\<close>

lemma keeps_list: "(xs = [] \<Longrightarrow> keeps P m) \<Longrightarrow> (\<And>y ys. xs = y # ys \<Longrightarrow> keeps P (n y ys)) \<Longrightarrow>
  keeps P (case xs of [] \<Rightarrow> m | y # ys \<Rightarrow> n y ys)"
  by (cases xs) auto

lemma keeps_history_modify [history_intros]:
  assumes "\<And>t. received (h t) = received t" "\<And>t. received_on_broadcast (h t) = received_on_broadcast t"
  shows "keeps (same_history s) (emodify h)"
  using assms by (simp add: keeps_def same_history_def)

lemma store_property_history [simp]:
  "received (store_property key n v t) = received t"
  "received_on_broadcast (store_property key n v t) = received_on_broadcast t"
  by (simp_all add: store_property_def split: option.splits)

lemma command_slot_history [history_intros]: "keeps (same_history s) (command_slot key r n)"
  unfolding command_slot_def Let_def
  by (intro keeps_bind keeps_basic keeps_if keeps_list history_intros) simp_all

lemma commit_write_history [history_intros]: "keeps (same_history s) (commit_write r c n)"
  unfolding commit_write_def Let_def
  by (intro keeps_bind keeps_basic keeps_if history_intros) simp_all

lemma write_property_history [history_intros]: "keeps (same_history s) (write_property f request)"
  unfolding write_property_def on_write_def Let_def
  by (intro keeps_bind keeps_basic keeps_if keeps_option keeps_prod answer_with_keeps history_intros)

lemma note_read_history [history_intros]: "keeps (same_history s) (note_read choice specs)"
  unfolding note_read_def by (intro history_intros) simp_all

lemma read_history [history_intros]:
  "keeps (same_history s) (read_special f parsed failure)" "keeps (same_history s) (read_multiple f)"
  unfolding read_special_def read_multiple_def Let_def
  by (intro keeps_bind keeps_basic keeps_if keeps_option keeps_prod answer_with_keeps history_intros; simp)+

lemma answer_read_history [history_intros]: "keeps (same_history s) (answer_read f failure)"
  unfolding answer_read_def answer_listed_def Let_def
  by (intro keeps_bind keeps_basic keeps_if keeps_option keeps_prod answer_with_keeps device_answer_keeps history_intros)

lemma server_answer_history: "keeps (same_history s) (server_answer f)"
  unfolding server_answer_def answer_by_mode_def note_write_def Let_def
  by (intro keeps_bind keeps_basic keeps_if keeps_option keeps_prod answer_with_keeps failure_of_keeps
      device_answer_keeps history_intros) simp_all

lemma server_change_history:
  "received (server_change c s) = received s" "received_on_broadcast (server_change c s) = received_on_broadcast s"
  by (cases c; simp)+

lemma same_history_run: "keeps (same_history s) m \<Longrightarrow> m s = (r, s') \<Longrightarrow>
    received s' = received s \<and> received_on_broadcast s' = received_on_broadcast s"
  using keeps_run [of "same_history s" m s] by (simp add: same_history_def)

interpretation server_peer: recording_peer server_answer server_change
  by unfold_locales (simp_all add: same_history_run [OF server_answer_history] server_change_history)

interpretation device_peer: recording_peer "\<lambda>f d. (device_answer d f, d)" device_change
  by unfold_locales (simp_all add: device_change_def)

lemma accounted_started: "received s = [] \<Longrightarrow> received_on_broadcast s = [] \<Longrightarrow> accounted [] (started s hb)"
  by (auto simp: accounted_def started_def queue_of_def sock_of_def new_socket_def intro!: exI [of _ "[]"])

text \<open>The priority arrays stay consistent through every run in which no datagram ended the thread by an exception.\<close>

definition sound_server :: "server peer \<Rightarrow> bool" where
  "sound_server p \<longleftrightarrow> (\<forall>e. thread p \<noteq> Raised e) \<longrightarrow> server_ok (peer_self p)"

lemma server_change_ok: "server_ok (server_change c s) = server_ok s"
  by (cases c) simp_all

lemma thread_turn_sound:
  assumes "sound_server p" "\<not> ended (thread p)"
  shows "sound_server (thread_turn server_serve p)"
proof -
  have "server_ok (peer_self p)" using assms by (cases "thread p") (auto simp: sound_server_def)
  then show ?thesis
    by (auto simp: sound_server_def thread_turn_def receive_turn_def Let_def
        split: thread.splits list.splits option.splits arrival.splits prod.splits sum.splits
        dest: preserves_run [OF server_serve_ok])
qed

lemma server_run_sound:
  assumes "server_peer_run p evs q" "sound_server p"
  shows "sound_server q"
proof (rule peer_run_invariant [where I = sound_server, OF assms])
  fix ev q q'
  assume q: "sound_server q" and ev: "peer_event server_serve server_change ev q = Some q'"
  show "sound_server q'"
  proof (cases ev)
    case Thread_turn
    with q ev show ?thesis by (auto simp: thread_turn_sound split: if_splits)
  next
    case (Changes c)
    with q ev show ?thesis by (auto simp: sound_server_def server_change_ok)
  next
    case Stop_turn
    with q ev show ?thesis by (auto simp: sound_server_def stop_turn_def split: if_splits caller.splits)
  next
    case (Arrives b a)
    with q ev show ?thesis by (auto simp: sound_server_def arrives_def split: if_splits option.splits)
  qed
qed

text \<open>A thread that has ended does nothing any more.\<close>

lemma ended_run:
  assumes "peer_run serve change p evs q" "ended (thread p)"
  shows "thread q = thread p \<and> put_out q = put_out p \<and> peer_self q = changes change evs (peer_self p)"
  using assms
proof (induction rule: peer_run.induct)
  case (Next evs q ev q')
  then have e: "ended (thread q)" by simp
  with Next.hyps(2) have "ev \<noteq> Thread_turn" by auto
  from peer_event_quiet [OF Next.hyps(2) this] Next e show ?case
    by (cases ev) (auto simp: changes_def arrives_def stop_turn_def split: if_splits option.splits caller.splits)
qed (simp add: changes_def)

text \<open>Runs can be computed.\<close>

fun run_events :: "'s handler \<Rightarrow> ('c \<Rightarrow> 's \<Rightarrow> 's) \<Rightarrow> 'c event list \<Rightarrow> 's peer \<Rightarrow> 's peer option" where
  "run_events serve change [] p = Some p"
| "run_events serve change (ev # evs) p = Option.bind (peer_event serve change ev p) (run_events serve change evs)"

lemma peer_run_append:
  "peer_run serve change q evs' r \<Longrightarrow> peer_run serve change p evs q \<Longrightarrow> peer_run serve change p (evs @ evs') r"
  by (induction rule: peer_run.induct) (auto simp flip: append_assoc intro: peer_run.Next)

lemma run_events_run: "run_events serve change evs p = Some q \<Longrightarrow> peer_run serve change p evs q"
proof (induction evs arbitrary: p)
  case (Cons ev evs)
  then obtain p' where "peer_event serve change ev p = Some p'" "peer_run serve change p' evs q"
    by (auto simp: bind_eq_Some_conv)
  with peer_run_append [of serve change p' evs q p "[ev]"] peer_run.Next [OF peer_run.Begin] show ?case by fastforce
qed (simp add: peer_run.Begin)

section \<open>Claims\<close>

text \<open>C14: Whatever arrives on the sockets of a server, in whatever order its thread, the test and
  \<open>stop()\<close> take their turns: on each socket every arrival has been taken in order or still waits, the
  frames of those taken are exactly what \<open>received\<close> holds, in the order they were taken, and those
  taken from the broadcast socket are exactly what \<open>received_on_broadcast\<close> holds.\<close>
theorem server_accounts_for_arrivals:
  assumes "SimulatedServer inst name vendor objs may_write keys elements = Inr s"
    and "server_peer_run (started s hears_broadcasts) evs p"
  shows "\<exists>taken. (\<forall>b. on_sock b (arrivals_of evs) = on_sock b taken @ queue_of b p) \<and>
    received (peer_self p) = kept_frames taken \<and>
    received_on_broadcast (peer_self p) = kept_frames (filter fst taken)"
proof -
  have "received s = []" "received_on_broadcast s = []"
    using assms(1) by (auto simp: SimulatedServer_def rbind_eq_Inr)
  from server_peer.run_accounted [OF _ accounted_started [OF this]] assms(2)
  have "accounted (arrivals_of evs) p" by (simp add: server_serve_def)
  then show ?thesis by (simp add: accounted_def)
qed

definition example_who_is :: octets where
  "example_who_is = [0x81, 0x0B, 0, 8, 1, 0, 0x10, 8]"

definition example_events :: "setting event list" where
  "example_events = [Arrives True (Datagram example_who_is ([49], 47808)), Arrives False Connection_reset,
     Thread_turn, Thread_turn, Thread_turn, Thread_turn, Thread_turn]"

definition example_peer :: "server peer" where
  "example_peer = the (run_events server_serve server_change example_events (started example_server True))"

lemma example_run: "server_peer_run (started example_server True) example_events example_peer"
proof (rule run_events_run)
  have "run_events server_serve server_change example_events (started example_server True) \<noteq> None" by code_simp
  then show "run_events server_serve server_change example_events (started example_server True) = Some example_peer"
    by (simp add: example_peer_def)
qed

theorem server_accounts_for_arrivals_witness:
  "\<exists>taken. on_sock True (arrivals_of example_events) = on_sock True taken @ queue_of True example_peer \<and>
    received (peer_self example_peer) = kept_frames taken \<and> queue_of True example_peer = [] \<and>
    length (put_out example_peer) = 1"
proof -
  have "queue_of True example_peer = []" "length (put_out example_peer) = 1" by code_simp+
  then show ?thesis using server_accounts_for_arrivals [OF example_server_eq example_run] by blast
qed

text \<open>C22: After \<open>stop()\<close> has cleared the flag, the serving thread of any Peer takes at most seven more
  turns, whatever arrives and whatever the test does in between: it is never stuck before it has ended,
  and after seven turns it has ended.\<close>
theorem stopped_thread_ends:
  assumes "peer_run serve change (started s hears_broadcasts) evs p" and "caller p \<noteq> Testing"
    and "peer_run serve change p evs' q"
  shows "count_list evs' Thread_turn \<le> 7 \<and> (count_list evs' Thread_turn = 7 \<longrightarrow> ended (thread q)) \<and>
    (ended (thread q) \<or> (\<exists>q'. peer_event serve change Thread_turn q = Some q' \<and>
       turns_left (thread q') < turns_left (thread q)))"
proof -
  have p: "peer_ok p" using peer_run_ok [OF assms(1) peer_ok_started] .
  then have r: "\<not> running p" using assms(2) by (simp add: peer_ok_def)
  have q: "peer_ok q" by (rule peer_run_ok [OF assms(3) p])
  note s = stopped_run [OF assms(3) p r] turns_left_bound [OF p]
  have "turns_left (thread q) = 0" if "count_list evs' Thread_turn = 7" using s that by linarith
  moreover have "count_list evs' Thread_turn \<le> 7" using s by linarith
  ultimately show ?thesis using thread_turn_progress [OF q] s by auto
qed

text \<open>Stopped inside \<open>select\<close>, with a Who-Is waiting on each socket.\<close>

definition stopping_peer :: "server peer" where
  "stopping_peer = the (run_events server_serve server_change
     [Arrives True (Datagram example_who_is ([49], 47808)), Arrives False (Datagram example_who_is ([49], 47808)),
      Thread_turn, Stop_turn] (started example_server True))"

definition stopped_peer :: "server peer" where
  "stopped_peer = the (run_events server_serve server_change (replicate 7 Thread_turn @ replicate 3 Stop_turn) stopping_peer)"

lemma stopping_runs:
  "server_peer_run (started example_server True) [Arrives True (Datagram example_who_is ([49], 47808)),
     Arrives False (Datagram example_who_is ([49], 47808)), Thread_turn, Stop_turn] stopping_peer"
  "server_peer_run stopping_peer (replicate 7 Thread_turn @ replicate 3 Stop_turn) stopped_peer"
proof -
  have "run_events server_serve server_change [Arrives True (Datagram example_who_is ([49], 47808)),
      Arrives False (Datagram example_who_is ([49], 47808)), Thread_turn, Stop_turn] (started example_server True) \<noteq> None"
    "run_events server_serve server_change (replicate 7 Thread_turn @ replicate 3 Stop_turn) stopping_peer \<noteq> None"
    by code_simp+
  then show "server_peer_run (started example_server True) [Arrives True (Datagram example_who_is ([49], 47808)),
     Arrives False (Datagram example_who_is ([49], 47808)), Thread_turn, Stop_turn] stopping_peer"
    "server_peer_run stopping_peer (replicate 7 Thread_turn @ replicate 3 Stop_turn) stopped_peer"
    unfolding stopping_peer_def stopped_peer_def by (metis option.exhaust_sel run_events_run)+
qed

theorem stopped_thread_ends_witness: "ended (thread stopped_peer)"
proof -
  have "caller stopping_peer \<noteq> Testing" "count_list (replicate 7 Thread_turn @ replicate 3 Stop_turn) (Thread_turn :: setting event) = 7"
    by code_simp+
  with stopped_thread_ends [OF stopping_runs(1) _ stopping_runs(2)] show ?thesis by blast
qed

text \<open>C36: A datagram whose NPDU announces a destination but ends within its first three octets ends the
  serving thread with \<open>struct.error\<close>: it is not kept, and from then on the Peer neither answers nor
  keeps anything, whatever arrives.\<close>
theorem truncated_datagram_ends_peer:
  assumes "thread p = Receiving (b # bs)" "sock_of b p = Some k" "sk_open k"
    and "sk_queue k = Datagram ([octet_of BVLC_TYPE, octet_of fn, l1, l2, 1, control] @ xs) source # rest"
    and "fn \<in> {BVLC_DISTRIBUTE_BROADCAST_TO_NETWORK, BVLC_ORIGINAL_UNICAST, BVLC_ORIGINAL_BROADCAST}"
    and "uint control AND 0x20 \<noteq> 0" "length xs < 3"
    and "peer_run (serve_one answer) change (thread_turn (serve_one answer) p) evs q"
  shows "thread q = Raised StructError \<and> put_out q = put_out p \<and> peer_self q = changes change evs (peer_self p)"
proof -
  let ?data = "[octet_of BVLC_TYPE, octet_of fn, l1, l2, 1, control] @ xs"
  have "recvfrom 2048 ?data = ?data" using assms(7) by (simp add: recvfrom_def)
  with truncated_destination_raises [OF assms(5-7), of l1 l2 source]
  have "serve_one answer ?data source b (peer_self p) = (Inl StructError, peer_self p)"
    by (simp add: serve_one_def)
  with assms(1-4) have t: "thread (thread_turn (serve_one answer) p) = Raised StructError"
    "put_out (thread_turn (serve_one answer) p) = put_out p" "peer_self (thread_turn (serve_one answer) p) = peer_self p"
    by (simp_all add: thread_turn_def receive_turn_def Let_def)
  with ended_run [OF assms(8)] show ?thesis by simp
qed

theorem truncated_datagram_ends_peer_witness:
  "thread (thread_turn server_serve (the (run_events server_serve server_change
     [Arrives False (Datagram [0x81, 0x0A, 0, 7, 1, 0x20, 0xFF] ([49], 47808)), Thread_turn, Thread_turn]
     (started example_server False)))) = Raised StructError"
proof -
  let ?p = "the (run_events server_serve server_change
     [Arrives False (Datagram [0x81, 0x0A, 0, 7, 1, 0x20, 0xFF] ([49], 47808)), Thread_turn, Thread_turn]
     (started example_server False))"
  let ?k = "\<lparr>sk_queue = [Datagram [0x81, 0x0A, 0, 7, 1, 0x20, 0xFF] ([49], 47808)], sk_open = True\<rparr>"
  have "thread ?p = Receiving [False]" "sock_of False ?p = Some ?k" "uint (0x20 :: octet) AND 0x20 \<noteq> 0" by code_simp+
  from truncated_datagram_ends_peer [OF this(1,2) _ _ _ this(3), of BVLC_ORIGINAL_UNICAST 0 7 "[0xFF]" "([49], 47808)" "[]"
      server_answer server_change "[]", OF _ _ _ _ peer_run.Begin]
  show ?thesis by (simp add: server_serve_def octet_of_def)
qed

end
