(* ===== verification/Workstation.thy ===== *)
theory Workstation
  imports Client Serving
begin

text \<open>
  \<^verbatim>\<open>src/wiretest/workstation.py\<close>: a client that is also an event recipient. Its thread
  keeps notifications, acknowledges confirmed ones and hands every other answer to the request that
  waits for it; the thread's sends are the log \<open>acknowledged\<close>, the requesting side's are \<open>sent\<close>
  (a BACnet device does not answer a SimpleACK, so the network parameter is asked about requests
  only). A datagram whose handling raises ends the thread. The loop around the handler and
  \<open>close()\<close> are those of \<open>Serving\<close>, on one socket.
\<close>

section \<open>State\<close>

record 'w workstation = "'w udp" +
  notifications :: "notification list"
  responses :: "frame list"
  acknowledged :: "datagram list"
  ws_invoke_id :: int
  answer_notifications :: bool
  ws_retries :: int
  ws_timeout :: int
  thread_alive :: bool

definition Workstation :: "'w udp \<Rightarrow> bool \<Rightarrow> int \<Rightarrow> int \<Rightarrow> 'w workstation" where
  "Workstation u answering retries timeout = udp.extend (udp.truncate u)
     \<lparr>notifications = [], responses = [], acknowledged = [], ws_invoke_id = 0, answer_notifications = answering,
      ws_retries = retries, ws_timeout = timeout, thread_alive = True\<rparr>"

section \<open>Receiving\<close>

definition acknowledge :: "frame \<Rightarrow> address \<Rightarrow> datagram list result" where
  "acknowledge f source =
     rbind (answered_id f) (\<lambda>iid. rbind (simple_ack iid SERVICE_CONFIRMED_EVENT_NOTIFICATION) (\<lambda>apdu.
     rbind (npdu apdu npdu_defaults) (\<lambda>n. rbind (bvlc n False) (\<lambda>octets. Inr [(octets, source)]))))"

text \<open>What the thread does with a datagram, and what it then sends.\<close>

definition ws_handle :: "octets \<Rightarrow> address \<Rightarrow> ('w workstation, datagram list) exec" where
  "ws_handle data source =
     ebind (elift (Frame (recvfrom 2048 data) source)) (\<lambda>f.
     if \<not> frame_ok f \<or> network_message f \<noteq> None then eret []
     else
     ebind (elift (is_event_notification f)) (\<lambda>event.
     if event then
       ebind (elift (EventNotification f)) (\<lambda>n.
       ebind (emodify (\<lambda>s. s\<lparr>notifications := notifications s @ [n]\<rparr>)) (\<lambda>_.
       ebind (eget answer_notifications) (\<lambda>answering.
       if en_confirmed n \<and> answering then elift (acknowledge f source) else eret [])))
     else if pdu_type f \<in> Some ` RESPONSE_TYPES then
       ebind (emodify (\<lambda>s. s\<lparr>responses := responses s @ [f]\<rparr>)) (\<lambda>_. eret [])
     else eret []))"

definition ws_serve :: "'w workstation handler" where
  "ws_serve data source on_broadcast = ws_handle data source"

text \<open>
  The thread beside the test: \<open>_serve\<close> is the loop of \<open>Serving\<close> on one socket with this handler, and
  \<open>close()\<close> is \<open>stop()\<close> without a second socket to close.
\<close>

definition ws_thread_turn :: "'w workstation peer \<Rightarrow> 'w workstation peer" where
  "ws_thread_turn p = thread_turn ws_serve p"

definition ws_close_turn :: "'w workstation peer \<Rightarrow> 'w workstation peer" where
  "ws_close_turn p = stop_turn p"

text \<open>One turn of \<open>_serve\<close> with an arrival; an exception ends the thread.\<close>

definition ws_turn :: "arrival \<Rightarrow> 'w workstation \<Rightarrow> 'w workstation" where
  "ws_turn a s = (case a of
     Connection_reset \<Rightarrow> s
   | Datagram data source \<Rightarrow> (case ws_handle data source s of
       (Inl e, s') \<Rightarrow> s'\<lparr>thread_alive := False\<rparr>
     | (Inr sends, s') \<Rightarrow> s'\<lparr>acknowledged := acknowledged s' @ sends\<rparr>))"

text \<open>It is what the thread's turn does to the workstation, with the sends counted at once.\<close>

lemma ws_turn_thread:
  assumes "thread p = Receiving [False]" "sk_open (own_sock p)" "sk_queue (own_sock p) = Datagram data source # rest"
  shows "ws_turn (Datagram data source) (peer_self p) = (let q = ws_thread_turn p in
    case thread q of
      Raised e \<Rightarrow> (peer_self q)\<lparr>thread_alive := False\<rparr>
    | Sending sends bs \<Rightarrow> (peer_self q)\<lparr>acknowledged := acknowledged (peer_self q) @ sends\<rparr>
    | _ \<Rightarrow> peer_self q)"
  using assms
  by (simp add: ws_turn_def ws_thread_turn_def thread_turn_def receive_turn_def sock_of_def ws_serve_def Let_def
      split: prod.splits sum.splits)

text \<open>
  \<open>self._arrived.wait(remaining)\<close>: the thread takes its next turn before the deadline, or the
  deadline passes.
\<close>

definition ws_next :: "int \<Rightarrow> 'w workstation \<Rightarrow> 'w workstation" where
  "ws_next deadline s = (case inbox s of
     (t, a) # rest \<Rightarrow>
       if thread_alive s \<and> t \<le> deadline then ws_turn a (s\<lparr>clock := max (clock s) t, inbox := rest\<rparr>)
       else s\<lparr>clock := deadline\<rparr>
   | [] \<Rightarrow> s\<lparr>clock := deadline\<rparr>)"

lemma ws_handle_fields:
  assumes "ws_handle data source s = (r, s')"
  shows "inbox s' = inbox s \<and> clock s' = clock s \<and> sent s' = sent s \<and> world s' = world s \<and>
    ws_invoke_id s' = ws_invoke_id s \<and> thread_alive s' = thread_alive s"
proof -
  have "keeps (\<lambda>t. inbox t = inbox s \<and> clock t = clock s \<and> sent t = sent s \<and> world t = world s \<and>
    ws_invoke_id t = ws_invoke_id s \<and> thread_alive t = thread_alive s) (ws_handle data source)"
    unfolding ws_handle_def by (intro keeps_intros) simp_all
  from keeps_run [OF this, of s] assms show ?thesis by simp
qed

lemma ws_turn_fields:
  "inbox (ws_turn a s) = inbox s" "clock (ws_turn a s) = clock s" "sent (ws_turn a s) = sent s"
  "world (ws_turn a s) = world s" "ws_invoke_id (ws_turn a s) = ws_invoke_id s"
  by (auto simp: ws_turn_def split: arrival.splits prod.splits sum.splits dest!: ws_handle_fields)

lemma ws_next_fields:
  "sent (ws_next deadline s) = sent s" "world (ws_next deadline s) = world s"
  "ws_invoke_id (ws_next deadline s) = ws_invoke_id s"
  by (auto simp: ws_next_def ws_turn_fields split: list.splits)

definition ws_left :: "int \<Rightarrow> 'w workstation \<Rightarrow> nat" where
  "ws_left deadline s = 2 * length (inbox s) + (if clock s < deadline then 1 else 0)"

lemma ws_next_progress: "clock s < deadline \<Longrightarrow> ws_left deadline (ws_next deadline s) < ws_left deadline s"
  by (auto simp: ws_left_def ws_next_def ws_turn_fields split: list.splits)

text \<open>\<open>for notification in ...: if predicate(notification): return notification\<close>.\<close>

fun find_first :: "('a \<Rightarrow> bool result) \<Rightarrow> 'a list \<Rightarrow> 'a option result" where
  "find_first predicate [] = Inr None"
| "find_first predicate (x # xs) = rbind (predicate x) (\<lambda>hit. if hit then Inr (Some x) else find_first predicate xs)"

function wait_for_notification_from ::
  "(notification \<Rightarrow> bool result) \<Rightarrow> int \<Rightarrow> nat \<Rightarrow> ('w workstation, notification option) exec" where
  "wait_for_notification_from predicate deadline after s =
     (case find_first predicate (drop after (notifications s)) of
        Inl e \<Rightarrow> (Inl e, s)
      | Inr (Some n) \<Rightarrow> (Inr (Some n), s)
      | Inr None \<Rightarrow>
          if deadline - clock s \<le> 0 then (Inr None, s)
          else wait_for_notification_from predicate deadline after (ws_next deadline s))"
  by pat_completeness auto
termination
  by (relation "measure (\<lambda>(p, deadline, after, s). ws_left deadline s)") (simp_all add: ws_next_progress)

declare wait_for_notification_from.simps [simp del]

definition wait_for_notification ::
  "(notification \<Rightarrow> bool result) \<Rightarrow> int \<Rightarrow> nat \<Rightarrow> ('w workstation, notification option) exec" where
  "wait_for_notification predicate duration after s =
     wait_for_notification_from predicate (clock s + duration) after s"

definition notifications_since :: "nat \<Rightarrow> 'w workstation \<Rightarrow> notification list" where
  "notifications_since after s = drop after (notifications s)"

definition mark :: "'w workstation \<Rightarrow> nat" where
  "mark s = length (notifications s)"

section \<open>Requesting\<close>

text \<open>\<open>[frame for frame in responses if frame.invoke_id != invoke_id]\<close>.\<close>

fun other_responses :: "int \<Rightarrow> frame list \<Rightarrow> frame list result" where
  "other_responses iid [] = Inr []"
| "other_responses iid (f # fs) =
     rbind (invoke_id f) (\<lambda>i. rbind (other_responses iid fs) (\<lambda>rest. Inr (if i \<noteq> Some iid then f # rest else rest)))"

text \<open>The first response with this invoke id, taken out of the list.\<close>

fun take_response :: "int \<Rightarrow> frame list \<Rightarrow> (frame \<times> frame list) option result" where
  "take_response iid [] = Inr None"
| "take_response iid (f # fs) =
     rbind (invoke_id f) (\<lambda>i.
     if i = Some iid then Inr (Some (f, fs))
     else rbind (take_response iid fs) (\<lambda>r. Inr (map_option (\<lambda>(g, rest). (g, f # rest)) r)))"

function wait_response :: "int \<Rightarrow> int \<Rightarrow> ('w workstation, answer) exec" where
  "wait_response iid deadline s =
     (case take_response iid (responses s) of
        Inl e \<Rightarrow> (Inl e, s)
      | Inr (Some (f, rest)) \<Rightarrow> (Inr (Some f), s\<lparr>responses := rest\<rparr>)
      | Inr None \<Rightarrow>
          if deadline - clock s \<le> 0 then (Inr None, s)
          else wait_response iid deadline (ws_next deadline s))"
  by pat_completeness auto
termination
  by (relation "measure (\<lambda>(iid, deadline, s). ws_left deadline s)") (simp_all add: ws_next_progress)

declare wait_response.simps [simp del]

definition ws_attempt :: "'w network \<Rightarrow> octets \<Rightarrow> address \<Rightarrow> int \<Rightarrow> int \<Rightarrow> ('w workstation, answer) exec" where
  "ws_attempt net octets target iid duration =
     ebind (ep_send net octets target) (\<lambda>_. \<lambda>s. wait_response iid (clock s + duration) s)"

definition ws_request ::
  "'w network \<Rightarrow> (int \<Rightarrow> octets result) \<Rightarrow> address \<Rightarrow> int option \<Rightarrow> ('w workstation, answer) exec" where
  "ws_request net build_apdu target timeout =
     ebind (emodify (\<lambda>s. s\<lparr>ws_invoke_id := (ws_invoke_id s + 1) mod 256\<rparr>)) (\<lambda>_.
     ebind (eget ws_invoke_id) (\<lambda>iid.
     ebind (eget (\<lambda>s. other_responses iid (responses s))) (\<lambda>others. ebind (elift others) (\<lambda>rs.
     ebind (emodify (\<lambda>s. s\<lparr>responses := rs\<rparr>)) (\<lambda>_.
     ebind (elift (rbind (build_apdu iid) (\<lambda>apdu.
       rbind (npdu apdu (npdu_defaults\<lparr>arg_expecting_reply := True\<rparr>)) (\<lambda>n. bvlc n False)))) (\<lambda>octets.
     ebind (eget (\<lambda>s. (ws_retries s, case timeout of None \<Rightarrow> ws_timeout s | Some t \<Rightarrow> t))) (\<lambda>(retries, duration).
     send_with_retries (ws_attempt net octets target iid) retries duration)))))))"

definition send_unconfirmed :: "'w network \<Rightarrow> octets \<Rightarrow> address \<Rightarrow> ('w workstation, unit) exec" where
  "send_unconfirmed net apdu target =
     ebind (elift (rbind (npdu apdu npdu_defaults) (\<lambda>n. bvlc n False))) (\<lambda>octets. ep_send net octets target)"

definition ws_announce :: "'w network \<Rightarrow> int \<Rightarrow> address \<Rightarrow> int \<Rightarrow> ('w workstation, unit) exec" where
  "ws_announce net instance_number target vendor =
     ebind (elift (i_am instance_number vendor 1476 3)) (\<lambda>apdu. send_unconfirmed net apdu target)"

section \<open>What a request does\<close>

lemma take_response_Some:
  "take_response iid fs = Inr (Some (f, rest)) \<Longrightarrow> f \<in> set fs \<and> invoke_id f = Inr (Some iid) \<and>
   (\<exists>a b. fs = a @ f # b \<and> rest = a @ b)"
proof (induction fs arbitrary: rest)
  case (Cons g fs)
  then show ?case
    by (auto simp: rbind_eq_Inr split: if_splits) (metis append_Cons)+
qed simp

lemma wait_response_result:
  assumes "wait_response iid deadline s = (r, s')"
  shows "sent s' = sent s \<and> ws_invoke_id s' = ws_invoke_id s \<and>
    (r = Inr (Some f) \<longrightarrow> invoke_id f = Inr (Some iid))"
  using assms
proof (induction iid deadline s rule: wait_response.induct)
  case (1 iid deadline s)
  have r: "(r, s') = (case take_response iid (responses s) of
        Inl e \<Rightarrow> (Inl e, s)
      | Inr (Some (f, rest)) \<Rightarrow> (Inr (Some f), s\<lparr>responses := rest\<rparr>)
      | Inr None \<Rightarrow>
          if deadline - clock s \<le> 0 then (Inr None, s)
          else wait_response iid deadline (ws_next deadline s))"
    using "1.prems" by (subst (asm) wait_response.simps) simp
  then show ?case
    using "1.IH" [of None]
    by (auto simp: ws_next_fields split: sum.splits option.splits prod.splits if_splits dest: take_response_Some)
qed

lemma ws_attempt_eq:
  "ws_attempt net octets target iid duration s = wait_response iid (clock s + duration) (after_send net (octets, target) s)"
  by (simp add: ws_attempt_def ep_send_def)

interpretation ws_retry: retrying "ws_attempt net octets target iid duration" sent "(octets, target)"
  "\<lambda>f. invoke_id f = Inr (Some iid)"
  by unfold_locales (auto simp: ws_attempt_eq dest!: wait_response_result)

text \<open>A request as its attempts, and what a response without an invoke id does to it.\<close>

lemma ws_request_eq:
  assumes "other_responses iid (responses s) = Inr rs" "iid = (ws_invoke_id s + 1) mod 256"
    and "request_octets build None [] iid = Inr octets"
  shows "ws_request net build target timeout s =
    attempts_left (ws_attempt net octets target iid (case timeout of None \<Rightarrow> ws_timeout s | Some t \<Rightarrow> t))
      (nat (1 + ws_retries s)) (s\<lparr>ws_invoke_id := iid, responses := rs\<rparr>)"
proof -
  have "npdu_defaults\<lparr>arg_dnet := None, arg_dadr := [], arg_expecting_reply := True\<rparr> = npdu_defaults\<lparr>arg_expecting_reply := True\<rparr>"
    by (simp add: npdu_defaults_def)
  with assms show ?thesis
    by (cases timeout) (simp_all add: ws_request_def request_octets_def send_with_retries_def)
qed

lemma invoke_id_raises: "invoke_id f = Inl e \<Longrightarrow> e = IndexError"
  by (auto simp: invoke_id_def index_def split: if_splits)

lemma other_responses_raises:
  "f \<in> set fs \<Longrightarrow> invoke_id f = Inl e \<Longrightarrow> other_responses iid fs = Inl IndexError"
proof (induction fs)
  case (Cons g fs)
  then show ?case by (cases "invoke_id g") (auto dest: invoke_id_raises)
qed simp

section \<open>Notifications\<close>

lemma notification_loop_head:
  assumes "notification_loop octets position n = Inr m"
  shows "en_confirmed m = en_confirmed n \<and> en_invoke_id m = en_invoke_id n"
  using assms
proof (induction octets position n rule: notification_loop.induct)
  case (1 octets position n)
  have field: "notification_field k b n = Inr n' \<Longrightarrow> en_confirmed n' = en_confirmed n \<and> en_invoke_id n' = en_invoke_id n" for k b n'
    by (auto simp: notification_field_def Let_def rbind_eq_Inr split: if_splits)
  show ?case
  proof (cases "position < length octets")
    case True
    define body where "body t = (if tag_kind (t :: tag) = Open then
          (if tag_number t = 3
           then rbind (read_time_stamp octets (tag_next t)) (\<lambda>(stamp, position).
                notification_loop octets position (n\<lparr>en_time_stamp := stamp\<rparr>))
           else rbind (skip_constructed octets (tag_next t)) (\<lambda>position. notification_loop octets position n))
        else if tag_kind t \<noteq> Value \<or> \<not> tag_context t then notification_loop octets (tag_next t) n
        else rbind (notification_field (tag_number t) (tag_body t) n) (notification_loop octets (tag_next t)))" for t
    have "rbind (read_tag octets position) body = Inr m"
      using "1.prems" True notification_loop.simps [of octets position n] by (simp add: body_def [abs_def])
    then obtain t where rt: "read_tag octets position = Inr t" and "body t = Inr m" unfolding rbind_eq_Inr by blast
    note t = this(2) [unfolded body_def]
    consider (stamp) "tag_kind t = Open" "tag_number t = 3" | (skip) "tag_kind t = Open" "tag_number t \<noteq> 3"
      | (other) "tag_kind t \<noteq> Open" "tag_kind t \<noteq> Value \<or> \<not> tag_context t"
      | (given) "tag_kind t \<noteq> Open" "\<not> (tag_kind t \<noteq> Value \<or> \<not> tag_context t)" by blast
    then show ?thesis
    proof cases
      case stamp
      with t obtain st q where q: "read_time_stamp octets (tag_next t) = Inr (st, q)"
        "notification_loop octets q (n\<lparr>en_time_stamp := st\<rparr>) = Inr m" by (auto simp: rbind_eq_Inr)
      from "1.IH"(1) [OF True rt stamp q(1) refl q(2)] show ?thesis by simp
    next
      case skip
      with t obtain q where q: "skip_constructed octets (tag_next t) = Inr q" "notification_loop octets q n = Inr m"
        by (auto simp: rbind_eq_Inr)
      from "1.IH"(2) [OF True rt skip q] show ?thesis by simp
    next
      case other
      with t have q: "notification_loop octets (tag_next t) n = Inr m" by simp
      from "1.IH"(3) [OF True rt other q] show ?thesis by simp
    next
      case given
      with t obtain n' where q: "notification_field (tag_number t) (tag_body t) n = Inr n'" "notification_loop octets (tag_next t) n' = Inr m"
        by (auto simp: rbind_eq_Inr)
      from "1.IH"(4) [OF True rt given q] field [OF q(1)] show ?thesis by simp
    qed
  next
    case False
    with "1.prems" show ?thesis by (subst (asm) notification_loop.simps) simp
  qed
qed

lemma EventNotification_confirmed: "EventNotification f = Inr n \<Longrightarrow> en_confirmed n \<longleftrightarrow> pdu_type f = Some PDU_CONFIRMED_REQUEST"
  by (auto simp: EventNotification_def Let_def rbind_eq_Inr dest!: notification_loop_head)

text \<open>A confirmed notification has room for its invoke id, for its service choice is there.\<close>

lemma confirmed_notification_id:
  assumes "is_event_notification f = Inr True" "pdu_type f = Some PDU_CONFIRMED_REQUEST"
  shows "\<exists>iid. invoke_id f = Inr (Some iid) \<and> unsigned8 iid"
proof -
  from assms have "service f = Inr (Some SERVICE_CONFIRMED_EVENT_NOTIFICATION)"
    by (auto simp: is_event_notification_def rbind_eq_Inr split: if_splits)
  with assms(2) have "3 < length (payload f)" by (auto simp: service_def split: if_splits)
  with assms(2) have "invoke_id f = Inr (Some (uint (payload f ! 2)))" by (simp add: invoke_id_def)
  moreover have "unsigned8 (uint (payload f ! 2))" using uint_bounded [of "payload f ! 2"] by simp
  ultimately show ?thesis by blast
qed

lemma acknowledge_answer:
  assumes "invoke_id f = Inr (Some iid)" "unsigned8 iid"
  obtains ack g where "acknowledge f source = Inr [(ack, source)]" "Frame ack here = Inr g" "frame_ok g"
    "pdu_type g = Some PDU_SIMPLE_ACK" "service g = Inr (Some SERVICE_CONFIRMED_EVENT_NOTIFICATION)" "is_answer_to iid g = Inr True"
proof -
  have fits: "npdu_fits npdu_defaults" by (simp add: npdu_fits_def npdu_defaults_def)
  define r where "r = [0x20, octet_of iid, 2 :: octet]"
  have r: "simple_ack iid SERVICE_CONFIRMED_EVENT_NOTIFICATION = Inr r"
    using simple_ack_eq [OF assms(2), of 2] by (simp add: r_def octet_of_def)
  obtain rn where rn: "npdu r npdu_defaults = Inr rn" "length rn < 65532"
    using npdu_eq [OF fits, of r] by (simp add: net_field_def npdu_tail_def npdu_defaults_def r_def)
  obtain ack where ack: "bvll BVLC_ORIGINAL_UNICAST rn = Inr ack" using bvll_eq [of BVLC_ORIGINAL_UNICAST rn] rn(2) by auto
  let ?g = "npdu_frame r npdu_defaults BVLC_ORIGINAL_UNICAST ack here"
  have t: "pdu_type ?g = Some PDU_SIMPLE_ACK"
    by (simp add: pdu_type_def npdu_frame_def npdu_defaults_def r_def drop_bit_eq_div)
  show thesis
  proof (rule that [of ack ?g])
    show "acknowledge f source = Inr [(ack, source)]"
      using assms(1) r rn(1) ack by (simp add: acknowledge_def answered_id_def needed_def bvlc_def)
    show "Frame ack here = Inr ?g"
      using Frame_bvll_npdu [OF fits rn, of BVLC_ORIGINAL_UNICAST ack here] ack by simp
    show "service ?g = Inr (Some SERVICE_CONFIRMED_EVENT_NOTIFICATION)"
      unfolding service_def t by (simp add: npdu_frame_def r_def index_def)
    show "is_answer_to iid ?g = Inr True"
      using npdu_frame_answer [OF answers_simple_ack [OF r], of npdu_defaults BVLC_ORIGINAL_UNICAST ack here]
      by (simp add: is_answer_to_def npdu_frame_def npdu_defaults_def)
  qed (simp_all add: t, simp add: npdu_frame_def)
qed

section \<open>Poisoned by a short response\<close>

text \<open>Whatever the thread and the test do after a state: arrivals, waits, requests and other sends.\<close>

inductive ws_later :: "'w workstation \<Rightarrow> 'w workstation \<Rightarrow> bool" for s where
  Now: "ws_later s s"
| Turn: "ws_later s t \<Longrightarrow> ws_later s (ws_turn a t)"
| Waited: "ws_later s t \<Longrightarrow> ws_later s (snd (wait_for_notification predicate duration after t))"
| Requested: "ws_later s t \<Longrightarrow> ws_later s (snd (ws_request net build target timeout t))"
| Sent: "ws_later s t \<Longrightarrow> ws_later s (snd (send_unconfirmed net apdu target t))"
| Announced: "ws_later s t \<Longrightarrow> ws_later s (snd (ws_announce net instance_number target vendor t))"

lemma ws_handle_keeps_response: "f \<in> set (responses s) \<Longrightarrow> f \<in> set (responses (snd (ws_handle data source s)))"
proof -
  assume f: "f \<in> set (responses s)"
  have "keeps (\<lambda>t. f \<in> set (responses t)) (ws_handle data source)"
    unfolding ws_handle_def by (intro keeps_intros) simp_all
  from keeps_run [OF this, of s] f show ?thesis .
qed

lemma ws_turn_keeps_response: "f \<in> set (responses s) \<Longrightarrow> f \<in> set (responses (ws_turn a s))"
  using ws_handle_keeps_response [of f s]
  by (auto simp: ws_turn_def split: arrival.splits prod.splits sum.splits) (metis snd_conv)+

lemma ws_next_keeps_response: "f \<in> set (responses s) \<Longrightarrow> f \<in> set (responses (ws_next deadline s))"
  by (auto simp: ws_next_def ws_turn_keeps_response split: list.splits)

lemma wait_for_notification_keeps_response:
  "f \<in> set (responses s) \<Longrightarrow> f \<in> set (responses (snd (wait_for_notification_from predicate deadline after s)))"
proof (induction predicate deadline after s rule: wait_for_notification_from.induct)
  case (1 predicate deadline after s)
  then show ?case
    by (subst wait_for_notification_from.simps) (auto simp: ws_next_keeps_response split: sum.splits option.splits)
qed

lemma poisoned_request:
  assumes "f \<in> set (responses s)" "invoke_id f = Inl e"
  shows "ws_request net build target timeout s = (Inl IndexError, s\<lparr>ws_invoke_id := (ws_invoke_id s + 1) mod 256\<rparr>)"
  using other_responses_raises [OF assms] by (simp add: ws_request_def)

lemma after_send_responses [simp]: "responses (after_send net d s) = responses s"
  by (simp add: after_send_def split: prod.splits)

lemma ws_later_keeps_response:
  assumes "ws_later s t" "f \<in> set (responses s)" "invoke_id f = Inl e"
  shows "f \<in> set (responses t)"
  using assms
proof (induction rule: ws_later.induct)
  case (Sent t net apdu target)
  then show ?case by (auto simp: send_unconfirmed_def ep_send_def ebind_lift split: sum.splits)
next
  case (Announced t net instance_number target vendor)
  then show ?case by (auto simp: ws_announce_def send_unconfirmed_def ep_send_def ebind_lift split: sum.splits)
qed (simp_all add: ws_turn_keeps_response wait_for_notification_keeps_response wait_for_notification_def poisoned_request)

lemma short_response_kept:
  assumes "Frame (recvfrom 2048 data) source = Inr f" "frame_ok f" "pdu_type f \<in> Some ` RESPONSE_TYPES"
  shows "ws_turn (Datagram data source) s = s\<lparr>responses := responses s @ [f]\<rparr>"
proof -
  have "network_message f = None" using assms(3) by (auto simp: pdu_type_def split: if_splits)
  moreover have "is_event_notification f = Inr False" using assms(3) by (auto simp: is_event_notification_def)
  ultimately show ?thesis using assms by (auto simp: ws_turn_def ws_handle_def ebind_lift)
qed

lemma short_response_poisons:
  assumes "Frame (recvfrom 2048 data) source = Inr f" "frame_ok f" "pdu_type f \<in> Some ` RESPONSE_TYPES" "payload f = [b]"
  shows "invoke_id f = Inl IndexError"
    and "responses (snd (ws_request net build target timeout (ws_turn (Datagram data source) s))) = responses s @ [f]"
proof -
  show iid: "invoke_id f = Inl IndexError" using assms(3,4) unfolding invoke_id_def by (simp add: index_def)
  have "f \<in> set (responses (s\<lparr>responses := responses s @ [f]\<rparr>))" by simp
  from poisoned_request [OF this iid]
  show "responses (snd (ws_request net build target timeout (ws_turn (Datagram data source) s))) = responses s @ [f]"
    unfolding short_response_kept [OF assms(1-3)] by simp
qed

section \<open>Claims\<close>

text \<open>C25: An event notification that arrives at a workstation, from whatever sender and over whatever
  route, is kept, decoded. If it is a confirmed one and the workstation answers notifications, exactly
  one datagram goes back to its sender, a SimpleACK of ConfirmedEventNotification with the invoke id of
  the notification; otherwise nothing is sent.\<close>
theorem workstation_acknowledges:
  assumes f: "Frame (recvfrom 2048 data) source = Inr f" "frame_ok f" "is_event_notification f = Inr True"
    and n: "EventNotification f = Inr n"
  shows "\<exists>sends. ws_handle data source s = (Inr sends, s\<lparr>notifications := notifications s @ [n]\<rparr>) \<and>
    (if en_confirmed n \<and> answer_notifications s
     then \<exists>ack iid g. sends = [(ack, source)] \<and> invoke_id f = Inr (Some iid) \<and> Frame ack here = Inr g \<and> frame_ok g \<and>
       pdu_type g = Some PDU_SIMPLE_ACK \<and> service g = Inr (Some SERVICE_CONFIRMED_EVENT_NOTIFICATION) \<and>
       is_answer_to iid g = Inr True
     else sends = [])"
proof -
  have nm: "network_message f = None" using f(3) by (auto simp: is_event_notification_def split: if_splits)
  show ?thesis
  proof (cases "en_confirmed n \<and> answer_notifications s")
    case False
    with f n nm show ?thesis by (auto simp: ws_handle_def)
  next
    case True
    with n have "pdu_type f = Some PDU_CONFIRMED_REQUEST" using EventNotification_confirmed by blast
    with confirmed_notification_id [OF f(3)] obtain iid where iid: "invoke_id f = Inr (Some iid)" "unsigned8 iid" by blast
    obtain ack g where ack: "acknowledge f source = Inr [(ack, source)]" and g: "Frame ack here = Inr g" "frame_ok g"
      "pdu_type g = Some PDU_SIMPLE_ACK" "service g = Inr (Some SERVICE_CONFIRMED_EVENT_NOTIFICATION)" "is_answer_to iid g = Inr True"
      by (rule acknowledge_answer [OF iid, where here = here and source = source])
    have "ws_handle data source s = (Inr [(ack, source)], s\<lparr>notifications := notifications s @ [n]\<rparr>)"
      using f n nm True ack by (simp add: ws_handle_def)
    with g iid(1) True show ?thesis by auto
  qed
qed

definition example_workstation :: "unit workstation" where
  "example_workstation = \<lparr>clock = 0, inbox = [], sent = [], world = (), notifications = [], responses = [], acknowledged = [],
     ws_invoke_id = 0, answer_notifications = True, ws_retries = 1, ws_timeout = 500, thread_alive = True\<rparr>"

text \<open>The datagram of a confirmed notification of device 8001 about Analog Input 1, invoke id 3.\<close>

definition notification_datagram :: octets where
  "notification_datagram = [129, 10, 0, 72, 1, 4, 0, 5, 3, 2, 9, 1, 28, 2, 0, 31, 65, 44, 0, 0, 0, 1, 62, 46, 164, 126, 10, 15,
     4, 180, 12, 30, 0, 0, 47, 63, 73, 1, 89, 100, 105, 5, 137, 0, 153, 1, 169, 0, 185, 3, 206, 94, 12, 66, 190, 0, 0, 26, 4,
     128, 44, 63, 128, 0, 0, 60, 66, 180, 0, 0, 95, 207]"

definition notification_frame :: frame where
  "notification_frame = \<lparr>frame_raw = notification_datagram, frame_source = ([1], 5), bvlc_function = Some BVLC_ORIGINAL_UNICAST,
     bvll_data = drop 4 notification_datagram, originating_mac = [], has_npdu = True, snet = None, sadr = [], dnet = None,
     dadr = [], expecting_reply = True, network_message = None, payload = drop 6 notification_datagram, frame_ok = True\<rparr>"

theorem workstation_acknowledges_witness:
  "\<exists>n s' ack. ws_handle notification_datagram ([1], 5) example_workstation = (Inr [(ack, ([1], 5))], s') \<and>
    notifications s' = [n] \<and> en_invoke_id n = Some 3 \<and> en_to_state n = Some 3"
proof -
  let ?a = "event_defaults\<lparr>ea_confirmed := True, ea_invoke_id := 3\<rparr>"
  have f: "Frame (recvfrom 2048 notification_datagram) ([1], 5) = Inr notification_frame" "frame_ok notification_frame"
      "is_event_notification notification_frame = Inr True" by code_simp+
  have "event_fits 8001 (0, 1) 3 ?a" "event_notification 8001 (0, 1) 3 ?a = Inr (payload notification_frame)" by code_simp+
  from EventNotification_event [OF this]
  have n: "EventNotification notification_frame = Inr (decoded_event 8001 (0, 1) 3 ?a notification_frame)"
    by (simp add: notification_frame_def)
  have s: "answer_notifications example_workstation" "notifications example_workstation = []" by (simp_all add: example_workstation_def)
  from workstation_acknowledges [OF f n, of example_workstation] s show ?thesis
    by (fastforce simp: decoded_event_def Let_def)
qed

text \<open>A workstation's request puts the same datagram on the wire between one and 1 + retries times,
  exactly that often without an answer, and what it returns carries the request's invoke id.\<close>
theorem workstation_request_sends:
  assumes "other_responses iid (responses s) = Inr rs" "iid = (ws_invoke_id s + 1) mod 256" "0 \<le> ws_retries s"
    and "request_octets build None [] iid = Inr octets" and "ws_request net build target timeout s = (r, s')"
  shows "\<exists>k. 1 \<le> k \<and> k \<le> nat (1 + ws_retries s) \<and> sent s' = sent s @ replicate k (octets, target) \<and>
    (r = Inr None \<longrightarrow> k = nat (1 + ws_retries s)) \<and> (\<forall>f. r = Inr (Some f) \<longrightarrow> invoke_id f = Inr (Some iid))"
proof -
  let ?duration = "case timeout of None \<Rightarrow> ws_timeout s | Some t \<Rightarrow> t"
  have a: "attempts_left (ws_attempt net octets target iid ?duration) (nat (1 + ws_retries s)) (s\<lparr>ws_invoke_id := iid, responses := rs\<rparr>) = (r, s')"
    using assms(5) ws_request_eq [OF assms(1,2,4)] by simp
  from ws_retry.attempts_trace [OF a] obtain k where "k \<le> nat (1 + ws_retries s)"
    "sent s' = sent s @ replicate k (octets, target)" "r = Inr None \<longrightarrow> k = nat (1 + ws_retries s)" "0 < k"
    using assms(3) by auto
  moreover have "invoke_id f = Inr (Some iid)" if "r = Inr (Some f)" for f
    using ws_retry.attempts_match a that by blast
  ultimately show ?thesis by (intro exI [of _ k]) auto
qed

theorem workstation_request_sends_witness:
  "\<exists>k octets. 1 \<le> k \<and> k \<le> 2 \<and> sent (snd (ws_request (\<lambda>w _. ([], w)) (\<lambda>iid. read_property_request iid 8 9 77 None) ([127], 5) None
      example_workstation)) = replicate k (octets, ([127], 5))"
proof -
  let ?build = "\<lambda>iid. read_property_request iid 8 9 77 None"
  obtain r s' where r: "ws_request (\<lambda>w _. ([], w)) ?build ([127], 5) None example_workstation = (r, s')" by (metis surj_pair)
  have "request_octets ?build None [] 1 = Inr (projr (request_octets ?build None [] 1))" by code_simp
  from workstation_request_sends [OF _ _ _ this r, of "[]"] r show ?thesis
    by (auto simp: example_workstation_def)
qed

text \<open>C38: One datagram with an answer of a single octet, a SimpleACK, ComplexACK, Error, Reject or Abort
  from anyone, ends the use of a workstation for requests: its thread keeps the frame, and whatever
  arrives and is asked of the workstation afterwards, the frame stays in the list of responses and every
  request raises IndexError.\<close>
theorem workstation_poisoned:
  assumes "Frame (recvfrom 2048 data) source = Inr f" "frame_ok f" "pdu_type f \<in> Some ` RESPONSE_TYPES" "payload f = [b]"
    and "ws_later (ws_turn (Datagram data source) s) t"
  shows "f \<in> set (responses t) \<and> fst (ws_request net build target timeout t) = Inl IndexError"
proof -
  have "invoke_id f = Inl IndexError" by (rule short_response_poisons(1) [OF assms(1-4)])
  moreover have "f \<in> set (responses (ws_turn (Datagram data source) s))"
    by (simp add: short_response_kept [OF assms(1-3)])
  ultimately show ?thesis
    using ws_later_keeps_response [OF assms(5)] poisoned_request [of f t] by simp
qed

text \<open>A Reject of one octet, a wait and a request: the next request raises too, and the frame is still there.\<close>

theorem workstation_poisoned_witness:
  "\<exists>t. t = snd (ws_request (\<lambda>w _. ([], w)) (\<lambda>iid. read_property_request iid 8 9 77 None) ([127], 5) None
      (ws_turn (Datagram [0x81, 0x0A, 0, 7, 1, 0, 0x60] ([1], 5)) example_workstation)) \<and> length (responses t) = 1 \<and>
    fst (ws_request (\<lambda>w _. ([], w)) (\<lambda>iid. read_property_request iid 8 9 77 None) ([127], 5) None t) = Inl IndexError"
proof -
  let ?data = "[0x81, 0x0A, 0, 7, 1, 0, 0x60]" and ?build = "\<lambda>iid. read_property_request iid 8 9 77 None"
  define f where "f = projr (Frame ?data ([1], 5))"
  have f: "Frame (recvfrom 2048 ?data) ([1], 5) = Inr f" "frame_ok f" "pdu_type f = Some PDU_REJECT" "payload f = [0x60]"
    unfolding f_def by code_simp+
  have t: "pdu_type f \<in> Some ` RESPONSE_TYPES" using f(3) by simp
  let ?t = "snd (ws_request (\<lambda>w _. ([], w)) ?build ([127], 5) None (ws_turn (Datagram ?data ([1], 5)) example_workstation))"
  have "responses ?t = responses example_workstation @ [f]" by (rule short_response_poisons(2) [OF f(1,2) t f(4)])
  moreover have "responses example_workstation = []" by (simp add: example_workstation_def)
  ultimately have "length (responses ?t) = 1" by (simp only: append_Nil list.size)
  moreover have "fst (ws_request (\<lambda>w _. ([], w)) ?build ([127], 5) None ?t) = Inl IndexError"
    by (rule conjunct2 [OF workstation_poisoned [OF f(1,2) t f(4) ws_later.Requested [OF ws_later.Now]]])
  ultimately show ?thesis by (intro exI [of _ ?t] conjI refl)
qed

end
