(* ===== verification/Host.thy ===== *)
theory Host
  imports Peer_Device
begin

text \<open>
  The sockets of the host the harness runs on, as far as the constructors use them:
  \<open>Endpoint.__init__\<close> and \<open>broadcast_listener\<close> of \<^verbatim>\<open>src/wiretest/endpoint.py\<close>,
  \<open>SimulatedDevice.__init__\<close> and \<open>stop\<close> of \<^verbatim>\<open>src/wiretest/peer.py\<close>, and those of the
  workstation and the control channel. A host is the table of its open UDP sockets, those of other
  processes included. Two things belong to the operating system and are arguments: \<open>assignable\<close>, the
  addresses of its interfaces, and \<open>ephemeral\<close>, the port it picks for \<open>bind\<close> to port 0, if any is left.
\<close>

section \<open>The socket table\<close>

record sock_entry =
  se_reuse :: bool
  se_broadcast :: bool
  se_address :: "address option"

record host =
  sockets :: "(nat \<times> sock_entry) list"
  next_socket :: nat

text \<open>The wildcard address, \<open>0.0.0.0\<close>.\<close>

definition any_ip :: pystr where
  "any_ip = py_text ''0.0.0.0''"

definition conflicts :: "address \<Rightarrow> address \<Rightarrow> bool" where
  "conflicts a b \<longleftrightarrow> snd a = snd b \<and> (fst a = fst b \<or> fst a = any_ip \<or> fst b = any_ip)"

text \<open>Two sockets may be open at once unless both are bound, to addresses that conflict, and one did not ask for reuse.\<close>

definition may_share :: "sock_entry \<Rightarrow> sock_entry \<Rightarrow> bool" where
  "may_share e f = (case (se_address e, se_address f) of
     (Some a, Some b) \<Rightarrow> conflicts a b \<longrightarrow> se_reuse e \<and> se_reuse f
   | _ \<Rightarrow> True)"

definition new_sock :: "(host, nat) exec" where
  "new_sock h = (Inr (next_socket h), h\<lparr>sockets := sockets h @ [(next_socket h, \<lparr>se_reuse = False, se_broadcast = False, se_address = None\<rparr>)],
     next_socket := next_socket h + 1\<rparr>)"

text \<open>\<open>setsockopt\<close> and \<open>bind\<close> on a socket that is not open are an \<open>OSError\<close>.\<close>

definition update_sock :: "nat \<Rightarrow> (sock_entry \<Rightarrow> sock_entry) \<Rightarrow> (host, unit) exec" where
  "update_sock n g h = (case map_of (sockets h) n of
     None \<Rightarrow> (Inl OSError, h)
   | Some e \<Rightarrow> (Inr (), h\<lparr>sockets := map (\<lambda>(m, f). (m, if m = n then g f else f)) (sockets h)\<rparr>))"

definition setsockopt_reuse :: "nat \<Rightarrow> (host, unit) exec" where
  "setsockopt_reuse n = update_sock n (\<lambda>e. e\<lparr>se_reuse := True\<rparr>)"

definition setsockopt_broadcast :: "nat \<Rightarrow> (host, unit) exec" where
  "setsockopt_broadcast n = update_sock n (\<lambda>e. e\<lparr>se_broadcast := True\<rparr>)"

text \<open>
  \<open>bind\<close>: a port outside 0..65535 is an \<open>OverflowError\<close>; an address that is not the host's, no
  port left, or an address in use are an \<open>OSError\<close>.
\<close>

definition bound_port :: "(host \<Rightarrow> pystr \<Rightarrow> int option) \<Rightarrow> address \<Rightarrow> host \<Rightarrow> int option" where
  "bound_port ephemeral a h = (if snd a = 0 then ephemeral h (fst a) else Some (snd a))"

definition free_for :: "nat \<Rightarrow> sock_entry \<Rightarrow> host \<Rightarrow> bool" where
  "free_for n e h \<longleftrightarrow> list_all (\<lambda>(m, f). m = n \<or> may_share e f) (sockets h)"

definition bind_sock :: "(host \<Rightarrow> pystr \<Rightarrow> int option) \<Rightarrow> (pystr \<Rightarrow> bool) \<Rightarrow> nat \<Rightarrow> address \<Rightarrow> (host, unit) exec" where
  "bind_sock ephemeral assignable n a h =
     (if \<not> (0 \<le> snd a \<and> snd a \<le> 65535) then (Inl OverflowError, h)
      else (case (map_of (sockets h) n, bound_port ephemeral a h) of
        (Some e, Some port) \<Rightarrow>
          if assignable (fst a) \<and> free_for n (e\<lparr>se_address := Some (fst a, port)\<rparr>) h
          then update_sock n (\<lambda>e. e\<lparr>se_address := Some (fst a, port)\<rparr>) h
          else (Inl OSError, h)
      | _ \<Rightarrow> (Inl OSError, h)))"

definition getsockname :: "nat \<Rightarrow> (host, address) exec" where
  "getsockname n h = (case map_of (sockets h) n of
     Some e \<Rightarrow> (case se_address e of Some a \<Rightarrow> (Inr a, h) | None \<Rightarrow> (Inr (any_ip, 0), h))
   | None \<Rightarrow> (Inl OSError, h))"

definition close_sock :: "nat \<Rightarrow> (host, unit) exec" where
  "close_sock n = emodify (\<lambda>h. h\<lparr>sockets := filter (\<lambda>(m, _). m \<noteq> n) (sockets h)\<rparr>)"

section \<open>The constructors\<close>

definition loopback :: pystr where
  "loopback = py_text ''127.0.0.1''"

definition open_endpoint ::
  "(host \<Rightarrow> pystr \<Rightarrow> int option) \<Rightarrow> (pystr \<Rightarrow> bool) \<Rightarrow> int \<Rightarrow> pystr \<Rightarrow> bool \<Rightarrow> (host, nat \<times> address) exec" where
  "open_endpoint ephemeral assignable port bind_ip reuse =
     ebind new_sock (\<lambda>n.
     ebind (if reuse then setsockopt_reuse n else eret ()) (\<lambda>_.
     ebind (setsockopt_broadcast n) (\<lambda>_.
     ebind (bind_sock ephemeral assignable n (bind_ip, port)) (\<lambda>_.
     ebind (getsockname n) (\<lambda>a. eret (n, a))))))"

definition broadcast_listener ::
  "(host \<Rightarrow> pystr \<Rightarrow> int option) \<Rightarrow> (pystr \<Rightarrow> bool) \<Rightarrow> pystr \<Rightarrow> int \<Rightarrow> (host, nat \<times> address) exec" where
  "broadcast_listener ephemeral assignable broadcast_ip port = open_endpoint ephemeral assignable port broadcast_ip True"

text \<open>\<open>SimulatedDevice.__init__\<close>: its own socket and, if asked for, one bound to a broadcast address.\<close>

definition open_device ::
  "(host \<Rightarrow> pystr \<Rightarrow> int option) \<Rightarrow> (pystr \<Rightarrow> bool) \<Rightarrow> int \<Rightarrow> pystr \<Rightarrow> address option \<Rightarrow>
   (host, nat \<times> address \<times> nat option) exec" where
  "open_device ephemeral assignable port bind_ip broadcast =
     ebind new_sock (\<lambda>n.
     ebind (bind_sock ephemeral assignable n (bind_ip, port)) (\<lambda>_.
     ebind (getsockname n) (\<lambda>a.
     case broadcast of
       None \<Rightarrow> eret (n, a, None)
     | Some target \<Rightarrow>
         ebind new_sock (\<lambda>m.
         ebind (setsockopt_reuse m) (\<lambda>_.
         ebind (bind_sock ephemeral assignable m target) (\<lambda>_. eret (n, a, Some m)))))))"

definition close_device :: "nat \<Rightarrow> nat option \<Rightarrow> (host, unit) exec" where
  "close_device n m = ebind (close_sock n) (\<lambda>_. case m of None \<Rightarrow> eret () | Some k \<Rightarrow> close_sock k)"

definition open_workstation ::
  "(host \<Rightarrow> pystr \<Rightarrow> int option) \<Rightarrow> (pystr \<Rightarrow> bool) \<Rightarrow> pystr \<Rightarrow> int \<Rightarrow> (host, nat \<times> address) exec" where
  "open_workstation ephemeral assignable bind_ip port =
     ebind new_sock (\<lambda>n.
     ebind (bind_sock ephemeral assignable n (bind_ip, port)) (\<lambda>_.
     ebind (getsockname n) (\<lambda>a. eret (n, a))))"

definition open_control ::
  "(host \<Rightarrow> pystr \<Rightarrow> int option) \<Rightarrow> (pystr \<Rightarrow> bool) \<Rightarrow> (host, nat) exec" where
  "open_control ephemeral assignable =
     ebind new_sock (\<lambda>n. ebind (bind_sock ephemeral assignable n (loopback, 0)) (\<lambda>_. eret n))"

text \<open>\<open>close()\<close> of a control channel, also at the end of a \<open>with\<close> block.\<close>

definition close_control :: "nat \<Rightarrow> (host, unit) exec" where
  "close_control n = close_sock n"

text \<open>The \<open>mac\<close> properties, of the address the constructor kept.\<close>

definition endpoint_mac :: "(pystr \<Rightarrow> octets result) \<Rightarrow> address \<Rightarrow> octets result" where
  "endpoint_mac inet_aton a = mac inet_aton (fst a) (snd a)"

definition device_mac :: "(pystr \<Rightarrow> octets result) \<Rightarrow> address \<Rightarrow> octets result" where
  "device_mac inet_aton a = mac inet_aton (fst a) (snd a)"

definition workstation_mac :: "(pystr \<Rightarrow> octets result) \<Rightarrow> address \<Rightarrow> octets result" where
  "workstation_mac inet_aton a = mac inet_aton (fst a) (snd a)"

section \<open>No two sockets share an address unless both agreed\<close>

definition host_ok :: "host \<Rightarrow> bool" where
  "host_ok h \<longleftrightarrow> distinct (map fst (sockets h)) \<and> list_all (\<lambda>(n, _). n < next_socket h) (sockets h) \<and>
     (\<forall>(n, e) \<in> set (sockets h). \<forall>(m, f) \<in> set (sockets h). n \<noteq> m \<longrightarrow> may_share e f)"

lemma may_share_sym: "may_share e f = may_share f e"
  by (auto simp: may_share_def conflicts_def split: option.splits)

lemma may_share_unbound [simp]: "se_address e = None \<Longrightarrow> may_share e f" "se_address f = None \<Longrightarrow> may_share e f"
  by (simp_all add: may_share_def split: option.splits)

lemma may_share_reuse: "may_share e f \<Longrightarrow> may_share (e\<lparr>se_reuse := True\<rparr>) f" "may_share e f \<Longrightarrow> may_share (e\<lparr>se_broadcast := b\<rparr>) f"
  by (auto simp: may_share_def split: option.splits)

lemma keeps_new_sock [keeps_intros]: "keeps host_ok new_sock"
  unfolding keeps_def host_ok_def new_sock_def by (auto simp: list_all_iff)

lemma update_sock_ok:
  assumes "host_ok h" "map_of (sockets h) n = Some e" "free_for n (g e) h"
  shows "host_ok (snd (update_sock n g h))"
proof -
  let ?u = "\<lambda>(m, f). (m, if m = n then g f else f)"
  have only: "f = e" if "(n, f) \<in> set (sockets h)" for f
    using assms(1,2) that by (auto simp: host_ok_def)
  have fst: "map (fst \<circ> ?u) (sockets h) = map fst (sockets h)" by (rule map_cong) (auto simp: case_prod_unfold)
  have old: "may_share x y" if "(m, x) \<in> set (sockets h)" "(k, y) \<in> set (sockets h)" "m \<noteq> k" for m k x y
    using assms(1) that unfolding host_ok_def by fast
  have new: "may_share (g e) y" if "(k, y) \<in> set (sockets h)" "k \<noteq> n" for k y
    using assms(3) that unfolding free_for_def list_all_iff by fast
  have share: "may_share e' f'"
    if e': "(m, e') \<in> ?u ` set (sockets h)" and f': "(k, f') \<in> ?u ` set (sockets h)" and "m \<noteq> k" for m k e' f'
  proof -
    from e' obtain x where x: "(m, x) \<in> set (sockets h)" "e' = (if m = n then g x else x)" by auto
    from f' obtain y where y: "(k, y) \<in> set (sockets h)" "f' = (if k = n then g y else y)" by auto
    consider "m = n" "k \<noteq> n" | "m \<noteq> n" "k = n" | "m \<noteq> n" "k \<noteq> n" using \<open>m \<noteq> k\<close> by blast
    then show ?thesis
    proof cases
      case 1
      with only [of x] new [OF y(1)] x y show ?thesis by simp
    next
      case 2
      with only [of y] new [OF x(1)] x y show ?thesis by (simp add: may_share_sym)
    next
      case 3
      with old [OF x(1) y(1) \<open>m \<noteq> k\<close>] x y show ?thesis by simp
    qed
  qed
  have "host_ok (h\<lparr>sockets := map ?u (sockets h)\<rparr>)"
    unfolding host_ok_def
  proof (intro conjI)
    show "distinct (map fst (sockets (h\<lparr>sockets := map ?u (sockets h)\<rparr>)))" using assms(1) by (simp add: host_ok_def fst)
    show "list_all (\<lambda>(m, _). m < next_socket (h\<lparr>sockets := map ?u (sockets h)\<rparr>)) (sockets (h\<lparr>sockets := map ?u (sockets h)\<rparr>))"
      using assms(1) by (auto simp: host_ok_def list_all_iff)
  qed (use share in fastforce)
  then show ?thesis using assms(2) by (simp add: update_sock_def)
qed

lemma update_sock_keeps:
  assumes "\<And>e f. may_share e f \<Longrightarrow> may_share (g e) f"
  shows "keeps host_ok (update_sock n g)"
  unfolding keeps_def
proof (intro allI impI)
  fix h
  assume h: "host_ok h"
  show "host_ok (snd (update_sock n g h))"
  proof (cases "map_of (sockets h) n")
    case None
    with h show ?thesis by (simp add: update_sock_def)
  next
    case (Some e)
    then have "(n, e) \<in> set (sockets h)" by (rule map_of_SomeD)
    with h have "m = n \<or> may_share e f" if "(m, f) \<in> set (sockets h)" for m f
      using that unfolding host_ok_def by fast
    then have "free_for n (g e) h" unfolding free_for_def list_all_iff using assms by fast
    with update_sock_ok [OF h Some] show ?thesis by blast
  qed
qed

lemma setsockopt_keeps [keeps_intros]:
  "keeps host_ok (setsockopt_reuse n)" "keeps host_ok (setsockopt_broadcast n)"
  unfolding setsockopt_reuse_def setsockopt_broadcast_def by (intro update_sock_keeps may_share_reuse; assumption)+

lemma bind_sock_keeps [keeps_intros]: "keeps host_ok (bind_sock ephemeral assignable n a)"
  unfolding keeps_def bind_sock_def
  by (auto intro: update_sock_ok [rotated] split: option.splits)

lemma getsockname_keeps [keeps_intros]: "keeps host_ok (getsockname n)"
  by (simp add: keeps_def getsockname_def split: option.splits)

lemma close_sock_keeps [keeps_intros]: "keeps host_ok (close_sock n)"
  unfolding close_sock_def
  by (intro keeps_intros) (auto simp: host_ok_def list_all_iff distinct_map inj_on_def)

lemma constructors_keep [keeps_intros]:
  "keeps host_ok (open_endpoint ephemeral assignable port ip reuse)"
  "keeps host_ok (broadcast_listener ephemeral assignable ip port)"
  "keeps host_ok (open_device ephemeral assignable port ip broadcast)"
  "keeps host_ok (close_device n m)"
  "keeps host_ok (open_workstation ephemeral assignable ip port)" "keeps host_ok (open_control ephemeral assignable)"
  unfolding broadcast_listener_def open_endpoint_def open_device_def close_device_def open_workstation_def open_control_def
  by (intro keeps_intros)+

section \<open>Opening and closing\<close>

text \<open>A constructor that binds one new socket: what it leaves, when it returns.\<close>

definition opened :: "nat \<Rightarrow> sock_entry \<Rightarrow> host \<Rightarrow> host" where
  "opened n e h = h\<lparr>sockets := sockets h @ [(n, e)], next_socket := n + 1\<rparr>"

lemma fresh_socket: "host_ok h \<Longrightarrow> (n, e) \<in> set (sockets h) \<Longrightarrow> n < next_socket h"
  by (auto simp: host_ok_def list_all_iff)

lemma update_opened:
  assumes "host_ok h" "n = next_socket h"
  shows "update_sock n g (opened n e h) = (Inr (), opened n (g e) h)"
proof -
  have "map_of (sockets h @ [(n, e)]) n = Some e"
    using fresh_socket [OF assms(1)] assms(2) by (auto simp: map_add_def dest!: map_of_SomeD split: option.splits)
  moreover have "map (\<lambda>(m, f). (m, if m = n then g f else f)) (sockets h) = sockets h"
    by (rule map_idI) (use fresh_socket [OF assms(1)] assms(2) in fastforce)
  ultimately show ?thesis by (simp add: update_sock_def opened_def)
qed

lemma map_of_opened: "host_ok h \<Longrightarrow> n = next_socket h \<Longrightarrow> map_of (sockets (opened n e h)) n = Some e"
  using fresh_socket [of h] by (auto simp: opened_def map_add_def dest!: map_of_SomeD split: option.splits)

lemma close_opened: "host_ok h \<Longrightarrow> n = next_socket h \<Longrightarrow> sockets (snd (close_sock n (opened n e h))) = sockets h"
  using fresh_socket [of h] by (auto simp: opened_def close_sock_def intro!: filter_True)

text \<open>The entry an endpoint is given, and when it can be.\<close>

lemma open_endpoint_eq:
  fixes ip :: pystr and reuse :: bool
  assumes "host_ok h" "0 < port" "port \<le> 65535"
  defines "e \<equiv> \<lparr>se_reuse = reuse, se_broadcast = True, se_address = Some (ip, port)\<rparr>"
  shows "open_endpoint ephemeral assignable port ip reuse h =
    (if assignable ip \<and> (\<forall>(m, f) \<in> set (sockets h). may_share e f)
     then (Inr (next_socket h, (ip, port)), opened (next_socket h) e h)
     else (Inl OSError, opened (next_socket h) (e\<lparr>se_address := None\<rparr>) h))"
proof -
  let ?n = "next_socket h"
  let ?e = "\<lparr>se_reuse = reuse, se_broadcast = True, se_address = None\<rparr>"
  note upd = update_opened [OF assms(1) refl] and mo = map_of_opened [OF assms(1) refl]
  have new: "new_sock h = (Inr ?n, opened ?n \<lparr>se_reuse = False, se_broadcast = False, se_address = None\<rparr> h)"
    by (simp add: new_sock_def opened_def)
  have free: "free_for ?n e (opened ?n ?e h) \<longleftrightarrow> (\<forall>(m, f) \<in> set (sockets h). may_share e f)"
    using fresh_socket [OF assms(1)] by (fastforce simp: free_for_def opened_def list_all_iff)
  have b: "bind_sock ephemeral assignable ?n (ip, port) (opened ?n ?e h) =
      (if assignable ip \<and> (\<forall>(m, f) \<in> set (sockets h). may_share e f) then (Inr (), opened ?n e h) else (Inl OSError, opened ?n ?e h))"
    using assms(2,3) free by (simp add: bind_sock_def bound_port_def mo upd e_def)
  have g: "getsockname ?n (opened ?n e h) = (Inr (ip, port), opened ?n e h)"
    by (simp add: getsockname_def mo e_def)
  show ?thesis
    using b g by (cases reuse; cases "assignable ip \<and> (\<forall>(m, f) \<in> set (sockets h). may_share e f)")
      (simp_all add: open_endpoint_def new setsockopt_reuse_def setsockopt_broadcast_def upd e_def)
qed

text \<open>
  A broadcast listener can be opened on a port of the host exactly when every socket bound to a
  conflicting address has set \<open>SO_REUSEADDR\<close>; closing it leaves the table as it was.
\<close>

lemma broadcast_listener_shares:
  assumes "host_ok h" "assignable ip" "0 < port" "port \<le> 65535"
  shows "(\<exists>n h'. broadcast_listener ephemeral assignable ip port h = (Inr (n, (ip, port)), h') \<and>
      sockets (snd (close_sock n h')) = sockets h) \<longleftrightarrow>
    (\<forall>(m, f) \<in> set (sockets h). \<forall>a. se_address f = Some a \<and> conflicts (ip, port) a \<longrightarrow> se_reuse f)"
  using open_endpoint_eq [OF assms(1,3,4), of ephemeral assignable ip True] assms(2) close_opened [OF assms(1) refl]
  by (auto simp: broadcast_listener_def may_share_def split: option.splits if_splits) fastforce+

end
