(* ===== verification/Harness.thy ===== *)
theory Harness
  imports Client Host
begin

text \<open>
  The small modules around the protocol code: pass/fail bookkeeping
  (\<^verbatim>\<open>src/wiretest/results.py\<close>), polling and sampling (\<^verbatim>\<open>src/wiretest/wait.py\<close>) and the
  test-only control channels (\<^verbatim>\<open>src/wiretest/control.py\<close>). Console output is left out; time is
  the \<open>clock\<close> of the socket model, and the polled example is the state the check runs in.
\<close>

section \<open>Results\<close>

record results =
  RESULTS :: "bool list"
  GAPS :: "pystr list"

definition record_check :: "pystr \<Rightarrow> bool \<Rightarrow> results \<Rightarrow> bool \<times> results" where
  "record_check name ok r = (ok, r\<lparr>RESULTS := RESULTS r @ [ok]\<rparr>)"

definition known_gap :: "pystr \<Rightarrow> bool \<Rightarrow> results \<Rightarrow> bool \<times> results" where
  "known_gap name ok r = (ok, if ok then r else r\<lparr>GAPS := GAPS r @ [name]\<rparr>)"

definition summary_code :: "results \<Rightarrow> int" where
  "summary_code r = (if RESULTS r \<noteq> [] \<and> list_all (\<lambda>ok. ok) (RESULTS r) then 0 else 1)"

text \<open>A run of a wire test: its checks and known gaps, in order.\<close>

datatype check = Record pystr bool | Known_gap pystr bool

fun run_checks :: "check list \<Rightarrow> results \<Rightarrow> results" where
  "run_checks [] r = r"
| "run_checks (Record name ok # cs) r = run_checks cs (snd (record_check name ok r))"
| "run_checks (Known_gap name ok # cs) r = run_checks cs (snd (known_gap name ok r))"

lemma run_checks_results:
  "RESULTS (run_checks cs r) = RESULTS r @ List.map_filter (\<lambda>c. case c of Record _ ok \<Rightarrow> Some ok | Known_gap _ _ \<Rightarrow> None) cs"
  by (induction cs r rule: run_checks.induct) (simp_all add: record_check_def known_gap_def map_filter_simps)

section \<open>Waiting\<close>

text \<open>
  A state with a clock: the time and the rest. \<open>check()\<close> is a parameter, a method of the test's
  own; the fuel bounds the number of polls.
\<close>

type_synonym 'w timed = "int \<times> 'w"

fun wait_until :: "nat \<Rightarrow> ('w timed \<Rightarrow> 'r \<times> 'w timed) \<Rightarrow> ('r \<Rightarrow> bool) \<Rightarrow> int \<Rightarrow> int \<Rightarrow> 'w timed \<Rightarrow> ('r \<times> 'w timed) option" where
  "wait_until 0 check truthy deadline interval s = None"
| "wait_until (Suc fuel) check truthy deadline interval s =
     (let (r, (t, w)) = check s in
      if truthy r \<or> t \<ge> deadline then Some (r, (t, w))
      else wait_until fuel check truthy deadline interval (t + interval, w))"

lemma wait_until_result:
  "wait_until fuel check truthy deadline interval s = Some (r, (t, w)) \<Longrightarrow> truthy r \<or> t \<ge> deadline"
  by (induction fuel check truthy deadline interval s rule: wait_until.induct)
    (auto simp: Let_def split: prod.splits if_splits)

lemma wait_until_returns:
  assumes "0 < interval" and "\<And>s. fst s \<le> fst (snd (check s))"
    and "nat (deadline - fst s) < fuel"
  shows "\<exists>r. wait_until fuel check truthy deadline interval s = Some r"
  using assms(3)
proof (induction fuel arbitrary: s)
  case (Suc fuel)
  obtain r t w where c: "check s = (r, (t, w))" by (metis surj_pair)
  have "fst s \<le> t" using assms(2) [of s] c by simp
  with Suc.prems assms(1) have "nat (deadline - (t + interval)) < fuel \<or> t \<ge> deadline" by linarith
  with Suc.IH [of "(t + interval, w)"] show ?case by (auto simp: c)
qed simp

definition sleep_until :: "int \<Rightarrow> int \<Rightarrow> 'w timed \<Rightarrow> 'w timed" where
  "sleep_until start duration s = (max (fst s) (start + duration), snd s)"

fun sample :: "nat \<Rightarrow> ('w timed \<Rightarrow> 'r \<times> 'w timed) \<Rightarrow> int \<Rightarrow> int \<Rightarrow> int \<Rightarrow> 'w timed \<Rightarrow> ('r list \<times> 'w timed) option" where
  "sample 0 read start duration interval s = None"
| "sample (Suc fuel) read start duration interval s =
     (if fst s - start < duration then
        let (r, s') = read s in
        map_option (\<lambda>(rs, u). (r # rs, u)) (sample fuel read start duration interval (sleep_until (fst s) interval s'))
      else Some ([], s))"

lemma sample_returns:
  assumes "0 < interval" and "\<And>s. fst s \<le> fst (snd (read s))" and "nat (duration - (fst s - start)) < fuel"
  shows "\<exists>r. sample fuel read start duration interval s = Some r"
  using assms(3)
proof (induction fuel arbitrary: s)
  case (Suc fuel)
  obtain r u where r: "read s = (r, u)" by (metis surj_pair)
  have "fst s + interval \<le> fst (sleep_until (fst s) interval u)" by (simp add: sleep_until_def)
  with Suc.prems assms(1) have "fst s - start < duration \<Longrightarrow>
      nat (duration - (fst (sleep_until (fst s) interval u) - start)) < fuel" by linarith
  with Suc.IH [of "sleep_until (fst s) interval u"] show ?case by (auto simp: r)
qed simp

text \<open>\<open>>=\<close> on floats: never true of a NaN, and the two zeros are equal.\<close>

definition is_nan :: "py_float \<Rightarrow> bool" where
  "is_nan x \<longleftrightarrow> uint x mod 2 ^ 63 > 0x7FF0000000000000"

definition float_key :: "py_float \<Rightarrow> int" where
  "float_key x = (if uint x \<ge> 2 ^ 63 then - (uint x mod 2 ^ 63) else uint x)"

definition float_ge :: "py_float \<Rightarrow> py_float \<Rightarrow> bool" where
  "float_ge a b \<longleftrightarrow> \<not> is_nan a \<and> \<not> is_nan b \<and> float_key b \<le> float_key a"

fun all_floats :: "py_value list \<Rightarrow> py_float list option" where
  "all_floats [] = Some []"
| "all_floats (PyFloat x # vs) = map_option ((#) x) (all_floats vs)"
| "all_floats (_ # vs) = None"

definition monotonic :: "py_value list \<Rightarrow> bool \<Rightarrow> bool" where
  "monotonic vs rising = (case all_floats vs of
     None \<Rightarrow> False
   | Some [] \<Rightarrow> False
   | Some xs \<Rightarrow> successively (\<lambda>earlier later. if rising then float_ge later earlier else float_ge earlier later) xs)"

lemma float_ge_trans: "float_ge b a \<Longrightarrow> float_ge c b \<Longrightarrow> float_ge c a"
  by (auto simp: float_ge_def)

lemma monotonic_sorted:
  "monotonic (map PyFloat xs) True \<longleftrightarrow> xs \<noteq> [] \<and> sorted_wrt (\<lambda>earlier later. float_ge later earlier) xs"
proof -
  have "all_floats (map PyFloat xs) = Some xs" by (induction xs) auto
  moreover have "successively (\<lambda>e l. float_ge l e) xs = sorted_wrt (\<lambda>e l. float_ge l e) xs"
    by (rule successively_conv_sorted_wrt) (auto intro: transpI float_ge_trans)
  ultimately show ?thesis by (cases xs) (simp_all add: monotonic_def)
qed

section \<open>The control channel\<close>

definition ascii_encode :: "pystr \<Rightarrow> octets result" where
  "ascii_encode s = (if list_all (\<lambda>c. c < 128) s then Inr (map octet_nat s) else Inl UnicodeEncodeError)"

definition ascii_decode :: "octets \<Rightarrow> pystr" where
  "ascii_decode bs = map (\<lambda>b. if unat b < 128 then unat b else 65533) bs"

record 'w control = "'w udp" +
  control_address :: address
  control_timeout :: int
  control_retries :: int

definition SimulationControl :: "'w udp \<Rightarrow> address \<Rightarrow> int \<Rightarrow> int \<Rightarrow> 'w control" where
  "SimulationControl u target timeout retries = udp.extend (udp.truncate u)
     \<lparr>control_address = target, control_timeout = timeout, control_retries = retries\<rparr>"

text \<open>\<open>_drain\<close>: every datagram already there, up to the first receive that raises.\<close>

fun drain_queue :: "int \<Rightarrow> (int \<times> arrival) list \<Rightarrow> (int \<times> arrival) list" where
  "drain_queue now [] = []"
| "drain_queue now ((t, a) # rest) =
     (if t \<le> now then (case a of Datagram _ _ \<Rightarrow> drain_queue now rest | Connection_reset \<Rightarrow> rest)
      else (t, a) # rest)"

definition control_receive :: "('w control, octets option) exec" where
  "control_receive s =
     (case inbox s of
        (t, a) # rest \<Rightarrow>
          if t \<le> clock s + control_timeout s then
            (Inr (case a of Datagram data _ \<Rightarrow> Some (recvfrom 512 data) | Connection_reset \<Rightarrow> None),
             s\<lparr>clock := max (clock s) t, inbox := rest\<rparr>)
          else (Inr None, s\<lparr>clock := clock s + control_timeout s\<rparr>)
      | [] \<Rightarrow> (Inr None, s\<lparr>clock := clock s + control_timeout s\<rparr>))"

definition control_attempt :: "'w network \<Rightarrow> octets \<Rightarrow> address \<Rightarrow> ('w control, octets option) exec" where
  "control_attempt net octets target = ebind (ep_send net octets target) (\<lambda>_. control_receive)"

definition control_ask :: "'w network \<Rightarrow> pystr \<Rightarrow> ('w control, pystr option) exec" where
  "control_ask net command =
     ebind (emodify (\<lambda>s. s\<lparr>inbox := drain_queue (clock s) (inbox s)\<rparr>)) (\<lambda>_.
     ebind (eget (\<lambda>s. (control_address s, nat (1 + control_retries s)))) (\<lambda>(target, n).
     if n = 0 then eret None
     else
     ebind (elift (ascii_encode command)) (\<lambda>octets.
     ebind (attempts_left (control_attempt net octets target) n) (\<lambda>data.
     eret (map_option ascii_decode data)))))"

text \<open>\<open>"error"\<close> as code points.\<close>

abbreviation (input) error_prefix :: pystr where "error_prefix \<equiv> [101, 114, 114, 111, 114]"

definition control_send :: "'w network \<Rightarrow> pystr \<Rightarrow> ('w control, pystr) exec" where
  "control_send net command =
     ebind (control_ask net command) (\<lambda>reply_option.
     case reply_option of
       None \<Rightarrow> elift (Inl RuntimeError)
     | Some text_back \<Rightarrow> if take 5 text_back = error_prefix then elift (Inl RuntimeError) else eret text_back)"

section \<open>The command file\<close>

text \<open>
  The files of the host: a path to its content. The name of a temporary file is the system's choice,
  the parameter \<open>temp\<close>, from the files there are, the prefix and the suffix.
\<close>

type_synonym files = "pystr \<rightharpoonup> octets"
type_synonym temp_names = "files \<Rightarrow> pystr \<Rightarrow> pystr \<Rightarrow> pystr"

definition named_temporary_file :: "temp_names \<Rightarrow> pystr \<Rightarrow> pystr \<Rightarrow> (files, pystr) exec" where
  "named_temporary_file temp prefix suffix fs = (let path = temp fs prefix suffix in (Inr path, fs(path \<mapsto> [])))"

definition CommandFile :: "temp_names \<Rightarrow> (files, pystr) exec" where
  "CommandFile temp = named_temporary_file temp (py_text ''commands-'') (py_text ''.txt'')"

text \<open>\<open>open(path, "a")\<close> creates a missing file; only then is the line encoded and appended.\<close>

definition command_file_send :: "pystr \<Rightarrow> pystr \<Rightarrow> (files, unit) exec" where
  "command_file_send path command =
     ebind (emodify (\<lambda>fs. fs(path \<mapsto> (case fs path of None \<Rightarrow> [] | Some content \<Rightarrow> content)))) (\<lambda>_.
     ebind (elift (ascii_encode (command @ [10]))) (\<lambda>line.
     emodify (\<lambda>fs. fs(path \<mapsto> (case fs path of None \<Rightarrow> [] | Some content \<Rightarrow> content) @ line))))"

definition command_file_close :: "pystr \<Rightarrow> (files, unit) exec" where
  "command_file_close path = emodify (\<lambda>fs. fs(path := None))"

fun send_commands :: "pystr \<Rightarrow> pystr list \<Rightarrow> (files, unit) exec" where
  "send_commands path [] = eret ()"
| "send_commands path (c # cs) = ebind (command_file_send path c) (\<lambda>_. send_commands path cs)"

text \<open>The lines of a file.\<close>

fun file_lines :: "octets \<Rightarrow> octets \<Rightarrow> octets list" where
  "file_lines line [] = (if line = [] then [] else [line])"
| "file_lines line (b # bs) = (if b = 10 then line # file_lines [] bs else file_lines (line @ [b]) bs)"

definition one_line :: "pystr \<Rightarrow> bool" where
  "one_line c \<longleftrightarrow> list_all (\<lambda>x. x < 128 \<and> x \<noteq> 10) c"

lemma file_lines_line:
  assumes "10 \<notin> set l"
  shows "file_lines line (l @ 10 # rest) = (line @ l) # file_lines [] rest"
  using assms by (induction l arbitrary: line) auto

lemma one_line_octets:
  assumes "one_line c"
  shows "10 \<notin> set (map octet_nat c)"
proof
  assume "10 \<in> set (map octet_nat c)"
  then obtain x where x: "x \<in> set c" "octet_nat x = 10" by auto
  with assms have "x < 128" "x \<noteq> 10" by (auto simp: one_line_def list_all_iff)
  with unat_octet_nat [of x] x(2) show False by simp
qed

lemma command_file_send_eq:
  assumes "one_line c" "fs path = Some content"
  shows "command_file_send path c fs = (Inr (), fs(path \<mapsto> content @ map octet_nat c @ [10]))"
proof -
  have "list_all (\<lambda>c. c < 128) (c @ [10])" using assms(1) by (auto simp: one_line_def list_all_iff)
  then have "ascii_encode (c @ [10]) = Inr (map octet_nat c @ [10])" by (simp add: ascii_encode_def octet_nat_def)
  with assms(2) show ?thesis by (simp add: command_file_send_def)
qed

text \<open>A command that is not ASCII raises and leaves the file as it was.\<close>

lemma command_file_send_raises:
  "\<not> list_all (\<lambda>c. c < 128) c \<Longrightarrow> fs path = Some content \<Longrightarrow> command_file_send path c fs = (Inl UnicodeEncodeError, fs)"
  by (simp add: command_file_send_def ascii_encode_def fun_upd_idem)

lemma send_commands_eq:
  assumes "list_all one_line cs" "fs path = Some content"
  shows "send_commands path cs fs = (Inr (), fs(path \<mapsto> content @ concat (map (\<lambda>c. map octet_nat c @ [10]) cs)))"
  using assms
proof (induction cs arbitrary: fs content)
  case Nil
  then show ?case by (simp add: fun_upd_idem)
next
  case (Cons c cs)
  let ?line = "map octet_nat c @ [10]"
  let ?fs = "fs(path \<mapsto> content @ ?line)"
  have "command_file_send path c fs = (Inr (), ?fs)" by (rule command_file_send_eq) (use Cons.prems in auto)
  then have "send_commands path (c # cs) fs = send_commands path cs ?fs" by (simp add: ebind_def)
  also have "\<dots> = (Inr (), ?fs(path \<mapsto> (content @ ?line) @ concat (map (\<lambda>c. map octet_nat c @ [10]) cs)))"
    by (rule Cons.IH) (use Cons.prems in auto)
  also have "\<dots> = (Inr (), fs(path \<mapsto> content @ concat (map (\<lambda>c. map octet_nat c @ [10]) (c # cs))))"
    by (simp only: fun_upd_upd list.map concat.simps append_assoc)
  finally show ?case .
qed

lemma file_lines_commands:
  "list_all one_line cs \<Longrightarrow> file_lines [] (concat (map (\<lambda>c. map octet_nat c @ [10]) cs)) = map (map octet_nat) cs"
  by (induction cs) (auto simp: file_lines_line [OF one_line_octets])

lemma control_attempt_sends:
  "control_attempt net octets target s = (r, s') \<Longrightarrow> sent s' = sent s @ [(octets, target)]"
  by (auto simp: control_attempt_def control_receive_def ep_send_def split: list.splits if_splits)

interpretation control_retry: retrying "control_attempt net octets target" sent "(octets, target)" "\<lambda>_. True"
  by unfold_locales (auto dest: control_attempt_sends)

text \<open>A command is answered, or it was put on the wire once for every attempt.\<close>

lemma control_ask_trace:
  assumes "ascii_encode command = Inr octets" "0 \<le> control_retries s" "control_ask net command s = (r, s')"
  shows "\<exists>k. 1 \<le> k \<and> k \<le> nat (1 + control_retries s) \<and>
    sent s' = sent s @ replicate k (octets, control_address s) \<and>
    (r = Inr None \<longrightarrow> k = nat (1 + control_retries s))"
proof -
  let ?s = "s\<lparr>inbox := drain_queue (clock s) (inbox s)\<rparr>" and ?n = "nat (1 + control_retries s)"
  obtain q t where a: "attempts_left (control_attempt net octets (control_address s)) ?n ?s = (q, t)"
    by (metis surj_pair)
  have n: "?n \<noteq> 0" using assms(2) by simp
  have "control_ask net command s = (case q of Inl e \<Rightarrow> (Inl e, t) | Inr d \<Rightarrow> (Inr (map_option ascii_decode d), t))"
    using assms(1) a n by (cases q) (simp_all add: control_ask_def)
  with assms(3) have "s' = t" and "r = Inr None \<longrightarrow> q = Inr None" by (auto split: sum.splits)
  moreover from control_retry.attempts_trace [OF a] obtain k where "k \<le> ?n"
    "sent t = sent s @ replicate k (octets, control_address s)" "q = Inr None \<longrightarrow> k = ?n" "0 < k"
    using n by auto
  ultimately show ?thesis by (intro exI [of _ k]) auto
qed

section \<open>Claims\<close>

text \<open>A control command is sent between one and 1 + retries times, always as the same octets to the
  same address, and exactly that often when it stays unanswered.\<close>
theorem control_ask_retries:
  assumes "ascii_encode command = Inr octets" "0 \<le> control_retries s" "control_ask net command s = (r, s')"
  shows "\<exists>k. 1 \<le> k \<and> k \<le> nat (1 + control_retries s) \<and>
    sent s' = sent s @ replicate k (octets, control_address s) \<and>
    (r = Inr None \<longrightarrow> k = nat (1 + control_retries s))"
  by (rule control_ask_trace [OF assms])

theorem control_ask_retries_witness:
  "sent (snd (control_ask (\<lambda>w _. ([], w)) [112, 105, 110, 103]
      \<lparr>clock = 0, inbox = [], sent = [], world = (), control_address = ([127], 9), control_timeout = 500, control_retries = 2\<rparr>)) =
    replicate 3 ([112, 105, 110, 103], ([127], 9))"
proof -
  let ?s = "\<lparr>clock = 0, inbox = [], sent = [], world = (), control_address = ([127], 9), control_timeout = 500, control_retries = 2\<rparr>"
  obtain r s' where r: "control_ask (\<lambda>w _. ([], w)) [112, 105, 110, 103] ?s = (r, s')" by (metis surj_pair)
  have n: "fst (control_ask (\<lambda>w _. ([], w)) [112, 105, 110, 103] ?s) = Inr None"
    by (simp add: control_ask_def ascii_encode_def numeral_eq_Suc control_attempt_def ep_send_def control_receive_def deliver_def after_send_def)
  have "ascii_encode [112, 105, 110, 103] = Inr [112, 105, 110, 103]" by code_simp
  from control_ask_retries [OF this _ r] n r show ?thesis by auto
qed

text \<open>C34: No command written to the command file is lost: while the file is open its lines are the commands
  sent, in order, whatever they are, as long as each is one line of ASCII; no other file is touched; and
  after \<open>close()\<close> the files are what they were before.\<close>
theorem command_file_keeps_commands:
  assumes "fs (temp fs (py_text ''commands-'') (py_text ''.txt'')) = None" and "list_all one_line cs"
  shows "\<exists>path fs1 fs2 content. CommandFile temp fs = (Inr path, fs1) \<and> send_commands path cs fs1 = (Inr (), fs2) \<and>
    fs2 path = Some content \<and> file_lines [] content = map (map octet_nat) cs \<and>
    (\<forall>q. q \<noteq> path \<longrightarrow> fs2 q = fs q) \<and> command_file_close path fs2 = (Inr (), fs)"
proof -
  let ?path = "temp fs (py_text ''commands-'') (py_text ''.txt'')"
  have "fs(?path := None) = fs" using assms(1) by (simp add: fun_upd_idem)
  with send_commands_eq [OF assms(2), of "fs(?path \<mapsto> [])" ?path "[]"] file_lines_commands [OF assms(2)] show ?thesis
    by (auto simp: CommandFile_def named_temporary_file_def Let_def command_file_close_def)
qed

theorem command_file_keeps_commands_witness:
  "\<exists>path fs1 fs2. CommandFile (\<lambda>fs prefix suffix. prefix @ [120] @ suffix) Map.empty = (Inr path, fs1) \<and>
    send_commands path [py_text ''open 3'', py_text ''close''] fs1 = (Inr (), fs2) \<and>
    map_option (file_lines []) (fs2 path) = Some [[111, 112, 101, 110, 32, 51], [99, 108, 111, 115, 101]]"
proof -
  have "list_all one_line [py_text ''open 3'', py_text ''close'']" by code_simp
  moreover have "map (map octet_nat) [py_text ''open 3'', py_text ''close''] = [[111, 112, 101, 110, 32, 51], [99, 108, 111, 115, 101]]"
    by code_simp
  ultimately show ?thesis
    using command_file_keeps_commands [of Map.empty "\<lambda>fs prefix suffix. prefix @ [120] @ suffix"] by fastforce
qed

text \<open>C31: Polling with a positive interval, of a check during which time does not run backwards, ends: as
  many polls as there are milliseconds to the deadline are enough, and then the check succeeded or the
  deadline has passed.\<close>
theorem wait_until_terminates:
  assumes "0 < interval" and "\<And>s. fst s \<le> fst (snd (check s))" and "nat (deadline - fst s) < fuel"
  shows "\<exists>r t w. wait_until fuel check truthy deadline interval s = Some (r, (t, w)) \<and> (truthy r \<or> deadline \<le> t)"
  using wait_until_returns [OF assms, of truthy] wait_until_result by (metis surj_pair)

theorem wait_until_terminates_witness:
  "\<exists>r t w. wait_until 600 (\<lambda>(t, n). (n \<ge> (3 :: nat), (t + 1, n + 1))) (\<lambda>r. r) 500 100 (0, 0) = Some (r, (t, w)) \<and> (r \<or> 500 \<le> t)"
  using wait_until_terminates [of 100 "\<lambda>(t, n). (n \<ge> (3 :: nat), (t + 1, n + 1))" 500 "(0, 0)" 600 "\<lambda>r. r"] by auto

text \<open>The exit code of a run is 0 exactly when at least one check was recorded and every recorded
  check passed; known gaps do not count.\<close>
theorem exit_code:
  "summary_code (run_checks cs \<lparr>RESULTS = [], GAPS = []\<rparr>) = 0 \<longleftrightarrow>
    (\<exists>name ok. Record name ok \<in> set cs) \<and> (\<forall>name ok. Record name ok \<in> set cs \<longrightarrow> ok)"
proof -
  have m: "x \<in> set (List.map_filter (\<lambda>c. case c of Record _ ok \<Rightarrow> Some ok | Known_gap _ _ \<Rightarrow> None) cs) \<longleftrightarrow> (\<exists>name. Record name x \<in> set cs)" for x
    by (induction cs) (auto simp: map_filter_simps split: check.splits)
  have e: "List.map_filter (\<lambda>c. case c of Record _ ok \<Rightarrow> Some ok | Known_gap _ _ \<Rightarrow> None) cs \<noteq> [] \<longleftrightarrow> (\<exists>name ok. Record name ok \<in> set cs)"
    by (metis all_not_in_conv m set_empty)
  show ?thesis
    using m e by (auto simp: summary_code_def run_checks_results list_all_iff)
qed

theorem exit_code_witness:
  "summary_code (run_checks [Known_gap [71] False, Record [65] True] \<lparr>RESULTS = [], GAPS = []\<rparr>) = 0"
  by (subst exit_code) auto

text \<open>Comparing neighbours is enough: a sampled series of floats is rising exactly when it is not
  empty and every earlier sample is at most every later one.\<close>
theorem monotonic_is_sorted:
  "monotonic (map PyFloat xs) True \<longleftrightarrow> xs \<noteq> [] \<and> (\<forall>i j. i < j \<and> j < length xs \<longrightarrow> float_ge (xs ! j) (xs ! i))"
  by (auto simp: monotonic_sorted sorted_wrt_iff_nth_less)

theorem monotonic_is_sorted_witness:
  "\<not> monotonic (map PyFloat [0x3FF0000000000000, 0]) True"
proof -
  have "\<not> float_ge ([0x3FF0000000000000, 0] ! 1) ([0x3FF0000000000000, 0] ! 0)" by code_simp
  then show ?thesis using monotonic_is_sorted [of "[0x3FF0000000000000, 0]"] by fastforce
qed

end
