(* ===== verification/Process.thy ===== *)
theory Process
  imports Harness
begin

text \<open>
  \<^verbatim>\<open>src/wiretest/process.py\<close>: waiting for what the console of a running example says, and
  counting its I-Am broadcasts on the wire and on the console. The running example is a parameter:
  its console text and whether it has ended, each at an instant of the clock. \<open>lag\<close> is the time one
  look at it takes, so that it may print, or end, between two looks. Which characters are decimal
  digits, and their values, is the parameter \<open>dig\<close> (the Unicode database behind \<open>\d\<close> and \<open>int\<close>).
\<close>

section \<open>Text\<close>

text \<open>\<open>s.find(text, after)\<close>.\<close>

definition py_find :: "pystr \<Rightarrow> pystr \<Rightarrow> nat \<Rightarrow> nat option" where
  "py_find s t after =
     (if length t \<le> length s
      then List.find (\<lambda>i. take (length t) (drop i s) = t) [after ..< Suc (length s - length t)] else None)"

definition contains :: "pystr \<Rightarrow> pystr \<Rightarrow> bool" where
  "contains t s \<longleftrightarrow> py_find s t 0 \<noteq> None"

section \<open>The running example\<close>

record program =
  console :: "int \<Rightarrow> pystr"
  exited :: "int \<Rightarrow> bool"
  typed :: octets

function wait_output_until :: "program \<Rightarrow> nat \<Rightarrow> pystr \<Rightarrow> int \<Rightarrow> int \<Rightarrow> bool \<times> int" where
  "wait_output_until p lag t deadline now =
     (if now < deadline then
        if contains t (console p now) then (True, now + int lag)
        else if exited p (now + int lag) then (contains t (console p (now + 2 * int lag)), now + 3 * int lag)
        else wait_output_until p lag t deadline (now + 2 * int lag + 100)
      else (False, now))"
  by pat_completeness auto
termination
  by (relation "measure (\<lambda>(p, lag, t, deadline, now). nat (deadline - now))") auto

declare wait_output_until.simps [simp del]

definition wait_for_output :: "program \<Rightarrow> nat \<Rightarrow> pystr \<Rightarrow> int \<Rightarrow> int \<Rightarrow> bool \<times> int" where
  "wait_for_output p lag t duration now = wait_output_until p lag t (now + duration) now"

function wait_text_until :: "program \<Rightarrow> nat \<Rightarrow> pystr \<Rightarrow> int \<Rightarrow> nat \<Rightarrow> int \<Rightarrow> nat option \<times> int" where
  "wait_text_until p lag t deadline after now =
     (case py_find (console p now) t after of
        Some found \<Rightarrow> (Some (found + length t), now + int lag)
      | None \<Rightarrow>
          if now + int lag \<ge> deadline \<or> exited p (now + int lag) then (None, now + 2 * int lag)
          else wait_text_until p lag t deadline after (now + 2 * int lag + 100))"
  by pat_completeness auto
termination
  by (relation "measure (\<lambda>(p, lag, t, deadline, after, now). nat (deadline - now))") auto

declare wait_text_until.simps [simp del]

definition wait_for_text :: "program \<Rightarrow> nat \<Rightarrow> pystr \<Rightarrow> int \<Rightarrow> nat \<Rightarrow> int \<Rightarrow> nat option \<times> int" where
  "wait_for_text p lag t duration after now = wait_text_until p lag t (now + duration) after now"

definition wait_ready :: "program \<Rightarrow> nat \<Rightarrow> int \<Rightarrow> int \<Rightarrow> bool \<times> int" where
  "wait_ready p lag duration now = wait_for_output p lag (py_text ''ready'') duration now"

text \<open>Typing on its standard input: an example that has ended has closed the pipe.\<close>

definition press :: "pystr \<Rightarrow> int \<Rightarrow> (program, unit) exec" where
  "press keys now =
     ebind (elift (ascii_encode keys)) (\<lambda>octets.
     ebind (eget (\<lambda>p. exited p now)) (\<lambda>over.
     if over then elift (Inl OSError) else emodify (\<lambda>p. p\<lparr>typed := typed p @ octets\<rparr>)))"

section \<open>Console lines\<close>

definition strip_prefix :: "pystr \<Rightarrow> pystr \<Rightarrow> pystr option" where
  "strip_prefix t s = (if take (length t) s = t then Some (drop (length t) s) else None)"

text \<open>A class of characters, repeated at least once; greedy, and what follows is never in the class.\<close>

definition run_of :: "(nat \<Rightarrow> bool) \<Rightarrow> pystr \<Rightarrow> (pystr \<times> pystr) option" where
  "run_of cls s = (case takeWhile cls s of [] \<Rightarrow> None | ds \<Rightarrow> Some (ds, dropWhile cls s))"

abbreviation (input) is_digit :: "(nat \<Rightarrow> nat option) \<Rightarrow> nat \<Rightarrow> bool" where
  "is_digit dig c \<equiv> dig c \<noteq> None"

text \<open>\<open>TX \d+ bytes to \<close>, which both patterns start with.\<close>

definition match_tx_head :: "(nat \<Rightarrow> nat option) \<Rightarrow> pystr \<Rightarrow> pystr option" where
  "match_tx_head dig s =
     Option.bind (strip_prefix (py_text ''TX '') s) (\<lambda>s.
     Option.bind (run_of (is_digit dig) s) (\<lambda>(_, s). strip_prefix (py_text '' bytes to '') s))"

text \<open>\<open>(\d+\.\d+\.\d+\.\d+)\<close>.\<close>

definition match_ip :: "(nat \<Rightarrow> nat option) \<Rightarrow> pystr \<Rightarrow> (pystr \<times> pystr) option" where
  "match_ip dig s =
     Option.bind (run_of (is_digit dig) s) (\<lambda>(a, s). Option.bind (strip_prefix [46] s) (\<lambda>s.
     Option.bind (run_of (is_digit dig) s) (\<lambda>(b, s). Option.bind (strip_prefix [46] s) (\<lambda>s.
     Option.bind (run_of (is_digit dig) s) (\<lambda>(c, s). Option.bind (strip_prefix [46] s) (\<lambda>s.
     Option.bind (run_of (is_digit dig) s) (\<lambda>(d, s).
     Some (a @ [46] @ b @ [46] @ c @ [46] @ d, s))))))))"

text \<open>\<open>TX_BROADCAST\<close>: its two groups and what follows the match.\<close>

definition match_tx_broadcast :: "(nat \<Rightarrow> nat option) \<Rightarrow> pystr \<Rightarrow> (pystr \<times> pystr \<times> pystr) option" where
  "match_tx_broadcast dig s =
     Option.bind (match_tx_head dig s) (\<lambda>s.
     Option.bind (match_ip dig s) (\<lambda>(ip, s).
     Option.bind (strip_prefix [58] s) (\<lambda>s.
     Option.bind (run_of (is_digit dig) s) (\<lambda>(port, s).
     Option.bind (strip_prefix (py_text '' (broadcast)'') s) (\<lambda>s. Some (ip, port, s))))))"

lemma strip_prefix_length: "strip_prefix t s = Some r \<Longrightarrow> length r \<le> length s"
  by (auto simp: strip_prefix_def split: if_splits)

lemma run_of_length: "run_of cls s = Some (ds, r) \<Longrightarrow> length r \<le> length s"
  by (auto simp: run_of_def length_dropWhile_le split: list.splits)

lemma match_tx_head_length: "match_tx_head dig s = Some r \<Longrightarrow> length r < length s"
proof -
  assume "match_tx_head dig s = Some r"
  then obtain a ds b where a: "strip_prefix (py_text ''TX '') s = Some a" and b: "run_of (is_digit dig) a = Some (ds, b)"
    "strip_prefix (py_text '' bytes to '') b = Some r"
    by (auto simp: match_tx_head_def bind_eq_Some_conv)
  have "3 \<le> length s" using a by (auto simp: strip_prefix_def py_text_def min_def split: if_splits dest!: arg_cong [where f = length])
  with a have "length a < length s" by (auto simp: strip_prefix_def py_text_def split: if_splits)
  with strip_prefix_length [OF b(2)] run_of_length [OF b(1)] show "length r < length s" by simp
qed

lemma match_ip_length: "match_ip dig s = Some (ip, r) \<Longrightarrow> length r \<le> length s"
  by (auto simp: match_ip_def bind_eq_Some_conv dest!: strip_prefix_length run_of_length)

lemma match_tx_broadcast_length: "match_tx_broadcast dig s = Some (ip, port, r) \<Longrightarrow> length r < length s"
  by (auto simp: match_tx_broadcast_def bind_eq_Some_conv
      dest!: match_tx_head_length match_ip_length strip_prefix_length run_of_length)

text \<open>\<open>finditer\<close>: matches from left to right that do not overlap.\<close>

function tx_broadcasts :: "(nat \<Rightarrow> nat option) \<Rightarrow> pystr \<Rightarrow> (pystr \<times> pystr) list" where
  "tx_broadcasts dig s =
     (case match_tx_broadcast dig s of
        Some (ip, port, r) \<Rightarrow> (ip, port) # tx_broadcasts dig r
      | None \<Rightarrow> (case s of [] \<Rightarrow> [] | _ # r \<Rightarrow> tx_broadcasts dig r))"
  by pat_completeness auto
termination
  by (relation "measure (\<lambda>(dig, s). length s)") (auto dest: match_tx_broadcast_length)

declare tx_broadcasts.simps [simp del]

definition digits_value :: "(nat \<Rightarrow> nat option) \<Rightarrow> pystr \<Rightarrow> int" where
  "digits_value dig ds = foldl (\<lambda>acc c. acc * 10 + int (case dig c of None \<Rightarrow> 0 | Some d \<Rightarrow> d)) 0 ds"

definition broadcast_address :: "(nat \<Rightarrow> nat option) \<Rightarrow> pystr \<Rightarrow> int \<Rightarrow> pystr option" where
  "broadcast_address dig output port =
     map_option fst (List.find (\<lambda>(_, p). digits_value dig p = port) (tx_broadcasts dig output))"

text \<open>The I-Am line of the console: \<open>[^\n]*I-Am\<close> reaches to the last \<open>I-Am\<close> of the line.\<close>

definition last_in_line :: "pystr \<Rightarrow> pystr \<Rightarrow> nat option" where
  "last_in_line t s = (let line = takeWhile (\<lambda>c. c \<noteq> 10) s in
     List.find (\<lambda>i. take (length t) (drop i line) = t) (rev [0 ..< Suc (length line)]))"

definition match_i_am_line :: "(nat \<Rightarrow> nat option) \<Rightarrow> nat \<Rightarrow> pystr \<Rightarrow> pystr option" where
  "match_i_am_line dig port s =
     Option.bind (match_tx_head dig s) (\<lambda>s.
     Option.bind (run_of (\<lambda>c. is_digit dig c \<or> c = 46) s) (\<lambda>(_, s).
     Option.bind (strip_prefix ([58] @ decimal port @ py_text '' (broadcast)'') s) (\<lambda>s.
     Option.bind (last_in_line (py_text ''I-Am'') s) (\<lambda>i. Some (drop (i + 4) s)))))"

lemma match_i_am_line_length: "match_i_am_line dig port s = Some r \<Longrightarrow> length r < length s"
  by (auto simp: match_i_am_line_def bind_eq_Some_conv
      dest!: match_tx_head_length strip_prefix_length run_of_length)

function count_i_am_lines :: "(nat \<Rightarrow> nat option) \<Rightarrow> nat \<Rightarrow> pystr \<Rightarrow> nat" where
  "count_i_am_lines dig port s =
     (case match_i_am_line dig port s of
        Some r \<Rightarrow> Suc (count_i_am_lines dig port r)
      | None \<Rightarrow> (case s of [] \<Rightarrow> 0 | _ # r \<Rightarrow> count_i_am_lines dig port r))"
  by pat_completeness auto
termination
  by (relation "measure (\<lambda>(dig, port, s). length s)") (auto dest: match_i_am_line_length)

declare count_i_am_lines.simps [simp del]

section \<open>Starting and stopping\<close>

text \<open>
  \<open>ends\<close> is the example's own reaction: how many milliseconds after these octets were typed it ends,
  if it does. \<open>stop()\<close> types \<open>q\<close>, waits five seconds and kills it otherwise; a pipe closed in between
  counts as an example to kill.
\<close>

datatype stop_outcome = Already_ended | Quit | Killed

definition stop :: "(octets \<Rightarrow> int \<Rightarrow> int option) \<Rightarrow> nat \<Rightarrow> int \<Rightarrow> program \<Rightarrow> stop_outcome \<times> int \<times> program" where
  "stop ends lag now p =
     (if exited p now then (Already_ended, now, p)
      else if exited p (now + int lag) then (Killed, now + int lag, p)
      else
        let p = p\<lparr>typed := typed p @ [113]\<rparr> in
        case ends (typed p) (now + int lag) of
          None \<Rightarrow> (Killed, now + int lag + 5000, p)
        | Some d \<Rightarrow> if d \<le> 5000 then (Quit, now + int lag + max 0 d, p) else (Killed, now + int lag + 5000, p))"

text \<open>
  \<open>Program.__init__\<close>: the log file, the environment and the command line of the process it creates.
  \<open>resolve\<close> makes a path absolute, \<open>py_str\<close> is \<open>str\<close>, and a path that is not \<open>runnable\<close> is an
  \<open>OSError\<close>, raised when the log file is there already.
\<close>

record spawned =
  sp_label :: pystr
  sp_log :: pystr
  sp_argv :: "pystr list"
  sp_environment :: "pystr \<rightharpoonup> pystr"

definition program_variables :: "('v \<Rightarrow> pystr) \<Rightarrow> (pystr \<rightharpoonup> pystr) \<Rightarrow> (pystr \<times> 'v) list option \<Rightarrow> pystr \<rightharpoonup> pystr" where
  "program_variables py_str environ environment =
     environ ++ map_of (case environment of None \<Rightarrow> [] | Some vs \<Rightarrow> map (\<lambda>(name, v). (name, py_str v)) vs)"

definition Program ::
  "temp_names \<Rightarrow> (pystr \<Rightarrow> pystr) \<Rightarrow> ('v \<Rightarrow> pystr) \<Rightarrow> (pystr \<Rightarrow> bool) \<Rightarrow> (pystr \<rightharpoonup> pystr) \<Rightarrow>
   pystr \<Rightarrow> 'v list \<Rightarrow> pystr \<Rightarrow> (pystr \<times> 'v) list option \<Rightarrow> (files, spawned) exec" where
  "Program temp resolve py_str runnable environ exe arguments label environment =
     ebind (named_temporary_file temp (label @ [45]) (py_text ''.log'')) (\<lambda>log.
     if runnable (resolve exe)
     then eret \<lparr>sp_label = label, sp_log = log, sp_argv = resolve exe # map py_str arguments,
            sp_environment = program_variables py_str environ environment\<rparr>
     else elift (Inl OSError))"

text \<open>The line \<open>keep_log\<close> prints.\<close>

definition keep_log :: "spawned \<Rightarrow> pystr" where
  "keep_log p = py_text ''      ('' @ sp_label p @ py_text '' console: '' @ sp_log p @ [41]"

text \<open>A variable of the test's own overrides the one this process has; all others are inherited.\<close>

lemma program_variables_override:
  assumes "distinct (map fst vs)"
  shows "program_variables py_str environ (Some vs) name =
    (case map_of vs name of Some v \<Rightarrow> Some (py_str v) | None \<Rightarrow> environ name)"
  using assms
  by (induction vs) (auto simp: program_variables_def map_add_def split: option.splits if_splits)

text \<open>
  What \<open>start()\<close> does once the process was created: it gives the instant the example is ready;
  otherwise the example is stopped and the test exits.
\<close>

definition await_ready :: "(octets \<Rightarrow> int \<Rightarrow> int option) \<Rightarrow> nat \<Rightarrow> int \<Rightarrow> program \<Rightarrow> int result \<times> program" where
  "await_ready ends lag now p = (let (ready, t) = wait_ready p lag 20000 now in
     if ready then (Inr t, p) else (case stop ends lag t p of (_, _, p') \<Rightarrow> (Inl SystemExit, p')))"

text \<open>The whole of it; \<open>run\<close> says how a process behaves once it is created.\<close>

definition start ::
  "temp_names \<Rightarrow> (pystr \<Rightarrow> pystr) \<Rightarrow> ('v \<Rightarrow> pystr) \<Rightarrow> (pystr \<Rightarrow> bool) \<Rightarrow> (pystr \<rightharpoonup> pystr) \<Rightarrow>
   (spawned \<Rightarrow> program \<times> (octets \<Rightarrow> int \<Rightarrow> int option)) \<Rightarrow> nat \<Rightarrow> int \<Rightarrow>
   pystr \<Rightarrow> 'v list \<Rightarrow> pystr \<Rightarrow> (pystr \<times> 'v) list option \<Rightarrow> (files, spawned \<times> int) exec" where
  "start temp resolve py_str runnable environ run lag now exe arguments label environment =
     ebind (Program temp resolve py_str runnable environ exe arguments label environment) (\<lambda>sp.
     case run sp of (p, ends) \<Rightarrow> elift (rbind (fst (await_ready ends lag now p)) (\<lambda>t. Inr (sp, t))))"

text \<open>\<open>default_exe\<close>, on paths as lists of their parts; \<open>exists\<close> is the file system.\<close>

definition default_exe :: "(pystr list \<Rightarrow> bool) \<Rightarrow> pystr list \<Rightarrow> pystr \<Rightarrow> pystr list" where
  "default_exe exists repository name =
     (let build = repository @ [py_text ''build''] in
      case List.find exists [build @ [name], build @ [py_text ''Release'', name @ py_text ''.exe''], build @ [name @ py_text ''.exe'']] of
        Some candidate \<Rightarrow> candidate
      | None \<Rightarrow> build @ [name])"

section \<open>I-Am broadcasts\<close>

record 'w heartbeat = "'w endpoint" +
  console_offset :: nat
  listening :: bool

definition hb_mark :: "program \<Rightarrow> ('w heartbeat, unit) exec" where
  "hb_mark p =
     ebind (emodify (\<lambda>s. s\<lparr>console_offset := length (console p (clock s))\<rparr>)) (\<lambda>_.
     ebind (eget listening) (\<lambda>l. if l then clear else eret ()))"

text \<open>\<open>__init__\<close>: a listener only on POSIX, and only for a known broadcast address.\<close>

definition IAmBroadcasts :: "(nat \<Rightarrow> nat option) \<Rightarrow> bool \<Rightarrow> program \<Rightarrow> int \<Rightarrow> ('w heartbeat, unit) exec" where
  "IAmBroadcasts dig posix p port =
     ebind (emodify (\<lambda>s. s\<lparr>listening := (posix \<and> broadcast_address dig (console p (clock s)) port \<noteq> None)\<rparr>)) (\<lambda>_. hb_mark p)"

fun count_frames :: "(frame \<Rightarrow> bool result) \<Rightarrow> frame list \<Rightarrow> nat result" where
  "count_frames predicate [] = Inr 0"
| "count_frames predicate (f # fs) =
     rbind (predicate f) (\<lambda>hit. rbind (count_frames predicate fs) (\<lambda>n. Inr (if hit then Suc n else n)))"

definition is_i_am_of :: "int \<Rightarrow> frame \<Rightarrow> bool result" where
  "is_i_am_of device f = rbind (i_am_device_instance (payload f)) (\<lambda>d. Inr (d = Some device))"

definition hb_counts :: "(nat \<Rightarrow> nat option) \<Rightarrow> program \<Rightarrow> nat \<Rightarrow> int \<Rightarrow> ('w heartbeat, nat option \<times> nat) exec" where
  "hb_counts dig p port device =
     ebind (eget (\<lambda>s. (count_i_am_lines dig port (drop (console_offset s) (console p (clock s))), listening s))) (\<lambda>(lines, l).
     if \<not> l then eret (None, lines)
     else
     ebind (collect 50) (\<lambda>fs.
     ebind (elift (count_frames (is_i_am_of device) fs)) (\<lambda>wire. eret (Some wire, lines))))"

definition hb_watch ::
  "(nat \<Rightarrow> nat option) \<Rightarrow> program \<Rightarrow> nat \<Rightarrow> int \<Rightarrow> int \<Rightarrow> ('w heartbeat, nat option \<times> nat) exec" where
  "hb_watch dig p port device duration =
     ebind (hb_mark p) (\<lambda>_.
     ebind (emodify (\<lambda>s. s\<lparr>clock := clock s + duration\<rparr>)) (\<lambda>_.
     hb_counts dig p port device))"

text \<open>The socket \<open>__init__\<close> opens for it, on the host's table; it fails as \<open>broadcast_listener\<close> does.\<close>

definition open_listener ::
  "(host \<Rightarrow> pystr \<Rightarrow> int option) \<Rightarrow> (pystr \<Rightarrow> bool) \<Rightarrow> (nat \<Rightarrow> nat option) \<Rightarrow> bool \<Rightarrow> pystr \<Rightarrow> int \<Rightarrow> (host, nat option) exec" where
  "open_listener ephemeral assignable dig posix output port =
     (case broadcast_address dig output port of
        None \<Rightarrow> eret None
      | Some ip \<Rightarrow>
          if posix \<and> ip \<noteq> [] then ebind (broadcast_listener ephemeral assignable ip port) (\<lambda>(n, _). eret (Some n))
          else eret None)"

text \<open>\<open>close()\<close>, on the socket the listener has, if there is one.\<close>

definition hb_close :: "nat option \<Rightarrow> (host, unit) exec" where
  "hb_close listener = (case listener of None \<Rightarrow> eret () | Some n \<Rightarrow> close_sock n)"

text \<open>Opened and closed, a listener leaves the sockets of the host as they were.\<close>

lemma listener_leaves_no_socket:
  assumes "host_ok h" "0 < port" "port \<le> 65535"
    and "open_listener ephemeral assignable dig posix output port h = (Inr listener, h')"
  shows "host_ok h' \<and> sockets (snd (hb_close listener h')) = sockets h"
proof (cases listener)
  case None
  with assms(1,4) show ?thesis
    by (auto simp: open_listener_def hb_close_def eret_def ebind_def split: option.splits if_splits sum.splits prod.splits)
next
  case (Some n)
  with assms(4) obtain ip a where o: "open_endpoint ephemeral assignable port ip True h = (Inr (n, a), h')"
    by (auto simp: open_listener_def eret_def ebind_def broadcast_listener_def split: option.splits if_splits sum.splits prod.splits)
  then have "n = next_socket h" and h': "\<exists>e. h' = opened n e h"
    unfolding open_endpoint_eq [OF assms(1-3), of ephemeral assignable ip True] by (auto split: if_splits)
  then have "sockets (snd (hb_close listener h')) = sockets h"
    using close_opened [OF assms(1)] Some by (auto simp: hb_close_def)
  moreover have "host_ok h'"
    using constructors_keep(1) [of ephemeral assignable port ip True] o assms(1) by (auto simp: keeps_def dest!: spec [of _ h])
  ultimately show ?thesis by blast
qed

section \<open>Finding text\<close>

lemma py_find_Some:
  assumes "py_find s t after = Some i"
  shows "after \<le> i \<and> i + length t \<le> length s \<and> take (length t) (drop i s) = t \<and>
    (\<forall>j. after \<le> j \<and> j < i \<longrightarrow> take (length t) (drop j s) \<noteq> t)"
proof -
  from assms have l: "length t \<le> length s"
    and f: "List.find (\<lambda>i. take (length t) (drop i s) = t) [after ..< Suc (length s - length t)] = Some i"
    by (auto simp: py_find_def split: if_splits)
  from f obtain k where k: "k < Suc (length s - length t) - after" "i = after + k"
    "take (length t) (drop i s) = t"
    "\<And>j. j < k \<Longrightarrow> take (length t) (drop (after + j) s) \<noteq> t"
    by (auto simp: find_Some_iff nth_append simp del: upt_Suc)
  have "take (length t) (drop j s) \<noteq> t" if "after \<le> j" "j < i" for j
    using k(4) [of "j - after"] that k(2) by simp
  with k l show ?thesis by auto
qed

lemma py_find_None:
  assumes "py_find s t after = None" and "after \<le> i" and "i + length t \<le> length s"
  shows "take (length t) (drop i s) \<noteq> t"
  using assms by (auto simp: py_find_def find_None_iff split: if_splits simp del: upt_Suc)

lemma wait_text_until_result:
  assumes "wait_text_until p lag t deadline after now = (r, now')"
  shows "now \<le> now' \<and> (case r of
    Some n \<Rightarrow> \<exists>at. now \<le> at \<and> at \<le> now' \<and> py_find (console p at) t after = Some (n - length t) \<and> length t \<le> n
  | None \<Rightarrow> \<exists>at. now \<le> at \<and> at \<le> now' \<and> (deadline \<le> now' \<or> exited p (at + int lag)) \<and> py_find (console p at) t after = None)"
  using assms
proof (induction p lag t deadline after now rule: wait_text_until.induct)
  case (1 p lag t deadline after now)
  show ?case
  proof (cases "py_find (console p now) t after")
    case (Some i)
    with "1.prems" have "r = Some (i + length t)" "now' = now + int lag"
      by (subst (asm) wait_text_until.simps, auto)+
    with Some show ?thesis by (auto intro!: exI [of _ now])
  next
    case None
    show ?thesis
    proof (cases "now + int lag \<ge> deadline \<or> exited p (now + int lag)")
      case True
      with "1.prems" None have "r = None" "now' = now + 2 * int lag"
        by (subst (asm) wait_text_until.simps, auto)+
      with True None show ?thesis by (auto intro!: exI [of _ now])
    next
      case False
      with "1.prems" None have "wait_text_until p lag t deadline after (now + 2 * int lag + 100) = (r, now')"
        by (subst (asm) wait_text_until.simps) auto
      note ih = "1.IH" [OF None False this]
      show ?thesis
      proof (cases r)
        case None
        with ih obtain at where "now + 2 * int lag + 100 \<le> at" "at \<le> now'"
          "deadline \<le> now' \<or> exited p (at + int lag)" "py_find (console p at) t after = None" by auto
        with None show ?thesis by (auto intro!: exI [of _ at])
      next
        case (Some n)
        with ih obtain at where "now + 2 * int lag + 100 \<le> at" "at \<le> now'"
          "py_find (console p at) t after = Some (n - length t)" "length t \<le> n" by auto
        with Some show ?thesis by (auto intro!: exI [of _ at])
      qed
    qed
  qed
qed


section \<open>Collecting\<close>

text \<open>The frames of a run of arrivals, and a run that is received without an exception.\<close>

fun arrived_frames :: "(int \<times> arrival) list \<Rightarrow> frame list" where
  "arrived_frames [] = []"
| "arrived_frames ((t, Connection_reset) # q) = arrived_frames q"
| "arrived_frames ((t, Datagram data source) # q) = projr (Frame (recvfrom 2048 data) source) # arrived_frames q"

fun receivable :: "arrival \<Rightarrow> bool" where
  "receivable Connection_reset = True"
| "receivable (Datagram data source) = (\<exists>f. Frame (recvfrom 2048 data) source = Inr f)"

lemma collect_until_arrivals:
  assumes "clock s < deadline" "inbox s = q @ rest"
    and "\<forall>(t, a) \<in> set q. t < deadline \<and> receivable a" and "\<forall>(t, a) \<in> set rest. deadline < t"
  shows "collect_until deadline s = (Inr (ep_frames s @ arrived_frames q),
    s\<lparr>clock := deadline, inbox := rest, ep_frames := ep_frames s @ arrived_frames q\<rparr>)"
  using assms
proof (induction q arbitrary: s)
  case Nil
  have "receive (deadline - clock s) s = (Inr False, s\<lparr>clock := deadline\<rparr>)"
    using Nil by (cases rest) (auto simp: receive_def)
  with Nil show ?case by (subst collect_until.simps) simp
next
  case (Cons x q)
  obtain t a where x: "x = (t, a)" by (cases x)
  have t: "t < deadline" "receivable a" using Cons.prems(3) x by auto
  let ?s = "s\<lparr>clock := max (clock s) t, inbox := q @ rest, ep_frames := ep_frames s @ arrived_frames [x]\<rparr>"
  have r: "receive (deadline - clock s) s = (Inr True, ?s)"
    using t Cons.prems(1,2) x by (cases a) (auto simp: receive_def)
  have "collect_until deadline ?s = (Inr (ep_frames ?s @ arrived_frames q),
      ?s\<lparr>clock := deadline, inbox := rest, ep_frames := ep_frames ?s @ arrived_frames q\<rparr>)"
    using Cons.prems t by (intro Cons.IH) auto
  moreover have "arrived_frames (x # q) = arrived_frames [x] @ arrived_frames q"
    by (cases x; cases "snd x") auto
  ultimately show ?case
    using r Cons.prems(1) by (subst collect_until.simps) simp
qed

lemma count_frames_eq:
  "(\<And>f. f \<in> set fs \<Longrightarrow> \<exists>b. predicate f = Inr b) \<Longrightarrow>
   count_frames predicate fs = Inr (length (filter (\<lambda>f. predicate f = Inr True) fs))"
  by (induction fs) fastforce+

lemma wait_for_text_gives_up:
  assumes "wait_for_text p lag t duration after now = (None, now')"
  shows "\<exists>at. now \<le> at \<and> at \<le> now' \<and> (now + duration \<le> now' \<or> exited p (at + int lag)) \<and>
    (\<forall>i. after \<le> i \<and> i + length t \<le> length (console p at) \<longrightarrow> take (length t) (drop i (console p at)) \<noteq> t)"
proof -
  from wait_text_until_result [OF assms [unfolded wait_for_text_def]] obtain at where at: "now \<le> at" "at \<le> now'"
    "now + duration \<le> now' \<or> exited p (at + int lag)" and f: "py_find (console p at) t after = None" by auto
  from py_find_None [OF f] at show ?thesis by blast
qed

section \<open>Claims\<close>

definition example_program :: program where
  "example_program = \<lparr>console = (\<lambda>t. if t < 250 then [97, 98] else [97, 98, 97, 98]), exited = (\<lambda>_. False), typed = []\<rparr>"

text \<open>When waiting for a text returns an offset, the console held the text just before that offset,
  not before the offset the wait was asked to start from, and this was the first occurrence from there
  on: passing the returned offset to the next wait never matches the same output twice.\<close>
theorem wait_for_text_next:
  assumes "wait_for_text p lag t duration after now = (Some n, now')"
  shows "\<exists>at. now \<le> at \<and> at \<le> now' \<and> after + length t \<le> n \<and> n \<le> length (console p at) \<and>
    take (length t) (drop (n - length t) (console p at)) = t \<and>
    (\<forall>j. after \<le> j \<and> j + length t < n \<longrightarrow> take (length t) (drop j (console p at)) \<noteq> t)"
proof -
  from wait_text_until_result [OF assms [unfolded wait_for_text_def]] obtain at where at: "now \<le> at" "at \<le> now'"
    and f: "py_find (console p at) t after = Some (n - length t)" and l: "length t \<le> n" by auto
  from py_find_Some [OF f] l have "after + length t \<le> n" "n \<le> length (console p at)"
    "take (length t) (drop (n - length t) (console p at)) = t"
    "\<forall>j. after \<le> j \<and> j + length t < n \<longrightarrow> take (length t) (drop j (console p at)) \<noteq> t" by auto
  with at show ?thesis by blast
qed

theorem wait_for_text_next_witness:
  "\<exists>now'. wait_for_text example_program 1 [97, 98] 1000 2 0 = (Some 4, now') \<and>
    (\<exists>at \<le> now'. take 2 (drop 2 (console example_program at)) = [97, 98])"
proof -
  have "wait_for_text example_program 1 [97, 98] 1000 2 0 = (Some 4, 307)" by code_simp
  with wait_for_text_next [OF this] show ?thesis by (auto simp: numeral_2_eq_2)
qed

text \<open>C40: Watching a device's heartbeat counts on the wire exactly the I-Am frames of that device that
  arrive between the mark and the end of the watch, whatever was queued before the mark, and on the
  console the lines printed since the mark.\<close>
theorem watch_counts_window:
  assumes "listening s" "0 \<le> duration"
    and inbox: "inbox s = old @ new @ rest"
      "\<forall>(t, a) \<in> set old. t < clock s + 50 \<and> receivable a"
      "\<forall>(t, a) \<in> set new. clock s + 50 < t \<and> t < clock s + duration + 100 \<and> receivable a"
      "\<forall>(t, a) \<in> set rest. clock s + duration + 100 < t"
    and readable: "\<And>f. f \<in> set (arrived_frames new) \<Longrightarrow> \<exists>d. i_am_device_instance (payload f) = Inr d"
  shows "\<exists>s'. hb_watch dig p port device duration s =
    (Inr (Some (length (filter (\<lambda>f. i_am_device_instance (payload f) = Inr (Some device)) (arrived_frames new))),
          count_i_am_lines dig port (drop (length (console p (clock s))) (console p (clock s + duration + 50)))), s')"
proof -
  let ?m = "s\<lparr>console_offset := length (console p (clock s)), clock := clock s + 50, inbox := new @ rest, ep_frames := []\<rparr>"
  have later: "\<forall>(t, a) \<in> set (new @ rest). clock s + 50 < t" using inbox(3,4) assms(2) by fastforce
  have "collect_until (clock s + 50) (s\<lparr>console_offset := length (console p (clock s))\<rparr>) =
      (Inr (ep_frames s @ arrived_frames old), s\<lparr>console_offset := length (console p (clock s)), clock := clock s + 50,
        inbox := new @ rest, ep_frames := ep_frames s @ arrived_frames old\<rparr>)"
    using collect_until_arrivals [of "s\<lparr>console_offset := length (console p (clock s))\<rparr>" "clock s + 50" old "new @ rest"]
      inbox(1,2) later by simp
  then have m: "hb_mark p s = (Inr (), ?m)"
    using assms(1) by (simp add: hb_mark_def clear_def collect_def)
  let ?w = "?m\<lparr>clock := clock s + 50 + duration\<rparr>"
  have c: "collect_until (clock s + 50 + duration + 50) ?w = (Inr (arrived_frames new),
      ?w\<lparr>clock := clock s + 50 + duration + 50, inbox := rest, ep_frames := arrived_frames new\<rparr>)"
    using collect_until_arrivals [of ?w "clock s + 50 + duration + 50" new rest] inbox(3,4) by (auto simp: algebra_simps)
  have "count_frames (is_i_am_of device) (arrived_frames new) =
      Inr (length (filter (\<lambda>f. is_i_am_of device f = Inr True) (arrived_frames new)))"
    using readable by (intro count_frames_eq) (fastforce simp: is_i_am_of_def)
  moreover have "(is_i_am_of device f = Inr True) = (i_am_device_instance (payload f) = Inr (Some device))" for f
    by (auto simp: is_i_am_of_def rbind_eq_Inr)
  ultimately show ?thesis
    using m c assms(1) by (simp add: hb_watch_def hb_counts_def collect_def algebra_simps)
qed

theorem watch_counts_window_witness:
  "\<exists>s' n. hb_watch (\<lambda>_. None) example_program 47808 9 500 \<lparr>clock = 0, inbox = [(10, Connection_reset),
      (300, Datagram (projr (rbind (i_am 9 389 1476 3) (\<lambda>a. rbind (npdu a npdu_defaults) (\<lambda>n. bvlc n True)))) ([1], 5))], sent = [], world = (),
      ep_frames = [], console_offset = 0, listening = True\<rparr> = (Inr (Some 1, n), s')"
proof -
  define data where "data = projr (rbind (i_am 9 389 1476 3) (\<lambda>a. rbind (npdu a npdu_defaults) (\<lambda>n. bvlc n True)))"
  let ?s = "\<lparr>clock = 0, inbox = [(10, Connection_reset), (300, Datagram data ([1], 5))], sent = [], world = (),
      ep_frames = [], console_offset = 0, listening = True\<rparr>"
  have f: "Frame (recvfrom 2048 data) ([1], 5) = Inr (projr (Frame (recvfrom 2048 data) ([1], 5)))"
    "i_am_device_instance (payload (projr (Frame (recvfrom 2048 data) ([1], 5)))) = Inr (Some 9)"
    unfolding data_def by code_simp+
  have "\<exists>s'. hb_watch (\<lambda>_. None) example_program 47808 9 500 ?s = (Inr (Some (length (filter (\<lambda>f. i_am_device_instance (payload f) = Inr (Some 9))
      (arrived_frames [(300, Datagram data ([1], 5))]))), count_i_am_lines (\<lambda>_. None) 47808
      (drop (length (console example_program (clock ?s))) (console example_program (clock ?s + 500 + 50)))), s')"
    using f by (intro watch_counts_window [where old = "[(10, Connection_reset)]" and new = "[(300, Datagram data ([1], 5))]" and rest = "[]"]) auto
  with f(2) show ?thesis by (auto simp: data_def)
qed

end
