(* ===== verification/Descriptions.thy ===== *)
theory Descriptions
  imports Client
begin

text \<open>
  The texts the wire tests print about what they saw: \<open>Frame.describe\<close> of
  \<^verbatim>\<open>src/wiretest/codec.py\<close>, \<open>EventNotification.describe\<close> and \<open>date_time_text\<close> of
  \<^verbatim>\<open>src/wiretest/alarm.py\<close> and \<open>Answer.describe\<close> of \<^verbatim>\<open>src/wiretest/client.py\<close>. Python's
  \<open>repr\<close> of a decoded value is a parameter of the last one.
\<close>

section \<open>Numbers as text\<close>

definition int_text :: "int \<Rightarrow> pystr" where
  "int_text v = (if v < 0 then [45] @ decimal (nat (- v)) else decimal (nat v))"

text \<open>\<open>:02\<close> of an octet, and \<open>:02X\<close> of a number below 256.\<close>

definition two_digits :: "nat \<Rightarrow> pystr" where
  "two_digits n = (if n < 10 then [48] @ decimal n else decimal n)"

definition upper_hex_digit :: "nat \<Rightarrow> nat" where
  "upper_hex_digit d = (if d < 10 then 48 + d else 55 + d)"

definition upper_hex2 :: "int \<Rightarrow> pystr" where
  "upper_hex2 v = [upper_hex_digit (nat v div 16), upper_hex_digit (nat v mod 16)]"

definition option_text :: "('a \<Rightarrow> pystr) \<Rightarrow> 'a option \<Rightarrow> pystr" where
  "option_text t x = (case x of None \<Rightarrow> py_text ''None'' | Some v \<Rightarrow> t v)"

definition bool_text :: "bool \<Rightarrow> pystr" where
  "bool_text b = (if b then py_text ''True'' else py_text ''False'')"

section \<open>Frames\<close>

definition frame_describe :: "frame \<Rightarrow> pystr result" where
  "frame_describe f =
     (let head = py_text ''from '' @ fst (frame_source f) @ [58] @ int_text (snd (frame_source f)) in
      if \<not> has_npdu f then
        rbind (needed (bvlc_function f)) (\<lambda>function_code.
        Inr (head @ py_text '' BVLL function=0x'' @ upper_hex2 function_code @ py_text '' data='' @ hex_text (bvll_data f)))
      else
        rbind (if originating_mac f \<noteq> []
               then rbind (mac_text (originating_mac f)) (\<lambda>m. Inr (py_text '' Forwarded-NPDU originating='' @ m))
               else Inr []) (\<lambda>origin.
        rbind (case snet f of None \<Rightarrow> Inr []
               | Some net \<Rightarrow> rbind (mac_text (sadr f)) (\<lambda>m. Inr (py_text '' SNET='' @ int_text net @ py_text '' SADR='' @ m))) (\<lambda>routed.
        Inr (head @ origin @ routed @
          (case dnet f of None \<Rightarrow> [] | Some net \<Rightarrow> py_text '' DNET='' @ int_text net) @
          (case network_message f of
             Some m \<Rightarrow> py_text '' network-message=0x'' @ upper_hex2 m @ py_text '' data='' @ hex_text (payload f)
           | None \<Rightarrow> py_text '' APDU='' @ hex_text (payload f))))))"

section \<open>Notifications\<close>

definition date_time_text :: "date_time option \<Rightarrow> pystr result" where
  "date_time_text stamp = (case stamp of
     None \<Rightarrow> Inr (py_text ''none'')
   | Some (d, t) \<Rightarrow>
       if set (d @ t) = {0xFF} then Inr (py_text ''unspecified'')
       else
         rbind (index d 0) (\<lambda>y. rbind (index d 1) (\<lambda>m. rbind (index d 2) (\<lambda>day.
         rbind (index t 0) (\<lambda>h. rbind (index t 1) (\<lambda>mi. rbind (index t 2) (\<lambda>s. rbind (index t 3) (\<lambda>c.
         Inr (decimal (1900 + unat y) @ [45] @ two_digits (unat m) @ [45] @ two_digits (unat day) @ [32] @
              two_digits (unat h) @ [58] @ two_digits (unat mi) @ [58] @ two_digits (unat s) @ [46] @ two_digits (unat c))))))))))"

definition event_describe :: "notification \<Rightarrow> pystr" where
  "event_describe n =
     (if en_confirmed n then py_text ''Confirmed'' else py_text ''Unconfirmed'') @ py_text ''EventNotification object='' @
     option_text (\<lambda>(ot, i). [40] @ int_text ot @ py_text '', '' @ int_text i @ [41]) (en_event_object n) @
     py_text '' notify-type='' @ option_text int_text (en_notify_type n) @
     py_text '' from='' @ option_text int_text (en_from_state n) @ py_text '' to='' @ option_text int_text (en_to_state n) @
     py_text '' ack-required='' @ option_text bool_text (en_ack_required n) @
     py_text '' class='' @ option_text int_text (en_notification_class n) @
     py_text '' priority='' @ option_text int_text (en_priority n) @
     py_text '' event-type='' @ option_text int_text (en_event_type n)"

section \<open>Answers\<close>

definition answer_describe :: "(py_value \<Rightarrow> pystr) \<Rightarrow> answer \<Rightarrow> pystr result" where
  "answer_describe py_repr a = (case a of
     None \<Rightarrow> Inr (py_text ''no answer'')
   | Some f \<Rightarrow>
       rbind (answer_error a) (\<lambda>e. case e of
         Some (c, d) \<Rightarrow> Inr (py_text ''Error class='' @ int_text c @ py_text '' code='' @ int_text d)
       | None \<Rightarrow>
           if pdu_type f = Some PDU_COMPLEX_ACK
             then rbind (answer_value a) (\<lambda>v. Inr (py_text ''value='' @ py_repr v))
           else if pdu_type f = Some PDU_SIMPLE_ACK then Inr (py_text ''SimpleACK'')
           else frame_describe f))"

section \<open>When a description exists\<close>

lemma mac_text_returns: "\<exists>t. mac_text bs = Inr t"
proof (cases "length bs = 6")
  case True
  then obtain a b c d e g where "bs = [a, b, c, d, e, g]"
    by (auto simp: numeral_eq_Suc length_Suc_conv)
  then show ?thesis by (simp add: mac_text_def inet_ntoa_def unpack_H_def)
qed (simp add: mac_text_def)

lemma mac_text_mac:
  assumes "inet_aton ip = Inr q" "inet_ntoa q = Inr ip" "0 \<le> port" "port < 65536"
  shows "rbind (mac inet_aton ip port) mac_text = Inr (ip @ [58] @ decimal (nat port))"
proof -
  have q: "length q = 4" using assms(2) by (auto simp: inet_ntoa_def split: list.splits)
  have "from_bytes (be_octets 2 port) = port" using assms(3,4) from_bytes_be_octets [of port 2] by simp
  with assms q show ?thesis
    by (simp add: mac_def mac_text_def pack_H_def unpack_H_def)
qed

lemma frame_describe_returns: "has_npdu f \<or> bvlc_function f \<noteq> None \<Longrightarrow> \<exists>t. frame_describe f = Inr t"
  using mac_text_returns [of "originating_mac f"] mac_text_returns [of "sadr f"]
  by (cases "snet f") (auto simp: frame_describe_def Let_def needed_def)

lemma decode_parts_function:
  "decode_destination octets c f q = Inr (g, r) \<Longrightarrow> bvlc_function g = bvlc_function f \<and> has_npdu g = has_npdu f"
  "decode_source octets c f q = Inr (g, r) \<Longrightarrow> bvlc_function g = bvlc_function f \<and> has_npdu g = has_npdu f"
  "decode_message octets c f q = Inr (g, r) \<Longrightarrow> bvlc_function g = bvlc_function f \<and> has_npdu g = has_npdu f"
  by (auto simp: decode_destination_def decode_source_def decode_message_def rbind_eq_Inr split: if_splits)

lemma decode_npdu_function: "decode_npdu octets f = Inr g \<Longrightarrow> bvlc_function g = bvlc_function f"
  unfolding decode_npdu_def Let_def
  by (auto simp: rbind_eq_Inr split: if_split_asm dest!: decode_parts_function)

section \<open>Claims\<close>

text \<open>C28: Describing a received frame returns a text for every datagram that starts with a BVLC header,
  and raises TypeError for exactly those that do not; these decode to a frame that is not ok.\<close>
theorem undecodable_frame_not_described:
  assumes "Frame data source = Inr f"
  shows "(frame_describe f = Inl TypeError \<longleftrightarrow> length data < 4 \<or> uint (data ! 0) \<noteq> BVLC_TYPE) \<and>
    (frame_describe f \<noteq> Inl TypeError \<longrightarrow> (\<exists>t. frame_describe f = Inr t)) \<and>
    (frame_describe f = Inl TypeError \<longrightarrow> \<not> frame_ok f)"
proof (cases "length data < 4 \<or> uint (data ! 0) \<noteq> BVLC_TYPE")
  case True
  with assms have "bvlc_function f = None" "\<not> has_npdu f" "\<not> frame_ok f"
    by (auto simp: Frame_def decode_frame_def frame_init_def)
  with True show ?thesis by (simp add: frame_describe_def Let_def needed_def)
next
  case False
  with assms have "bvlc_function f \<noteq> None"
    by (auto simp: Frame_def decode_frame_def Let_def split: if_splits dest!: decode_npdu_function)
  then obtain t where "frame_describe f = Inr t" using frame_describe_returns by blast
  with False show ?thesis by simp
qed

theorem undecodable_frame_not_described_witness:
  "frame_describe (frame_init [1, 2] ([1], 5)) = Inl TypeError \<and> \<not> frame_ok (frame_init [1, 2] ([1], 5))"
proof -
  have "Frame [1, 2] ([1], 5) = Inr (frame_init [1, 2] ([1], 5))" by code_simp
  from undecodable_frame_not_described [OF this] show ?thesis by simp
qed

end
