(* ===== verification/System.thy ===== *)
theory System
  imports Peer_Server Client Services Workstation Harness Process Descriptions
begin

text \<open>
  The components together: a \<open>Client\<close> whose network parameter is a \<open>SimulatedServer\<close>. Every
  datagram the client sends is served by the server, and what the server sends back arrives after
  \<open>delay\<close> milliseconds.
\<close>

definition server_network :: "address \<Rightarrow> address \<Rightarrow> int \<Rightarrow> server network" where
  "server_network client_address server_address delay w d =
     (case server_serve (fst d) client_address False w of
        (Inl _, w') \<Rightarrow> ([], w')
      | (Inr out, w') \<Rightarrow> (map (\<lambda>(octets, _). (delay, Datagram octets server_address)) out, w'))"

section \<open>Sizes\<close>

lemma ctx_prim_length: "length body < 5 \<Longrightarrow> length (ctx_prim t body) = Suc (length body)"
  by (simp add: ctx_prim_def length_octets_def)

lemma property_head_length: "length (property_head ot i p) \<le> 10"
  using u_octets_length(1) [of p] by (simp add: property_head_def ctx_prim_length)

lemma optional_unsigned_length: "length (optional_unsigned t v) \<le> 5"
  using u_octets_length(1) by (auto simp: optional_unsigned_def ctx_prim_length Suc_le_eq split: option.splits)

lemma enclosed_length: "length (enclosed t v) = length v + 2"
  by (simp add: enclosed_def open_prim_def close_prim_def)

section \<open>One datagram each way\<close>

text \<open>A request of the client as the frame the server decodes.\<close>

lemma request_arrives:
  assumes "build (next_id c) = Inr apdu" and "length apdu \<le> 2000"
  obtains octets where "request_octets build None [] (next_id c) = Inr octets"
    and "\<And>source. Frame (recvfrom 2048 octets) source = Inr (npdu_frame apdu
      (npdu_defaults\<lparr>arg_expecting_reply := True\<rparr>) BVLC_ORIGINAL_UNICAST octets source)"
proof -
  let ?a = "npdu_defaults\<lparr>arg_dnet := None, arg_dadr := [], arg_expecting_reply := True\<rparr>"
  have a: "?a = npdu_defaults\<lparr>arg_expecting_reply := True\<rparr>" by (simp add: npdu_defaults_def)
  have fits: "npdu_fits ?a" by (simp add: npdu_fits_def npdu_defaults_def)
  define n where "n = [1, octet_of (npdu_control ?a)] @ apdu"
  have n: "npdu apdu ?a = Inr n"
    using npdu_eq [OF fits, of apdu] by (simp add: n_def net_field_def npdu_tail_def npdu_defaults_def)
  have l: "length n < 65532" using assms(2) by (simp add: n_def)
  obtain octets where o: "bvll BVLC_ORIGINAL_UNICAST n = Inr octets" "length octets \<le> 2048"
    using bvll_eq [of BVLC_ORIGINAL_UNICAST n] l assms(2) by (simp add: n_def)
  show thesis
  proof (rule that)
    show "request_octets build None [] (next_id c) = Inr octets"
      using assms(1) n o(1) by (simp add: request_octets_def bvlc_def)
    show "Frame (recvfrom 2048 octets) source = Inr (npdu_frame apdu
        (npdu_defaults\<lparr>arg_expecting_reply := True\<rparr>) BVLC_ORIGINAL_UNICAST octets source)" for source
      using Frame_bvll_npdu [OF fits n l, of BVLC_ORIGINAL_UNICAST octets source] o by (simp add: recvfrom_def a)
  qed
qed

text \<open>The server's answer to it as the frame the client decodes.\<close>

lemma reply_arrives:
  assumes "snet f = None" and "length apdu \<le> 2000"
  obtains octets where "reply f apdu = Inr (octets, frame_source f)"
    and "\<And>source. Frame (recvfrom 2048 octets) source = Inr (npdu_frame apdu npdu_defaults BVLC_ORIGINAL_UNICAST octets source)"
proof -
  have fits: "npdu_fits npdu_defaults" by (simp add: npdu_fits_def npdu_defaults_def)
  define n where "n = [1, octet_of (npdu_control npdu_defaults)] @ apdu"
  have n: "npdu apdu npdu_defaults = Inr n"
    using npdu_eq [OF fits, of apdu] by (simp add: n_def net_field_def npdu_tail_def npdu_defaults_def)
  have l: "length n < 65532" using assms(2) by (simp add: n_def)
  obtain octets where o: "bvll BVLC_ORIGINAL_UNICAST n = Inr octets" "length octets \<le> 2048"
    using bvll_eq [of BVLC_ORIGINAL_UNICAST n] l assms(2) by (simp add: n_def)
  show thesis
  proof (rule that)
    show "reply f apdu = Inr (octets, frame_source f)"
      using assms(1) n o(1) by (simp add: reply_def bvlc_def)
    show "Frame (recvfrom 2048 octets) source = Inr (npdu_frame apdu npdu_defaults BVLC_ORIGINAL_UNICAST octets source)" for source
      using Frame_bvll_npdu [OF fits n l, of BVLC_ORIGINAL_UNICAST octets source] o by (simp add: recvfrom_def)
  qed
qed

text \<open>
  A request whose answer the server's \<open>_answer\<close> computes is answered: the client gets that APDU,
  and the world it leaves is the server after the request.
\<close>

lemma client_server_exchange:
  assumes build: "build (next_id c) = Inr apdu" "length apdu \<le> 2000"
    and c: "0 \<le> client_retries c" "inbox c = []" "0 < client_timeout c" "delay \<le> client_timeout c"
    and answer: "\<And>f s. payload f = apdu \<Longrightarrow> network_message f = None \<Longrightarrow>
      s = (world c)\<lparr>received := received (world c) @ [f]\<rparr> \<Longrightarrow> server_answer f s = (Inr (Some a), after f)"
    and a: "answers (next_id c) a" "length a \<le> 2000"
  obtains g f c' where
    "client_request (server_network here there delay) build target None [] None c = (Inr (Some g), c')"
    "payload g = a" "network_message g = None"
    "world c' = after f" "payload f = apdu" "inbox c' = []" "client_invoke_id c' = next_id c"
    "client_retries c' = client_retries c" "client_timeout c' = client_timeout c"
proof -
  obtain octets where o: "request_octets build None [] (next_id c) = Inr octets"
    and f: "\<And>source. Frame (recvfrom 2048 octets) source = Inr (npdu_frame apdu
      (npdu_defaults\<lparr>arg_expecting_reply := True\<rparr>) BVLC_ORIGINAL_UNICAST octets source)"
    using request_arrives [where build = build and c = c, OF build] by blast
  define fr where "fr = npdu_frame apdu (npdu_defaults\<lparr>arg_expecting_reply := True\<rparr>) BVLC_ORIGINAL_UNICAST octets here"
  define s where "s = (world c)\<lparr>received := received (world c) @ [fr]\<rparr>"
  have fr: "payload fr = apdu" "network_message fr = None" "frame_ok fr" "snet fr = None" "frame_source fr = here"
    by (simp_all add: fr_def npdu_frame_def npdu_defaults_def)
  note s' = answer [OF fr(1,2) s_def]
  obtain ret where b: "reply fr a = Inr (ret, frame_source fr)"
    and g: "\<And>source. Frame (recvfrom 2048 ret) source = Inr (npdu_frame a npdu_defaults BVLC_ORIGINAL_UNICAST ret source)"
    using reply_arrives [OF fr(4) a(2)] by blast
  define gf where "gf = npdu_frame a npdu_defaults BVLC_ORIGINAL_UNICAST ret there"
  have gf: "payload gf = a" "network_message gf = None" "frame_ok gf" "is_answer_to (next_id c) gf = Inr True"
    using npdu_frame_answer [OF a(1), of npdu_defaults BVLC_ORIGINAL_UNICAST ret there]
    by (simp_all add: gf_def npdu_frame_def npdu_defaults_def is_answer_to_def)
  have "server_serve octets here False (world c) = (Inr [(ret, here)], after fr)"
    using f [of here] s' b fr by (simp add: server_serve_def serve_one_def fr_def [symmetric] s_def)
  then have n: "server_network here there delay (world c) (octets, target) = ([(delay, Datagram ret there)], after fr)"
    by (simp add: server_network_def)
  from client_request_answered [where net = "server_network here there delay" and c = c and target = target, OF o c(1-3) _ c(4) g [of there, folded gf_def] gf(3,4)]
  obtain c' where "client_request (server_network here there delay) build target None [] None c = (Inr (Some gf), c')"
    "world c' = after fr" "inbox c' = []" "client_invoke_id c' = next_id c"
    "client_retries c' = client_retries c" "client_timeout c' = client_timeout c"
    by (auto simp: n)
  with gf fr(1) that show thesis by blast
qed

lemma next_id_range: "unsigned8 (next_id c)"
  by (simp add: next_id_def)

section \<open>A client at a server\<close>

text \<open>A client between requests, whose timeout covers the network's delay.\<close>

definition client_ready :: "int \<Rightarrow> 'w client \<Rightarrow> bool" where
  "client_ready delay c \<longleftrightarrow> 0 \<le> client_retries c \<and> inbox c = [] \<and> 0 < client_timeout c \<and> delay \<le> client_timeout c"

definition read_from :: "server network \<Rightarrow> address \<Rightarrow> int \<Rightarrow> int \<Rightarrow> int \<Rightarrow> (server client, answer) exec" where
  "read_from net target ot i p = read_property_call (\<lambda>build. client_request net build target None [] None) ot i p None"

definition write_to ::
  "server network \<Rightarrow> address \<Rightarrow> int \<Rightarrow> int \<Rightarrow> int \<Rightarrow> octets \<Rightarrow> int option \<Rightarrow> (server client, answer) exec" where
  "write_to net target ot i p v priority =
     write_property_call (\<lambda>build. client_request net build target None [] None) ot i p v priority None"

lemma client_reads:
  assumes args: "object_range ot i" "unsigned32 p" and c: "client_ready delay c"
    and s: "failures (world c) = []" "mode (world c) \<noteq> ''offline''" "objects (world c) (ot, i) = Some props"
      "(ot, i, p) \<notin> whole_arrays_refused (world c)"
    and v: "props p = Some v" "balanced (call_served v)" "length (call_served v) \<le> 1900"
  obtains g c' where "read_from (server_network here there delay) target ot i p c = (Inr (Some g), c')"
    "value_octets (Some g) = Inr (Some (call_served v))" "client_ready delay c'"
    "same_service (world c) (world c')"
proof -
  let ?iid = "next_id c"
  have iid: "unsigned8 ?iid" by (rule next_id_range)
  define a where "a = [0x30, octet_of ?iid, 12] @ property_head ot i p @ enclosed 3 (call_served v)"
  have ack: "read_property_ack ?iid ot i p (call_served v) = Inr a"
    using read_property_ack_eq [OF iid args] by (simp add: a_def)
  obtain apdu where apdu: "read_property_request ?iid ot i p None = Inr apdu" "length apdu \<le> 2000"
    using read_property_request_eq [OF iid args, of None] property_head_length [of ot i p]
    by (auto simp: optional_unsigned_def)
  have len: "length a \<le> 2000"
    using property_head_length [of ot i p] v(3) by (simp add: a_def enclosed_length)
  let ?after = "\<lambda>f. (world c)\<lparr>received := received (world c) @ [f],
      read_requests := read_requests (world c) @ [(SERVICE_READ_PROPERTY, [(ot, i, [p])])]\<rparr>"
  have answer: "server_answer f s = (Inr (Some a), ?after f)"
    if "payload f = apdu" "network_message f = None" "s = (world c)\<lparr>received := received (world c) @ [f]\<rparr>" for f s
    using server_answer_read(1) [of f ?iid ot i p s props v] that assms ack apdu iid
    by (simp add: read_frame_def)
  obtain g f c' where g: "client_request (server_network here there delay)
      (\<lambda>iid. read_property_request iid ot i p None) target None [] None c = (Inr (Some g), c')"
    "payload g = a" "network_message g = None" "world c' = ?after f" "inbox c' = []"
    "client_retries c' = client_retries c" "client_timeout c' = client_timeout c"
    by (rule client_server_exchange [where build = "\<lambda>iid. read_property_request iid ot i p None" and c = c
        and apdu = apdu and a = a and after = ?after and delay = delay and here = here and there = there and target = target])
      (use apdu c answer answers_read_property_ack [OF ack] len in \<open>auto simp: client_ready_def\<close>)
  show thesis
  proof (rule that)
    show "read_from (server_network here there delay) target ot i p c = (Inr (Some g), c')"
      using g(1) by (simp add: read_from_def read_property_call_def)
    have "pdu_type g = Some PDU_COMPLEX_ACK" using g(2,3) by (simp add: pdu_type_def a_def drop_bit_eq_div)
    with read_property_value_roundtrip [OF iid args v(2)] ack g(2)
    show "value_octets (Some g) = Inr (Some (call_served v))" by (simp add: value_octets_def)
    show "client_ready delay c'" using c g by (simp add: client_ready_def)
    show "same_service (world c) (world c')" using g(4) by (simp add: same_service_def)
  qed
qed

lemma client_writes:
  assumes r: "object_range (wr_object_type r) (wr_instance r)" "unsigned32 (wr_property_identifier r)"
      "priority_fits (wr_priority r)" "wr_array_index r = None" "balanced (wr_value_octets r)"
      "length (wr_value_octets r) \<le> 1900"
    and c: "client_ready delay c"
    and s: "failures (world c) = []" "mode (world c) \<noteq> ''offline''" "server_ok (world c)"
      "objects (world c) (write_key r) \<noteq> None" "refusal_of r (world c) = None"
    and tag: "application_tag (wr_value_octets r) = Inr tag" "\<not> null_ignored r (tag = Some TAG_NULL) (world c)"
  obtains g c' where "write_to (server_network here there delay) target (wr_object_type r) (wr_instance r)
      (wr_property_identifier r) (wr_value_octets r) (wr_priority r) c = (Inr (Some g), c')"
    "acked (Some g)" "client_ready delay c'"
    "same_service (write_effect r (tag = Some TAG_NULL) (world c)) (world c')"
    "failures (world c') = []" "whole_arrays_refused (world c') = whole_arrays_refused (world c)"
    "write_requests (world c') = write_requests (world c) @ [r]"
proof -
  let ?iid = "next_id c"
  have iid: "unsigned8 ?iid" by (rule next_id_range)
  let ?build = "\<lambda>iid. write_property_request iid (wr_object_type r) (wr_instance r) (wr_property_identifier r)
      (wr_value_octets r) (wr_priority r) None"
  define a where "a = [0x20, octet_of ?iid, 15 :: octet]"
  have pr: "unsigned32_option (wr_priority r)" using r(3) by (auto simp: priority_fits_def split: option.splits)
  obtain apdu where apdu: "?build ?iid = Inr apdu" "length apdu \<le> 2000"
    using write_property_request_eq [OF iid r(1,2) pr, of None "wr_value_octets r"] r(6)
      property_head_length [of "wr_object_type r" "wr_instance r" "wr_property_identifier r"]
      optional_unsigned_length [of 4 "wr_priority r"]
    by (simp add: optional_unsigned_def [of 2] enclosed_length)
  let ?after = "\<lambda>f. (write_effect r (tag = Some TAG_NULL) (world c))\<lparr>received := received (world c) @ [f],
      write_requests := write_requests (world c) @ [r]\<rparr>"
  have answer: "server_answer f s = (Inr (Some a), ?after f)"
    if "payload f = apdu" "network_message f = None" "s = (world c)\<lparr>received := received (world c) @ [f]\<rparr>" for f s
    using server_answer_accepted [of f ?iid r s tag] that assms apdu pr iid
    by (simp add: write_frame_def a_def)
  have "answers ?iid a"
    using answers_simple_ack [of ?iid 15 a] simple_ack_eq [OF iid, of 15] by (simp add: a_def octet_of_def)
  obtain g f c' where g: "client_request (server_network here there delay) ?build target None [] None c = (Inr (Some g), c')"
    "payload g = a" "network_message g = None" "world c' = ?after f" "inbox c' = []"
    "client_retries c' = client_retries c" "client_timeout c' = client_timeout c"
    by (rule client_server_exchange [where build = ?build and c = c
        and apdu = apdu and a = a and after = ?after and delay = delay and here = here and there = there and target = target])
      (use apdu c answer \<open>answers ?iid a\<close> in \<open>auto simp: client_ready_def a_def\<close>)
  show thesis
  proof (rule that)
    show "write_to (server_network here there delay) target (wr_object_type r) (wr_instance r)
      (wr_property_identifier r) (wr_value_octets r) (wr_priority r) c = (Inr (Some g), c')"
      using g(1) by (simp add: write_to_def write_property_call_def)
    show "acked (Some g)" using g(2,3) by (simp add: acked_def pdu_type_def a_def drop_bit_eq_div)
    show "client_ready delay c'" using c g by (simp add: client_ready_def)
    show "same_service (write_effect r (tag = Some TAG_NULL) (world c)) (world c')"
      using g(4) by (simp add: same_service_def)
    show "failures (world c') = []" "whole_arrays_refused (world c') = whole_arrays_refused (world c)"
      "write_requests (world c') = write_requests (world c) @ [r]"
      using g(4) s by (auto simp: write_effect_def split: option.splits)
  qed
qed


text \<open>A request that fits its encoder and one datagram, and a server that accepts it.\<close>

definition request_fits :: "write_request \<Rightarrow> bool" where
  "request_fits r \<longleftrightarrow> object_range (wr_object_type r) (wr_instance r) \<and> unsigned32 (wr_property_identifier r) \<and>
     priority_fits (wr_priority r) \<and> wr_array_index r = None \<and> balanced (wr_value_octets r) \<and>
     length (wr_value_octets r) \<le> 1900"

definition accepts :: "server \<Rightarrow> write_request \<Rightarrow> bool" where
  "accepts s r \<longleftrightarrow> failures s = [] \<and> mode s \<noteq> ''offline'' \<and> server_ok s \<and> objects s (write_key r) \<noteq> None \<and>
     refusal_of r s = None \<and> (wr_object_type r, wr_instance r, wr_property_identifier r) \<notin> whole_arrays_refused s"

definition write_request_to :: "server network \<Rightarrow> address \<Rightarrow> write_request \<Rightarrow> (server client, answer) exec" where
  "write_request_to net target r = write_to net target (wr_object_type r) (wr_instance r) (wr_property_identifier r)
     (wr_value_octets r) (wr_priority r)"

definition read_back_from :: "server network \<Rightarrow> address \<Rightarrow> write_request \<Rightarrow> (server client, answer) exec" where
  "read_back_from net target r = read_from net target (wr_object_type r) (wr_instance r) (wr_property_identifier r)"

text \<open>A write and then a read of the same property, as the two requests of a client.\<close>

lemma client_write_read:
  assumes r: "request_fits r" and c: "client_ready delay c" and s: "accepts (world c) r"
    and tag: "application_tag (wr_value_octets r) = Inr tag" "\<not> null_ignored r (tag = Some TAG_NULL) (world c)"
    and after: "objects (write_effect r (tag = Some TAG_NULL) (world c)) (write_key r) = Some props"
      "props (wr_property_identifier r) = Some u" "balanced (call_served u)" "length (call_served u) \<le> 1900"
  shows "\<exists>g c' h c''. write_request_to (server_network here there delay) target r c = (Inr (Some g), c') \<and>
    acked (Some g) \<and> read_back_from (server_network here there delay) target r c' = (Inr (Some h), c'') \<and>
    value_octets (Some h) = Inr (Some (call_served u))"
proof -
  let ?net = "server_network here there delay" and ?s = "write_effect r (tag = Some TAG_NULL) (world c)"
  obtain g c' where w: "write_request_to ?net target r c = (Inr (Some g), c')" "acked (Some g)"
    "client_ready delay c'" and e: "same_service ?s (world c')"
    and k: "failures (world c') = []" "whole_arrays_refused (world c') = whole_arrays_refused (world c)"
    using client_writes [of r delay c tag here there target thesis] r c s tag
    by (auto simp: request_fits_def accepts_def write_request_to_def)
  have "mode ?s = mode (world c)" by (simp add: write_effect_def split: option.splits)
  with e after(1) have "objects (world c') (write_key r) = Some props" "mode (world c') = mode (world c)"
    by (simp_all add: same_service_def)
  then obtain h c'' where "read_back_from ?net target r c' = (Inr (Some h), c'')"
    "value_octets (Some h) = Inr (Some (call_served u))"
    using client_reads [OF _ _ w(3) k(1), of "wr_object_type r" "wr_instance r" "wr_property_identifier r" props u
        here there target thesis] k(2) r s after(2-)
    by (auto simp: request_fits_def accepts_def read_back_from_def)
  with w show ?thesis by blast
qed

text \<open>The value a property has after an accepted write.\<close>

lemma write_effect_plain:
  assumes "objects s (write_key r) = Some props" "\<not> is_commanded r s"
  shows "objects (write_effect r n s) (write_key r) = Some (props(wr_property_identifier r \<mapsto> Octets (wr_value_octets r)))"
  using assms by (simp add: write_effect_def)

lemma write_effect_commanded:
  assumes "server_ok s" "is_commanded r s" "priority_arrays s (write_key r) = Some slots"
    "relinquish_defaults s (write_key r) = Some d"
  obtains props where "objects (write_effect r n s) (write_key r) = Some props"
    "props (wr_property_identifier r) = Some (winning_value (commanded_slots slots r n) d)"
    "priority_arrays (write_effect r n s) (write_key r) = Some (commanded_slots slots r n)"
  using is_commandedE [OF assms(1,2)] assms(3,4) by (force simp: write_effect_def assms(2))

section \<open>ReadPropertyMultiple, client and server\<close>

definition served_results :: "server \<Rightarrow> (object_ref \<times> int list) list \<Rightarrow> (int \<times> int \<times> (int \<times> octets option) list) list" where
  "served_results s specs = map (\<lambda>((ot, i), ps). (ot, i, map (\<lambda>p. (p, server_value s ot i p)) ps)) specs"

end
