(* ===== verification/Peer_Progress.thy ===== *)
theory Peer_Progress
  imports Serving
begin

text \<open>
  Progress of the serving thread of \<open>Serving\<close>: no arrival waits behind the other socket. \<open>select\<close>
  reports both sockets and the loop takes one arrival from each, so seven turns of the thread are
  enough for the next one, whatever arrives meanwhile.
\<close>

section \<open>The order of the ready sockets\<close>

definition in_turn :: "'s peer \<Rightarrow> bool" where
  "in_turn p \<longleftrightarrow> (case thread p of
     Receiving bs \<Rightarrow> bs \<in> {[], [False], [True], [False, True]}
   | Sending sends bs \<Rightarrow> bs \<in> {[], [True]}
   | _ \<Rightarrow> True)"

lemma in_turn_started: "in_turn (started s hb)"
  by (simp add: in_turn_def started_def)

lemma thread_turn_in_turn:
  assumes "in_turn p"
  shows "in_turn (thread_turn serve p)"
proof (cases "thread p")
  case (Receiving bs)
  show ?thesis
  proof (cases bs)
    case (Cons b bs')
    with assms Receiving have "bs' \<in> {[], [True]}" by (auto simp: in_turn_def)
    with assms Receiving Cons show ?thesis
      by (auto simp: in_turn_def thread_turn_def receive_turn_def Let_def
          split: option.splits list.splits arrival.splits prod.splits sum.splits)
  qed (use Receiving in \<open>simp add: in_turn_def thread_turn_def\<close>)
qed (use assms in \<open>auto simp: in_turn_def thread_turn_def ready_socks_def split: option.splits\<close>)

lemma peer_event_in_turn: "in_turn p \<Longrightarrow> peer_event serve change ev p = Some q \<Longrightarrow> in_turn q"
  using peer_event_quiet [of serve change ev p q] thread_turn_in_turn [of p serve]
  by (cases "ev = Thread_turn") (auto simp: in_turn_def split: if_splits)

lemma peer_run_in_turn: "peer_run serve change p evs q \<Longrightarrow> in_turn p \<Longrightarrow> in_turn q"
  by (rule peer_run_invariant [where I = in_turn]) (auto intro: peer_event_in_turn)

section \<open>The turns until the next arrival is taken\<close>

text \<open>At most, and when one waits on the socket.\<close>

fun turns_to :: "bool \<Rightarrow> thread \<Rightarrow> nat" where
  "turns_to b At_while = (if b then 5 else 3)"
| "turns_to b In_select = (if b then 4 else 2)"
| "turns_to b (Receiving bs) =
     (if b then (if bs = [False, True] then 3 else if bs = [True] then 1 else if bs = [False] then 8 else 6)
      else (if bs = [] then 4 else if bs = [True] then 6 else 1))"
| "turns_to b (Sending sends bs) =
     (if b then (if bs = [True] then 2 else 7) else (if bs = [True] then 7 else 5))"
| "turns_to b Returned = 0"
| "turns_to b (Raised e) = 0"

lemma turns_to_bound: "turns_to b t \<le> 8" "turns_to b t = 0 \<longleftrightarrow> ended t"
  by (cases t; simp)+

text \<open>What a turn that serves a socket can do.\<close>

lemma receive_turn_outcome:
  assumes "sock_of c p = Some k" "sk_open k" "sk_queue k = a # rest"
  shows "\<exists>s t. receive_turn serve c bs p = (set_sock c (k\<lparr>sk_queue := rest\<rparr>) p)\<lparr>peer_self := s, thread := t\<rparr> \<and>
    (t = Receiving bs \<or> (\<exists>sends. t = Sending sends bs) \<or> ended t)"
proof (cases a)
  case Connection_reset
  with assms show ?thesis
    by (intro exI [of _ "peer_self p"] exI [of _ "Receiving bs"]) (cases c; simp add: receive_turn_def set_sock_def)
next
  case (Datagram data source)
  obtain r s where r: "serve data source c (peer_self p) = (r, s)" by (metis surj_pair)
  show ?thesis
  proof (cases r)
    case (Inl e)
    with assms Datagram r show ?thesis
      by (intro exI [of _ s] exI [of _ "Raised e"]) (simp add: receive_turn_def Let_def)
  next
    case (Inr sends)
    with assms Datagram r show ?thesis
      by (intro exI [of _ s] exI [of _ "Sending sends bs"]) (simp add: receive_turn_def Let_def)
  qed
qed

lemma queue_of_receive:
  "queue_of b ((set_sock c k p)\<lparr>peer_self := s, thread := t\<rparr>) = (if b = c then sk_queue k else queue_of b p)"
  by (simp add: queue_of_def sock_of_def set_sock_def)

text \<open>
  While the test has not stopped it, a turn of a thread that has not ended either ends it, or takes
  the first arrival of a socket, or leaves that queue alone and comes closer to taking from it.
\<close>

lemma thread_turn_closer:
  assumes "peer_ok p" "in_turn p" "caller p = Testing" "\<not> ended (thread p)"
  shows "(queue_of b (thread_turn serve p) = queue_of b p \<and>
      (ended (thread (thread_turn serve p)) \<or> queue_of b p = [] \<or> turns_to b (thread (thread_turn serve p)) < turns_to b (thread p))) \<or>
    (queue_of b p \<noteq> [] \<and> queue_of b (thread_turn serve p) = tl (queue_of b p) \<and> turns_to b (thread (thread_turn serve p)) \<le> 7)"
proof -
  have open_socks: "sk_open (own_sock p)" "all_open p" "running p"
    using assms(1,3) by (auto simp: peer_ok_def all_open_def split: option.splits)
  show ?thesis
  proof (cases "thread p")
    case In_select
    then have q: "thread_turn serve p = p\<lparr>thread := Receiving (ready_socks p)\<rparr>" using open_socks by (simp add: thread_turn_def)
    have "b \<in> set (ready_socks p)" "ready_socks p \<in> {[False], [True], [False, True]}" if "queue_of b p \<noteq> []"
      using that by (auto simp: ready_socks_def queue_of_def sock_of_def split: option.splits if_splits)
    then have "turns_to b (Receiving (ready_socks p)) < turns_to b In_select" if "queue_of b p \<noteq> []"
      using that by (cases b) auto
    with In_select show ?thesis by (cases "queue_of b p = []") (simp_all add: q)
  next
    case (Receiving bs)
    show ?thesis
    proof (cases bs)
      case Nil
      with Receiving show ?thesis by (simp add: thread_turn_def)
    next
      case (Cons c bs')
      with Receiving assms(1) have r: "ready_ok (c # bs') p" by (simp add: peer_ok_def)
      then obtain k where k: "sock_of c p = Some k" "sk_queue k \<noteq> []" by (auto simp: ready_ok_def split: option.splits)
      then obtain a rest where q: "sk_queue k = a # rest" by (cases "sk_queue k") auto
      have "sk_open k" using k(1) open_socks by (cases c) (auto simp: sock_of_def all_open_def)
      from receive_turn_outcome [OF k(1) this q, of serve bs'] obtain s t where
        e: "receive_turn serve c bs' p = (set_sock c (k\<lparr>sk_queue := rest\<rparr>) p)\<lparr>peer_self := s, thread := t\<rparr>"
        and t: "t = Receiving bs' \<or> (\<exists>sends. t = Sending sends bs') \<or> ended t" by blast
      have tt: "thread_turn serve p = receive_turn serve c bs' p" using Receiving Cons by (simp add: thread_turn_def)
      have qc: "queue_of c p = a # rest" using k(1) q by (simp add: queue_of_def)
      have bs': "bs' \<in> {[], [True]}" "c \<longrightarrow> bs' = []" using assms(2) Receiving Cons by (auto simp: in_turn_def)
      have e0: "turns_to b t = 0" if "ended t" using that turns_to_bound(2) by blast
      show ?thesis
      proof (cases "b = c")
        case True
        have "turns_to b t \<le> 7" using t bs' e0 by auto
        with True show ?thesis unfolding tt e queue_of_receive by (simp add: qc)
      next
        case False
        have "ended t \<or> turns_to b t < turns_to b (thread p)"
          using t bs' False Receiving Cons by (cases b) auto
        with False show ?thesis unfolding tt e queue_of_receive by auto
      qed
    qed
  next
    case (Sending sends bs)
    with assms(2) have "bs \<in> {[], [True]}" by (simp add: in_turn_def)
    with Sending open_socks show ?thesis by (cases b) (auto simp: thread_turn_def)
  qed (use open_socks assms(4) in \<open>auto simp: thread_turn_def\<close>)
qed

section \<open>Runs\<close>

lemma testing_before:
  "peer_event serve change ev p = Some q \<Longrightarrow> caller q = Testing \<Longrightarrow> caller p = Testing \<and> ev \<noteq> Stop_turn"
  by (cases ev) (auto simp: stop_turn_def thread_turn_def receive_turn_def arrives_def Let_def
      split: if_splits caller.splits thread.splits option.splits list.splits arrival.splits prod.splits sum.splits)

text \<open>What has been taken from a socket, and how many turns that can have cost at most.\<close>

definition on_time :: "bool \<Rightarrow> nat \<Rightarrow> arrival list \<Rightarrow> nat \<Rightarrow> 's peer \<Rightarrow> bool" where
  "on_time b n as turns q \<longleftrightarrow> (\<exists>taken. as = taken @ queue_of b q \<and>
     (ended (thread q) \<or> n \<le> length taken \<or> turns + turns_to b (thread q) + 7 * (n - length taken) \<le> 7 * n + 8))"

lemma on_time_thread_turn:
  assumes "on_time b n as turns q" "n \<le> length as" "peer_ok q" "in_turn q" "caller q = Testing" "\<not> ended (thread q)"
  shows "on_time b n as (Suc turns) (thread_turn serve q)"
proof -
  let ?q = "thread_turn serve q"
  from assms(1,6) obtain taken where t: "as = taken @ queue_of b q"
    "n \<le> length taken \<or> turns + turns_to b (thread q) + 7 * (n - length taken) \<le> 7 * n + 8"
    by (auto simp: on_time_def)
  have nonempty: "n \<le> length taken \<or> queue_of b q \<noteq> []" using t(1) assms(2) by auto
  have pos: "0 < turns_to b (thread q)" using assms(6) turns_to_bound(2) [of b "thread q"] by simp
  from thread_turn_closer [OF assms(3-6), of b serve] show ?thesis
  proof (elim disjE conjE)
    assume "queue_of b ?q = queue_of b q" "turns_to b (thread ?q) < turns_to b (thread q)"
    with t show ?thesis unfolding on_time_def by (intro exI [of _ taken]) auto
  next
    assume q: "queue_of b q \<noteq> []" "queue_of b ?q = tl (queue_of b q)" and w: "turns_to b (thread ?q) \<le> 7"
    let ?taken = "taken @ [hd (queue_of b q)]"
    have "as = ?taken @ queue_of b ?q" using q t(1) by simp
    moreover have "n \<le> length ?taken \<or> Suc turns + turns_to b (thread ?q) + 7 * (n - length ?taken) \<le> 7 * n + 8"
      using t(2) w pos by auto
    ultimately show ?thesis unfolding on_time_def by blast
  qed (use t nonempty in \<open>auto simp: on_time_def\<close>)
qed

lemma on_time_run:
  assumes "peer_run serve change p evs q" "peer_ok p" "in_turn p" "caller q = Testing" "n \<le> length (queue_of b p)"
  shows "on_time b n (queue_of b p @ on_sock b (arrivals_of evs)) (count_list evs Thread_turn) q"
  using assms
proof (induction rule: peer_run.induct)
  case Begin
  then show ?case using turns_to_bound(1) [of b "thread p"] by (auto simp: on_time_def)
next
  case (Next evs q ev q')
  have before: "caller q = Testing" "ev \<noteq> Stop_turn" using testing_before [OF Next.hyps(2) Next.prems(3)] by auto
  have ok: "peer_ok q" "in_turn q" using peer_run_ok peer_run_in_turn Next.hyps(1) Next.prems(1,2) by blast+
  note ih = Next.IH [OF Next.prems(1,2) before(1) Next.prems(4)]
  show ?case
  proof (cases ev)
    case Thread_turn
    with Next.hyps(2) have "\<not> ended (thread q)" "q' = thread_turn serve q" by (auto split: if_splits)
    with on_time_thread_turn [OF ih _ ok before(1)] Next.prems(4) Thread_turn show ?thesis by simp
  next
    case (Arrives c a)
    with Next.hyps(2) obtain k where "sock_of c q = Some k" "q' = set_sock c (k\<lparr>sk_queue := sk_queue k @ [a]\<rparr>) q"
      by (auto simp: arrives_def split: option.splits if_splits)
    moreover from this(1) have "queue_of c q = sk_queue k" by (simp add: queue_of_def)
    ultimately show ?thesis using ih Arrives by (auto simp: on_time_def)
  next
    case (Changes c)
    with Next.hyps(2) ih show ?thesis by (auto simp: on_time_def)
  qed (use before in simp)
qed

section \<open>Claims\<close>

text \<open>C21: No arrival waits forever, and none waits behind the other socket: of what was queued on a
  socket of any Peer, the first \<open>n\<close> arrivals have been taken, in order, once the thread has had
  \<open>7 * n + 1\<close> turns, however many datagrams keep arriving on either socket and whatever the test sets
  meanwhile, unless \<open>stop()\<close> was called or a datagram ended the thread.\<close>
theorem arrivals_are_taken:
  assumes "peer_run serve change (started s hears_broadcasts) evs p" "peer_run serve change p evs' q"
    and "caller q = Testing" "n \<le> length (queue_of b p)" "7 * n + 1 \<le> count_list evs' Thread_turn"
  shows "ended (thread q) \<or>
    (\<exists>taken. queue_of b p @ on_sock b (arrivals_of evs') = taken @ queue_of b q \<and> n \<le> length taken)"
proof -
  have p: "peer_ok p" "in_turn p"
    using peer_run_ok [OF assms(1) peer_ok_started] peer_run_in_turn [OF assms(1) in_turn_started] .
  from on_time_run [OF assms(2) p assms(3,4)] obtain taken where t: "queue_of b p @ on_sock b (arrivals_of evs') = taken @ queue_of b q"
    "ended (thread q) \<or> n \<le> length taken \<or>
     count_list evs' Thread_turn + turns_to b (thread q) + 7 * (n - length taken) \<le> 7 * n + 8"
    unfolding on_time_def by blast
  have "n \<le> length taken" if "\<not> ended (thread q)"
    using t(2) assms(5) that turns_to_bound(2) [of b "thread q"] by auto
  with t(1) show ?thesis by blast
qed

text \<open>A Who-Is on the broadcast socket, taken although more arrives on the other one all the time.\<close>

definition busy_events :: "setting event list" where
  "busy_events = concat (replicate 4 [Thread_turn, Arrives False Connection_reset, Thread_turn])"

definition waiting_peer :: "server peer" where
  "waiting_peer = the (run_events server_serve server_change
     [Arrives False Connection_reset, Arrives True (Datagram example_who_is ([49], 47808))] (started example_server True))"

definition busy_peer :: "server peer" where
  "busy_peer = the (run_events server_serve server_change busy_events waiting_peer)"

theorem arrivals_are_taken_witness:
  "\<exists>taken. Datagram example_who_is ([49], 47808) # on_sock True (arrivals_of busy_events) = taken @ queue_of True busy_peer \<and>
    1 \<le> length taken"
proof -
  have "run_events server_serve server_change [Arrives False Connection_reset, Arrives True (Datagram example_who_is ([49], 47808))]
      (started example_server True) \<noteq> None" "run_events server_serve server_change busy_events waiting_peer \<noteq> None"
    by code_simp+
  then have runs: "server_peer_run (started example_server True)
      [Arrives False Connection_reset, Arrives True (Datagram example_who_is ([49], 47808))] waiting_peer"
    "server_peer_run waiting_peer busy_events busy_peer"
    unfolding waiting_peer_def busy_peer_def by (metis option.exhaust_sel run_events_run)+
  have q: "queue_of True waiting_peer = [Datagram example_who_is ([49], 47808)]" by code_simp
  have t: "caller busy_peer = Testing" by code_simp
  have e: "\<not> ended (thread busy_peer)" by code_simp
  have c: "7 * 1 + 1 \<le> count_list busy_events Thread_turn" by code_simp
  from arrivals_are_taken [OF runs t _ c, of True] q e show ?thesis by simp
qed

end
