(* ===== verification/Serial_History.thy ===== *)
theory Serial_History
  imports Peer_Progress
begin

text \<open>
  A Peer whose thread, test and sockets act at the same time, with a datagram served as one turn,
  behaves as if it had done one thing after the other. A history is the sequence of the datagrams
  served and of the settings the test made; from the history alone follow the state of the Peer and
  everything it sends.
\<close>

section \<open>Histories\<close>

datatype 'c effect = Served bool arrival | Set_to 'c

definition perform :: "'s handler \<Rightarrow> ('c \<Rightarrow> 's \<Rightarrow> 's) \<Rightarrow> 'c effect \<Rightarrow> datagram list \<times> 's \<Rightarrow> datagram list \<times> 's" where
  "perform serve change e st = (case e of
     Served b a \<Rightarrow> (case a of
       Connection_reset \<Rightarrow> st
     | Datagram data source \<Rightarrow> (case serve data source b (snd st) of
         (Inl e, s') \<Rightarrow> (fst st, s')
       | (Inr sends, s') \<Rightarrow> (fst st @ sends, s')))
   | Set_to c \<Rightarrow> (fst st, change c (snd st)))"

definition served_of :: "'c effect list \<Rightarrow> (bool \<times> arrival) list" where
  "served_of = List.map_filter (\<lambda>e. case e of Served b a \<Rightarrow> Some (b, a) | Set_to c \<Rightarrow> None)"

definition settings_of :: "'c effect list \<Rightarrow> 'c list" where
  "settings_of = List.map_filter (\<lambda>e. case e of Served b a \<Rightarrow> None | Set_to c \<Rightarrow> Some c)"

definition settings_in :: "'c event list \<Rightarrow> 'c list" where
  "settings_in = List.map_filter (\<lambda>ev. case ev of Changes c \<Rightarrow> Some c | _ \<Rightarrow> None)"

text \<open>What the thread is about to send.\<close>

fun pending_sends :: "thread \<Rightarrow> datagram list" where
  "pending_sends (Sending sends bs) = sends"
| "pending_sends _ = []"

definition serial :: "'s handler \<Rightarrow> ('c \<Rightarrow> 's \<Rightarrow> 's) \<Rightarrow> 's \<Rightarrow> 'c event list \<Rightarrow> 's peer \<Rightarrow> 'c effect list \<Rightarrow> bool" where
  "serial serve change s evs p h \<longleftrightarrow>
     (\<forall>b. on_sock b (arrivals_of evs) = on_sock b (served_of h) @ queue_of b p) \<and>
     settings_of h = settings_in evs \<and>
     fold (perform serve change) h ([], s) = (put_out p @ pending_sends (thread p), peer_self p)"

lemma effects_append [simp]:
  "served_of (h @ h') = served_of h @ served_of h'" "settings_of (h @ h') = settings_of h @ settings_of h'"
  "settings_in (evs @ evs') = settings_in evs @ settings_in evs'"
  by (simp_all add: served_of_def settings_of_def settings_in_def map_filter_append)

lemma effects_simps [simp]:
  "served_of [] = []" "served_of [Served b a] = [(b, a)]" "served_of [Set_to c] = []"
  "settings_of [] = []" "settings_of [Served b a] = []" "settings_of [Set_to c] = [c]"
  "settings_in [] = []" "settings_in [Thread_turn] = []" "settings_in [Stop_turn] = []"
  "settings_in [Arrives b a] = []" "settings_in [Changes c] = [c]"
  by (simp_all add: served_of_def settings_of_def settings_in_def map_filter_simps)

lemma serialI:
  assumes "serial serve change s evs p h"
    and "\<And>b. queue_of b p @ on_sock b (arrivals_of evs') = on_sock b (served_of h') @ queue_of b q"
    and "settings_of h' = settings_in evs'"
    and "fold (perform serve change) h' (put_out p @ pending_sends (thread p), peer_self p) =
      (put_out q @ pending_sends (thread q), peer_self q)"
  shows "serial serve change s (evs @ evs') q (h @ h')"
  using assms by (simp add: serial_def append_assoc [symmetric] del: append_assoc) (metis append_assoc)

lemma serial_started: "serial serve change s [] (started s hb) []"
  by (simp add: serial_def started_def new_socket_def queue_of_def sock_of_def)

section \<open>Every event extends the history\<close>

text \<open>The thread serves one datagram, or sends, or goes on.\<close>

lemma receive_turn_performs:
  assumes "sock_of c p = Some k" "sk_open k" "sk_queue k = a # rest" "thread p = Receiving (c # bs)"
  shows "fold (perform serve change) [Served c a] (put_out p @ pending_sends (thread p), peer_self p) =
      (put_out (receive_turn serve c bs p) @ pending_sends (thread (receive_turn serve c bs p)),
       peer_self (receive_turn serve c bs p))"
    and "queue_of b p = on_sock b [(c, a)] @ queue_of b (receive_turn serve c bs p)"
proof -
  show "fold (perform serve change) [Served c a] (put_out p @ pending_sends (thread p), peer_self p) =
      (put_out (receive_turn serve c bs p) @ pending_sends (thread (receive_turn serve c bs p)),
       peer_self (receive_turn serve c bs p))"
    using assms by (auto simp: perform_def receive_turn_def Let_def split: arrival.splits prod.splits sum.splits)
  from receive_turn_outcome [OF assms(1-3), of serve bs] obtain s t where
    e: "receive_turn serve c bs p = (set_sock c (k\<lparr>sk_queue := rest\<rparr>) p)\<lparr>peer_self := s, thread := t\<rparr>" by blast
  have "queue_of c p = a # rest" using assms(1,3) by (simp add: queue_of_def)
  then show "queue_of b p = on_sock b [(c, a)] @ queue_of b (receive_turn serve c bs p)"
    unfolding e queue_of_receive by auto
qed

lemma thread_turn_serial:
  assumes "serial serve change s evs p h" "peer_ok p" "caller p = Testing"
  shows "\<exists>h'. serial serve change s (evs @ [Thread_turn]) (thread_turn serve p) (h @ h')"
proof -
  have open_socks: "sk_open (own_sock p)" "all_open p"
    using assms(2,3) by (auto simp: peer_ok_def all_open_def split: option.splits)
  have stays: ?thesis if "\<And>b. queue_of b (thread_turn serve p) = queue_of b p" "peer_self (thread_turn serve p) = peer_self p"
    "put_out (thread_turn serve p) @ pending_sends (thread (thread_turn serve p)) = put_out p @ pending_sends (thread p)"
    by (rule exI [of _ "[]"]) (rule serialI [OF assms(1)], use that in simp_all)
  show ?thesis
  proof (cases "thread p")
    case (Receiving bs)
    show ?thesis
    proof (cases bs)
      case Nil
      with Receiving show ?thesis by (intro stays) (simp_all add: thread_turn_def)
    next
      case (Cons c bs')
      with Receiving assms(2) have "ready_ok (c # bs') p" by (simp add: peer_ok_def)
      then obtain k a rest where k: "sock_of c p = Some k" "sk_queue k = a # rest"
        by (auto simp: ready_ok_def neq_Nil_conv split: option.splits)
      have o: "sk_open k" using k(1) open_socks by (cases c) (auto simp: sock_of_def all_open_def)
      have t: "thread_turn serve p = receive_turn serve c bs' p" using Receiving Cons by (simp add: thread_turn_def)
      note perf = receive_turn_performs [where serve = serve, OF k(1) o k(2) Receiving [unfolded Cons]]
      show ?thesis
        unfolding t by (rule exI [of _ "[Served c a]"], rule serialI [OF assms(1) _ _ perf(1)]) (use perf(2) in simp_all)
    qed
  qed (rule stays; simp add: thread_turn_def open_socks)+
qed

lemma peer_event_serial:
  assumes "serial serve change s evs p h" "peer_ok p" "peer_event serve change ev p = Some q" "caller q = Testing"
  shows "\<exists>h'. serial serve change s (evs @ [ev]) q (h @ h')"
proof -
  have before: "caller p = Testing" "ev \<noteq> Stop_turn" using testing_before [OF assms(3,4)] by auto
  show ?thesis
  proof (cases ev)
    case Thread_turn
    with assms(3) thread_turn_serial [OF assms(1,2) before(1)] show ?thesis by (auto split: if_splits)
  next
    case (Arrives c a)
    with assms(3) obtain k where k: "sock_of c p = Some k" "q = set_sock c (k\<lparr>sk_queue := sk_queue k @ [a]\<rparr>) p"
      by (auto simp: arrives_def split: option.splits if_splits)
    from k(1) have "queue_of c p = sk_queue k" by (simp add: queue_of_def)
    with Arrives k(2) show ?thesis by (intro exI [of _ "[]"] serialI [OF assms(1)]) auto
  next
    case (Changes c)
    with assms(3) show ?thesis by (intro exI [of _ "[Set_to c]"] serialI [OF assms(1)]) (auto simp: perform_def)
  qed (use before in simp)
qed

lemma peer_run_serial:
  assumes "peer_run serve change p evs' q" "serial serve change s evs p h" "peer_ok p" "caller q = Testing"
  shows "\<exists>h'. serial serve change s (evs @ evs') q (h @ h')"
  using assms
proof (induction rule: peer_run.induct)
  case Begin
  then show ?case by (metis append_Nil2)
next
  case (Next evs' q ev q')
  have before: "caller q = Testing" using testing_before [OF Next.hyps(2) Next.prems(3)] by auto
  have ok: "peer_ok q" using peer_run_ok Next.hyps(1) Next.prems(2) by blast
  from Next.IH [OF Next.prems(1,2) before] obtain h' where "serial serve change s (evs @ evs') q (h @ h')" by blast
  from peer_event_serial [OF this ok Next.hyps(2) Next.prems(3)] obtain h'' where
    "serial serve change s ((evs @ evs') @ [ev]) q' ((h @ h') @ h'')" by blast
  then show ?case by (metis append_assoc)
qed

text \<open>A whole run, and its continuation.\<close>

lemma serial_runs:
  assumes "peer_run serve change (started s hears_broadcasts) evs p" "peer_run serve change p evs' q" "caller q = Testing"
  shows "\<exists>h h'. serial serve change s evs p h \<and> serial serve change s (evs @ evs') q (h @ h')"
proof -
  have "caller p = Testing"
    using assms(2,3) by (induction rule: peer_run.induct) (auto dest: testing_before)
  from peer_run_serial [OF assms(1) serial_started peer_ok_started this] obtain h where h: "serial serve change s evs p h"
    by auto
  from peer_run_serial [OF assms(2) h peer_run_ok [OF assms(1) peer_ok_started] assms(3)] h show ?thesis by blast
qed

end
