(* ===== verification/Threaded_Network.thy ===== *)
theory Threaded_Network
  imports System Serial_History
begin

text \<open>
  \<open>System\<close> lets a server answer each datagram at once. Here that network is what the serving thread of
  \<open>Serving\<close> implements: however arrivals and the turns of the thread are interleaved, the answers put out
  and the state of the server are those of serving the datagrams one at a time.
\<close>

section \<open>Histories without settings\<close>

text \<open>An event that is a turn of the thread, or an arrival on a peer's own socket.\<close>

fun thread_or_arrival :: "'c event \<Rightarrow> bool" where
  "thread_or_arrival Thread_turn = True"
| "thread_or_arrival (Arrives b a) = (\<not> b)"
| "thread_or_arrival _ = False"

lemma thread_or_arrival_run:
  assumes "peer_run serve change (started s False) evs p" "list_all thread_or_arrival evs"
  shows "caller p = Testing" "settings_in evs = []" "on_sock True (arrivals_of evs) = []"
proof -
  have turn: "caller (thread_turn serve q) = caller q" for q :: "'a peer"
    by (auto simp: thread_turn_def receive_turn_def Let_def
        split: thread.splits option.splits list.splits arrival.splits prod.splits sum.splits)
  from assms show "caller p = Testing" "settings_in evs = []" "on_sock True (arrivals_of evs) = []"
  proof (induction rule: peer_run.induct)
    case (Next evs q ev q')
    {
      case 1
      with Next show ?case by (cases ev) (auto simp: turn arrives_def split: if_splits option.splits)
    next
      case 2
      with Next show ?case by (cases ev) auto
    next
      case 3
      with Next show ?case by (cases ev) auto
    }
  qed (simp_all add: started_def)
qed

lemma history_of_datagrams:
  "settings_of h = [] \<Longrightarrow> on_sock True (served_of h) = [] \<Longrightarrow> h = map (Served False) (on_sock False (served_of h))"
proof (induction h)
  case (Cons e h)
  have c: "settings_of (e # h) = settings_of [e] @ settings_of h" "served_of (e # h) = served_of [e] @ served_of h"
    using effects_append(1,2) [of "[e]" h] by simp_all
  show ?case
  proof (cases e)
    case (Served b a)
    with Cons c show ?thesis by (cases b) (auto simp: on_sock_def)
  qed (use Cons.prems c in simp)
qed simp

section \<open>As a network\<close>

text \<open>What a network answers to datagrams sent to \<open>target\<close> one after the other.\<close>

fun exchange :: "'w network \<Rightarrow> address \<Rightarrow> octets list \<Rightarrow> 'w \<Rightarrow> (int \<times> arrival) list \<times> 'w" where
  "exchange net target [] w = ([], w)"
| "exchange net target (d # ds) w = (case net w (d, target) of (out, w') \<Rightarrow>
     case exchange net target ds w' of (rest, w'') \<Rightarrow> (out @ rest, w''))"

definition carried :: "int \<Rightarrow> address \<Rightarrow> datagram list \<Rightarrow> (int \<times> arrival) list" where
  "carried delay there = map (\<lambda>(octets, _). (delay, Datagram octets there))"

lemma server_network_perform:
  "server_network here there delay w (d, target) =
    (case perform server_serve change (Served False (Datagram d here)) ([], w) of (out, w') \<Rightarrow> (carried delay there out, w'))"
  by (simp add: server_network_def perform_def carried_def split: prod.splits sum.splits)

lemma perform_out:
  "perform serve change e (out, s) = (out @ fst (perform serve change e ([], s)), snd (perform serve change e ([], s)))"
  by (simp add: perform_def split: effect.splits arrival.splits prod.splits sum.splits)

lemma exchange_fold:
  "fold (perform server_serve change) (map (\<lambda>d. Served False (Datagram d here)) ds) (out, w) = (out', w') \<Longrightarrow>
    (carried delay there out @ fst (exchange (server_network here there delay) target ds w),
     snd (exchange (server_network here there delay) target ds w)) = (carried delay there out', w')"
proof (induction ds arbitrary: out w)
  case (Cons d ds)
  obtain o1 w1 where s: "perform server_serve change (Served False (Datagram d here)) ([], w) = (o1, w1)" by (metis surj_pair)
  with Cons.prems have "fold (perform server_serve change) (map (\<lambda>d. Served False (Datagram d here)) ds) (out @ o1, w1) = (out', w')"
    using perform_out [of server_serve change "Served False (Datagram d here)" out w] by simp
  from Cons.IH [OF this] s server_network_perform [of here there delay w d target change] show ?case
    by (cases "exchange (server_network here there delay) target ds w1") (simp add: carried_def)
qed simp

section \<open>Claims\<close>

text \<open>C26: The network of the end-to-end claims is implemented by the serving thread. However the datagrams
  of a client arrive between the turns of the thread: those not in the socket's queue have been
  served, and the answers put out and about to be put out, and the state of the server, are the ones that
  network gives for them, one at a time and in the order they arrived.\<close>
theorem thread_implements_network:
  assumes "peer_run server_serve server_change (started s False) evs p" and "list_all thread_or_arrival evs"
    and "map snd (arrivals_of evs) = map (\<lambda>d. Datagram d here) ds"
  shows "\<exists>n \<le> length ds. sk_queue (own_sock p) = map (\<lambda>d. Datagram d here) (drop n ds) \<and>
    exchange (server_network here there delay) target (take n ds) s =
      (carried delay there (put_out p @ pending_sends (thread p)), peer_self p)"
proof -
  note run = thread_or_arrival_run [OF assms(1,2)]
  from peer_run_serial [OF assms(1) serial_started peer_ok_started run(1)] obtain h where
    h: "serial server_serve server_change s evs p h" by auto
  obtain did where did: "did = on_sock False (served_of h)" by blast
  have no_broadcasts: "on_sock True (served_of h) = []" "settings_of h = []" using h run(2,3) by (auto simp: serial_def)
  have "on_sock False (arrivals_of evs) = map snd (arrivals_of evs)"
    using run(3) by (auto simp: on_sock_def filter_empty_conv intro!: arg_cong [of _ _ "map snd"] filter_True)
  then have d: "map (\<lambda>d. Datagram d here) ds = did @ sk_queue (own_sock p)"
    using h assms(3) by (simp add: did serial_def queue_of_def sock_of_def)
  let ?n = "length did"
  from d have q: "did = map (\<lambda>d. Datagram d here) (take ?n ds)" "sk_queue (own_sock p) = map (\<lambda>d. Datagram d here) (drop ?n ds)"
    by (metis append_eq_conv_conj take_map, metis append_eq_conv_conj drop_map)
  have "h = map (Served False) did" unfolding did by (rule history_of_datagrams [OF no_broadcasts(2,1)])
  then have "h = map (\<lambda>d. Served False (Datagram d here)) (take ?n ds)" by (subst (asm) q(1)) simp
  with h have "fold (perform server_serve server_change) (map (\<lambda>d. Served False (Datagram d here)) (take ?n ds)) ([], s) =
      (put_out p @ pending_sends (thread p), peer_self p)"
    by (simp add: serial_def)
  from exchange_fold [OF this, of delay there target]
  have "exchange (server_network here there delay) target (take ?n ds) s =
      (carried delay there (put_out p @ pending_sends (thread p)), peer_self p)"
    by (simp add: carried_def prod_eq_iff)
  moreover have "?n \<le> length ds" using arg_cong [OF d, of length] by simp
  ultimately show ?thesis using q(2) by blast
qed

text \<open>Two datagrams, the second arriving while the first is being served.\<close>

definition overlapping_events :: "setting event list" where
  "overlapping_events = [Thread_turn, Arrives False (Datagram example_who_is ([49], 47808)), Thread_turn, Thread_turn,
     Arrives False (Datagram example_who_is ([49], 47808)), Thread_turn, Thread_turn, Thread_turn, Thread_turn, Thread_turn]"

definition overlapping_peer :: "server peer" where
  "overlapping_peer = the (run_events server_serve server_change overlapping_events (started example_server False))"

theorem thread_implements_network_witness:
  "exchange (server_network ([49], 47808) ([50], 47808) 20) ([50], 47808) [example_who_is, example_who_is] example_server =
     (carried 20 ([50], 47808) (put_out overlapping_peer @ pending_sends (thread overlapping_peer)), peer_self overlapping_peer) \<and>
   length (put_out overlapping_peer @ pending_sends (thread overlapping_peer)) = 2"
proof -
  have "run_events server_serve server_change overlapping_events (started example_server False) \<noteq> None" by code_simp
  then have run: "peer_run server_serve server_change (started example_server False) overlapping_events overlapping_peer"
    unfolding overlapping_peer_def by (metis option.exhaust_sel run_events_run)
  have e: "list_all thread_or_arrival overlapping_events"
    "map snd (arrivals_of overlapping_events) = map (\<lambda>d. Datagram d ([49], 47808)) [example_who_is, example_who_is]"
    by code_simp+
  have q: "sk_queue (own_sock overlapping_peer) = []" "length (put_out overlapping_peer @ pending_sends (thread overlapping_peer)) = 2"
    by code_simp+
  let ?ds = "[example_who_is, example_who_is]"
  from thread_implements_network [OF run e, of "([50], 47808)" 20 "([50], 47808)"] obtain n where n: "n \<le> length ?ds"
    "sk_queue (own_sock overlapping_peer) = map (\<lambda>d. Datagram d ([49], 47808)) (drop n ?ds)"
    "exchange (server_network ([49], 47808) ([50], 47808) 20) ([50], 47808) (take n ?ds) example_server =
      (carried 20 ([50], 47808) (put_out overlapping_peer @ pending_sends (thread overlapping_peer)), peer_self overlapping_peer)"
    by blast
  have "take n ?ds = ?ds" using n(1,2) q(1) by simp
  with n(3) q(2) show ?thesis by (simp only: simp_thms)
qed

end
