(* ===== verification/Server_Steps.thy ===== *)
theory Server_Steps
  imports Peer_Server
begin

text \<open>
  The answering of a datagram one access to the object at a time. \<open>Peer_Server\<close> runs \<open>_answer\<close> of
  \<^verbatim>\<open>src/wiretest/peer.py\<close> from its first line to its last without a stop; here each statement
  that reads or assigns an attribute is a step of its own, and between two steps the test may set the
  mode, the failures or the refusals. Run without such a pause, the steps do what \<open>server_serve\<close> does.
\<close>

section \<open>Methods in steps\<close>

datatype ('s, 'a) steps =
    Finished "'a result"
  | Step "'s \<Rightarrow> ('s, 'a) steps \<times> 's"

primrec run_steps :: "('s, 'a) steps \<Rightarrow> ('s, 'a) exec" where
  "run_steps (Finished r) = (\<lambda>s. (r, s))"
| "run_steps (Step m) = (\<lambda>s. (\<lambda>(run, s'). run s') ((map_prod run_steps id \<circ> m) s))"

text \<open>One access, a computation that touches no attribute, and one after the other.\<close>

definition access :: "('s, 'a) exec \<Rightarrow> ('s, 'a) steps" where
  "access m = Step (\<lambda>s. case m s of (r, s') \<Rightarrow> (Finished r, s'))"

definition look :: "('s \<Rightarrow> 'a) \<Rightarrow> ('s, 'a) steps" where
  "look g = access (eget g)"

definition assign :: "('s \<Rightarrow> 's) \<Rightarrow> ('s, unit) steps" where
  "assign h = access (emodify h)"

definition give :: "'a \<Rightarrow> ('s, 'a) steps" where
  "give x = Finished (Inr x)"

primrec sbind :: "('s, 'a) steps \<Rightarrow> ('a \<Rightarrow> ('s, 'b) steps) \<Rightarrow> ('s, 'b) steps" where
  "sbind (Finished r) f = (case r of Inl e \<Rightarrow> Finished (Inl e) | Inr x \<Rightarrow> f x)"
| "sbind (Step m) f = Step (map_prod (\<lambda>rest. sbind rest f) id \<circ> m)"

named_theorems run_simps \<open>uninterrupted runs of methods in steps\<close>

lemma run_sbind [run_simps]: "run_steps (sbind p f) = ebind (run_steps p) (\<lambda>x. run_steps (f x))"
proof (induction p)
  case (Finished r)
  show ?case by (cases r) (simp_all add: fun_eq_iff ebind_def)
next
  case (Step m)
  show ?case
  proof
    fix s
    obtain p' s' where m: "m s = (p', s')" by (metis surj_pair)
    have "p' \<in> Basic_BNFs.fsts (m s)" by (simp add: m)
    then have "run_steps (sbind p' f) = ebind (run_steps p') (\<lambda>x. run_steps (f x))" by (rule Step.IH [OF rangeI])
    with m show "run_steps (sbind (Step m) f) s = ebind (run_steps (Step m)) (\<lambda>x. run_steps (f x)) s"
      by (simp add: ebind_def)
  qed
qed

lemma run_steps_simps [run_simps]:
  "run_steps (Finished r) = elift r" "run_steps (access m) = m" "run_steps (look g) = eget g"
  "run_steps (assign h) = emodify h" "run_steps (give x) = eret x"
  by (simp_all add: fun_eq_iff access_def look_def assign_def give_def split: prod.splits)

lemma run_if [run_simps]: "run_steps (if b then p else q) = (if b then run_steps p else run_steps q)"
  by simp

lemma run_option [run_simps]:
  "run_steps (case v of None \<Rightarrow> p | Some x \<Rightarrow> q x) = (case v of None \<Rightarrow> run_steps p | Some x \<Rightarrow> run_steps (q x))"
  by (cases v) simp_all

lemma run_prod [run_simps]: "run_steps (case v of (a, b) \<Rightarrow> p a b) = (case v of (a, b) \<Rightarrow> run_steps (p a b))"
  by (cases v) simp

lemma run_Let [run_simps]: "run_steps (let x = v in p x) = (let x = v in run_steps (p x))"
  by simp

lemma sbind_simps [simp]: "sbind (Finished (Inr x)) f = f x" "sbind (Finished (Inl e)) f = Finished (Inl e)" "sbind (give x) f = f x"
  by (simp_all add: give_def)

declare sbind.simps(1) [simp del] run_steps.simps [simp del]

section \<open>SimulatedServer\<close>

abbreviation (input) answer_steps :: "frame \<Rightarrow> (int \<Rightarrow> octets result) \<Rightarrow> ('s, octets option) steps" where
  "answer_steps f encode \<equiv> Finished (rbind (answered_id f) (\<lambda>iid. rbind (encode iid) (\<lambda>a. Inr (Some a))))"

text \<open>\<open>_answer\<close> reads \<open>self.mode\<close> and then \<open>self.failures\<close>, for its truth value and for the lookup.\<close>

definition failure_steps :: "frame \<Rightarrow> (server, string option) steps" where
  "failure_steps f =
     (if pdu_type f \<noteq> Some PDU_CONFIRMED_REQUEST then give None
      else sbind (look mode) (\<lambda>m.
        if m \<noteq> ''online'' then give None
        else sbind (look (\<lambda>s. failures s \<noteq> [])) (\<lambda>scripted.
          if \<not> scripted then give None
          else sbind (look failures) (\<lambda>fails.
            sbind (Finished (requested_object f)) (\<lambda>key.
            give (case key of None \<Rightarrow> None | Some k \<Rightarrow> map_of fails k))))))"

definition note_read_steps :: "int \<Rightarrow> (int \<times> int \<times> int list) list \<Rightarrow> (server, unit) steps" where
  "note_read_steps choice specifications =
     assign (\<lambda>s. s\<lparr>read_requests := read_requests s @ [(choice, specifications)]\<rparr>)"

definition read_special_steps :: "frame \<Rightarrow> (int \<times> int \<times> int) \<times> int option \<Rightarrow> string option \<Rightarrow> (server, octets option) steps" where
  "read_special_steps f parsed failure =
     (case parsed of ((object_type, instance_number, property_identifier), array_index) \<Rightarrow>
      if failure = Some ''malformed'' then
        sbind (Finished application_null) (\<lambda>v.
        answer_steps f (\<lambda>iid. read_property_ack iid object_type instance_number property_identifier v))
      else (case array_index of
        None \<Rightarrow>
          sbind (look (\<lambda>s. (object_type, instance_number, property_identifier) \<in> whole_arrays_refused s)) (\<lambda>refused.
          if refused then
            sbind (note_read_steps SERVICE_READ_PROPERTY [(object_type, instance_number, [property_identifier])]) (\<lambda>_.
            answer_steps f (\<lambda>iid. abort_pdu iid ABORT_REASON_SEGMENTATION_NOT_SUPPORTED True))
          else give None)
      | Some ix \<Rightarrow>
          sbind (look array_elements) (\<lambda>elementwise.
          if \<not> elementwise then give None
          else sbind (look (\<lambda>s. server_value s object_type instance_number property_identifier)) (\<lambda>served.
          case served of
            None \<Rightarrow> give None
          | Some v \<Rightarrow>
              sbind (note_read_steps SERVICE_READ_PROPERTY [(object_type, instance_number, [property_identifier])]) (\<lambda>_.
              sbind (assign (\<lambda>s. s\<lparr>array_reads := array_reads s @ [(object_type, instance_number, property_identifier, ix)]\<rparr>)) (\<lambda>_.
              sbind (Finished (application_elements v)) (\<lambda>elements.
              if ix = 0 then
                sbind (Finished (application_unsigned (int (length elements)))) (\<lambda>e.
                answer_steps f (\<lambda>iid. array_element_ack iid object_type instance_number property_identifier ix e))
              else if ix \<le> int (length elements) then
                answer_steps f (\<lambda>iid. array_element_ack iid object_type instance_number property_identifier ix
                  (elements ! nat (ix - 1)))
              else answer_steps f (\<lambda>iid. error_pdu iid SERVICE_READ_PROPERTY ERROR_CLASS_PROPERTY
                  ERROR_CODE_INVALID_ARRAY_INDEX))))))))"

text \<open>\<open>_read_multiple\<close> calls \<open>self.value\<close> once per property.\<close>

primrec property_values :: "int \<Rightarrow> int \<Rightarrow> int list \<Rightarrow> (server, (int \<times> octets option) list) steps" where
  "property_values object_type instance_number [] = give []"
| "property_values object_type instance_number (p # ps) =
     sbind (look (\<lambda>s. server_value s object_type instance_number p)) (\<lambda>v.
     sbind (property_values object_type instance_number ps) (\<lambda>rest. give ((p, v) # rest)))"

primrec object_values ::
  "((int \<times> int) \<times> int list) list \<Rightarrow> (server, (int \<times> int \<times> (int \<times> octets option) list) list) steps" where
  "object_values [] = give []"
| "object_values (specification # specifications) =
     (case specification of ((ot, i), ps) \<Rightarrow>
      sbind (property_values ot i ps) (\<lambda>vs.
      sbind (object_values specifications) (\<lambda>rest. give ((ot, i, vs) # rest))))"

definition read_multiple_steps :: "frame \<Rightarrow> (server, octets option) steps" where
  "read_multiple_steps f =
     sbind (Finished (read_access_specifications (drop 4 (payload f)))) (\<lambda>specifications.
     sbind (note_read_steps SERVICE_READ_PROPERTY_MULTIPLE (map (\<lambda>((ot, i), ps). (ot, i, ps)) specifications)) (\<lambda>_.
     sbind (object_values specifications) (\<lambda>results.
     answer_steps f (\<lambda>iid. read_property_multiple_ack iid results))))"

section \<open>Writing in steps\<close>

text \<open>The commanded branch of \<open>_write\<close>: \<open>slots\<close> is read once, filled in place, and searched.\<close>

definition command_steps :: "object_ref \<Rightarrow> write_request \<Rightarrow> bool \<Rightarrow> (server, unit) steps" where
  "command_steps key request is_null =
     sbind (look (\<lambda>s. get_item (priority_arrays s) key)) (\<lambda>r. sbind (Finished r) (\<lambda>slots.
     if slot_index (wr_priority request) < length slots then
       let slots = slots[slot_index (wr_priority request) := (if is_null then None else Some (wr_value_octets request))] in
       sbind (assign (\<lambda>s. s\<lparr>priority_arrays := (priority_arrays s)(key \<mapsto> slots)\<rparr>)) (\<lambda>_.
       sbind (case winning slots of
                [] \<Rightarrow> sbind (look (\<lambda>s. get_item (relinquish_defaults s) key)) Finished
              | v # _ \<Rightarrow> give (Octets v)) (\<lambda>v.
       assign (store_property key (wr_property_identifier request) v)))
     else Finished (Inl IndexError)))"

definition commit_steps :: "write_request \<Rightarrow> bool \<Rightarrow> bool \<Rightarrow> (server, unit) steps" where
  "commit_steps request commanded is_null =
     (let key = (wr_object_type request, wr_instance request) in
      sbind (assign (store_property key (wr_property_identifier request) (Octets (wr_value_octets request)))) (\<lambda>_.
      if commanded then command_steps key request is_null else give ()))"

text \<open>Whether a NULL is ignored: the mode is read only if the conditions before it hold.\<close>

definition ignored_steps :: "write_request \<Rightarrow> bool \<Rightarrow> bool \<Rightarrow> (server, bool) steps" where
  "ignored_steps request is_null commanded =
     sbind (look (\<lambda>s. commandable s \<noteq> None)) (\<lambda>commands.
     if \<not> (commands \<and> is_null \<and> \<not> commanded) then give False
     else sbind (look mode) (\<lambda>m.
       if m \<noteq> ''online'' then give False
       else look (\<lambda>s. case objects s (wr_object_type request, wr_instance request) of
              None \<Rightarrow> False | Some props \<Rightarrow> props (wr_property_identifier request) \<noteq> None)))"

text \<open>Why a write is refused, if it is; the mode is read again.\<close>

definition refusal_steps :: "write_request \<Rightarrow> (server, (int \<times> int) option) steps" where
  "refusal_steps request =
     sbind (look (\<lambda>s. case writable s of
         None \<Rightarrow> (case objects s (wr_object_type request, wr_instance request) of
             None \<Rightarrow> False | Some props \<Rightarrow> props (wr_property_identifier request) \<noteq> None)
       | Some w \<Rightarrow> (wr_object_type request, wr_instance request, wr_property_identifier request) \<in> w)) (\<lambda>allowed.
     sbind (look mode) (\<lambda>m.
     give (if m = ''refusing'' \<or> \<not> allowed then Some (ERROR_CLASS_PROPERTY, ERROR_CODE_WRITE_ACCESS_DENIED)
           else check_write request)))"

definition write_steps :: "frame \<Rightarrow> write_request option \<Rightarrow> (server, octets option) steps" where
  "write_steps f request_option =
     (case request_option of
        None \<Rightarrow> give None
      | Some request \<Rightarrow>
          sbind (Finished (application_tag (wr_value_octets request))) (\<lambda>tag.
          let is_null = (tag = Some TAG_NULL) in
          sbind (look (is_commanded request)) (\<lambda>commanded.
          sbind (ignored_steps request is_null commanded) (\<lambda>ignored.
          if ignored then answer_steps f (\<lambda>iid. simple_ack iid SERVICE_WRITE_PROPERTY)
          else sbind (look (\<lambda>s. objects s (wr_object_type request, wr_instance request) = None)) (\<lambda>unknown.
          if unknown then
            answer_steps f (\<lambda>iid. error_pdu iid SERVICE_WRITE_PROPERTY ERROR_CLASS_OBJECT ERROR_CODE_UNKNOWN_OBJECT)
          else sbind (refusal_steps request) (\<lambda>refusal.
          case refusal of
            Some (c, d) \<Rightarrow> answer_steps f (\<lambda>iid. error_pdu iid SERVICE_WRITE_PROPERTY c d)
          | None \<Rightarrow>
              sbind (commit_steps request commanded is_null) (\<lambda>_.
              sbind (access (on_write request)) (\<lambda>_.
              answer_steps f (\<lambda>iid. simple_ack iid SERVICE_WRITE_PROPERTY)))))))))"

section \<open>The whole of _answer in steps\<close>

text \<open>\<open>super()._answer\<close> reads attributes that nothing assigns after \<open>__init__\<close>: one access.\<close>

definition device_steps :: "frame \<Rightarrow> ('a device_scheme, octets option) steps" where
  "device_steps f = access (\<lambda>s. (device_answer s f, s))"

definition answer_listed_steps :: "frame \<Rightarrow> (int \<times> int \<times> int) \<times> int option \<Rightarrow> string option \<Rightarrow> (server, octets option) steps" where
  "answer_listed_steps f parsed failure =
     (case parsed of ((object_type, instance_number, property_identifier), array_index) \<Rightarrow>
      sbind (read_special_steps f parsed failure) (\<lambda>special.
      case special of
        Some a \<Rightarrow> give (Some a)
      | None \<Rightarrow>
          sbind (note_read_steps SERVICE_READ_PROPERTY [(object_type, instance_number, [property_identifier])]) (\<lambda>_.
          sbind (look (\<lambda>s. server_value s object_type instance_number property_identifier)) (\<lambda>served.
          case served of
            None \<Rightarrow> answer_steps f (\<lambda>iid. error_pdu iid SERVICE_READ_PROPERTY ERROR_CLASS_PROPERTY
                      ERROR_CODE_UNKNOWN_PROPERTY)
          | Some v \<Rightarrow> answer_steps f (\<lambda>iid. read_property_ack iid object_type instance_number
                      property_identifier v)))))"

definition answer_read_steps :: "frame \<Rightarrow> string option \<Rightarrow> (server, octets option) steps" where
  "answer_read_steps f failure =
     sbind (Finished (parse_read_property_request_indexed (payload f))) (\<lambda>parsed.
     case parsed of
       None \<Rightarrow> device_steps f
     | Some request \<Rightarrow>
         sbind (look (\<lambda>s. case request of ((ot, i, _), _) \<Rightarrow> objects s (ot, i) \<noteq> None)) (\<lambda>listed.
         if listed then answer_listed_steps f request failure else device_steps f))"

definition note_write_steps :: "frame \<Rightarrow> bool \<Rightarrow> (server, write_request option) steps" where
  "note_write_steps f writes =
     (if writes then
        sbind (Finished (parse_write_property_request (payload f))) (\<lambda>request.
        sbind (case request of None \<Rightarrow> give ()
               | Some r \<Rightarrow> assign (\<lambda>s. s\<lparr>write_requests := write_requests s @ [r]\<rparr>)) (\<lambda>_.
        give request))
      else give None)"

definition mode_steps :: "frame \<Rightarrow> string option \<Rightarrow> (server, octets option) steps" where
  "mode_steps f failure =
     sbind (Finished (is_service f PDU_CONFIRMED_REQUEST SERVICE_WRITE_PROPERTY)) (\<lambda>writes.
     sbind (note_write_steps f writes) (\<lambda>request.
     sbind (Finished (is_service f PDU_CONFIRMED_REQUEST SERVICE_READ_PROPERTY)) (\<lambda>reads.
     sbind (Finished (is_service f PDU_CONFIRMED_REQUEST SERVICE_READ_PROPERTY_MULTIPLE)) (\<lambda>multiple.
     sbind (look mode) (\<lambda>m.
     if m = ''offline'' then
       sbind (if reads \<or> multiple \<or> writes
              then assign (\<lambda>s. s\<lparr>requests_while_offline := requests_while_offline s + 1\<rparr>) else give ()) (\<lambda>_.
       give None)
     else if writes then write_steps f request
     else if multiple then read_multiple_steps f
     else if reads then answer_read_steps f failure
     else device_steps f)))))"

definition server_answer_steps :: "frame \<Rightarrow> (server, octets option) steps" where
  "server_answer_steps f =
     sbind (failure_steps f) (\<lambda>failure.
     if failure = Some ''reject'' then answer_steps f (\<lambda>iid. reject_pdu iid REJECT_REASON_UNRECOGNIZED_SERVICE)
     else if failure = Some ''abort'' then
       answer_steps f (\<lambda>iid. abort_pdu iid ABORT_REASON_SEGMENTATION_NOT_SUPPORTED True)
     else if failure = Some ''silent'' then
       sbind (assign (\<lambda>s. s\<lparr>silent_requests := silent_requests s + 1\<rparr>)) (\<lambda>_. give None)
     else mode_steps f failure)"

text \<open>The body of the loop in \<open>_serve\<close>, from the datagram \<open>recvfrom\<close> returned to what \<open>_reply\<close> sends.\<close>

definition serve_steps ::
  "(frame \<Rightarrow> ('a device_scheme, octets option) steps) \<Rightarrow> octets \<Rightarrow> address \<Rightarrow> bool
    \<Rightarrow> ('a device_scheme, datagram list) steps" where
  "serve_steps answer data source on_broadcast =
     sbind (Finished (Frame (recvfrom 2048 data) source)) (\<lambda>f.
     sbind (assign (\<lambda>d. d\<lparr>received := received d @ [f]\<rparr>)) (\<lambda>_.
     sbind (if on_broadcast then assign (\<lambda>d. d\<lparr>received_on_broadcast := received_on_broadcast d @ [f]\<rparr>)
            else give ()) (\<lambda>_.
     if frame_ok f \<and> network_message f = None then
       sbind (answer f) (\<lambda>a.
       case a of None \<Rightarrow> give [] | Some apdu \<Rightarrow> sbind (Finished (reply f apdu)) (\<lambda>sent. give [sent]))
     else give [])))"

definition server_steps :: "octets \<Rightarrow> address \<Rightarrow> bool \<Rightarrow> (server, datagram list) steps" where
  "server_steps = serve_steps server_answer_steps"

section \<open>Without a pause\<close>

lemma run_winning [run_simps]: "run_steps (case vs of [] \<Rightarrow> p | v # w \<Rightarrow> q v) = (case vs of [] \<Rightarrow> run_steps p | v # w \<Rightarrow> run_steps (q v))"
  by (cases vs) simp_all

lemma ebind_eget: "ebind (eget g) f = (\<lambda>s. f (g s) s)"
  by (simp add: fun_eq_iff)

lemma ebind_eret: "ebind (eret x) f = f x"
  by (simp add: fun_eq_iff)

lemma run_failure [run_simps]: "run_steps (failure_steps f) = failure_of f"
  by (simp add: failure_steps_def failure_of_def run_simps fun_eq_iff ebind_eget)

lemma run_note_read [run_simps]: "run_steps (note_read_steps choice specs) = note_read choice specs"
  by (simp add: note_read_steps_def note_read_def run_simps)

lemma run_answer [run_simps]: "elift (rbind (answered_id f) (\<lambda>iid. rbind (encode iid) (\<lambda>a. Inr (Some a)))) = answer_with f encode"
  by (simp add: answer_with_def)

lemma run_read_special [run_simps]: "run_steps (read_special_steps f parsed failure) = read_special f parsed failure"
  by (cases parsed) (auto simp: read_special_steps_def read_special_def run_simps fun_eq_iff ebind_eget cong: if_cong split: option.splits)

lemma run_command [run_simps]: "run_steps (command_steps key r n) = command_slot key r n"
  by (simp only: command_steps_def command_slot_def run_simps Let_def)

lemma run_commit [run_simps]: "run_steps (commit_steps r c n) = commit_write r c n"
  by (simp add: commit_steps_def commit_write_def run_simps Let_def)

lemma run_ignored [run_simps]:
  "run_steps (ignored_steps r n (is_commanded r s)) s = (Inr (null_ignored r n s), s)"
  by (auto simp: ignored_steps_def null_ignored_def run_simps split: option.splits)

lemma run_refusal [run_simps]: "run_steps (refusal_steps r) s = (Inr (refusal_of r s), s)"
  by (simp add: refusal_steps_def refusal_of_def run_simps Let_def split: option.splits)

lemma run_write [run_simps]: "run_steps (write_steps f request) = write_property f request"
proof
  fix s
  show "run_steps (write_steps f request) s = write_property f request s"
  proof (cases request)
    case (Some r)
    then show ?thesis
    proof (cases "application_tag (wr_value_octets r)")
      case (Inr tag)
      with Some show ?thesis
        by (auto simp: write_steps_def write_property_def Let_def run_simps split: option.splits)
    qed (simp add: write_steps_def write_property_def run_simps Let_def)
  qed (simp add: write_steps_def write_property_def run_simps)
qed

lemma run_property_values: "run_steps (property_values ot i ps) s = (Inr (map (\<lambda>p. (p, server_value s ot i p)) ps), s)"
  by (induction ps) (simp_all add: run_simps)

lemma run_object_values:
  "run_steps (object_values specs) s = (Inr (map (\<lambda>((ot, i), ps). (ot, i, map (\<lambda>p. (p, server_value s ot i p)) ps)) specs), s)"
  by (induction specs) (auto simp: run_simps run_property_values split: prod.splits)

lemma run_read_multiple [run_simps]: "run_steps (read_multiple_steps f) = read_multiple f"
proof -
  have "run_steps (object_values specs) = eget (\<lambda>s. map (\<lambda>((ot, i), ps). (ot, i, map (\<lambda>p. (p, server_value s ot i p)) ps)) specs)" for specs
    by (simp add: fun_eq_iff run_object_values)
  then show ?thesis by (simp add: read_multiple_steps_def read_multiple_def run_simps)
qed

lemma run_device [run_simps]: "run_steps (device_steps f) = (\<lambda>s. (device_answer s f, s))"
  by (simp add: device_steps_def run_simps)

lemma run_answer_listed [run_simps]: "run_steps (answer_listed_steps f parsed failure) = answer_listed f parsed failure"
  by (cases parsed) (simp add: answer_listed_steps_def answer_listed_def run_simps cong: option.case_cong if_cong)

lemma run_answer_read [run_simps]: "run_steps (answer_read_steps f failure) = answer_read f failure"
  unfolding answer_read_steps_def answer_read_def run_simps
  by (rule arg_cong [where f = "ebind _"]) (auto simp: fun_eq_iff run_simps ebind_eget split: option.splits)

lemma run_note_write [run_simps]: "run_steps (note_write_steps f w) = note_write f w"
  by (simp add: note_write_steps_def note_write_def run_simps cong: option.case_cong if_cong)

lemma run_mode [run_simps]: "run_steps (mode_steps f failure) = answer_by_mode f failure"
  by (simp add: mode_steps_def answer_by_mode_def run_simps cong: option.case_cong if_cong)

lemma run_server_answer: "run_steps (server_answer_steps f) = server_answer f"
  by (simp add: server_answer_steps_def server_answer_def run_simps cong: option.case_cong if_cong)

lemma run_serve:
  assumes "\<And>f. run_steps (answer_s f) = answer f"
  shows "run_steps (serve_steps answer_s data source b) = serve_one answer data source b"
  by (auto simp: serve_steps_def serve_one_def run_simps assms fun_eq_iff ebind_lift split: sum.splits)

theorem server_steps_run: "run_steps (server_steps data source b) = server_serve data source b"
  unfolding server_steps_def server_serve_def by (rule run_serve) (rule run_server_answer)

text \<open>The plain device's loop body.\<close>

definition device_serve_steps :: "octets \<Rightarrow> address \<Rightarrow> bool \<Rightarrow> ('a device_scheme, datagram list) steps" where
  "device_serve_steps = serve_steps device_steps"

theorem device_steps_run: "run_steps (device_serve_steps data source b) = device_serve data source b"
  unfolding device_serve_steps_def device_serve_def by (rule run_serve) (rule run_device)

end
