(* ===== verification/Stepwise_Serving.thy ===== *)
theory Stepwise_Serving
  imports Server_Steps Serial_History
begin

text \<open>
  The serving thread of \<^verbatim>\<open>src/wiretest/peer.py\<close> when it answers a datagram one access at a
  time: the machine of \<open>Serving\<close> with, in addition, the datagram in hand and what is left to do for
  it. Arrivals, the test's settings and \<open>stop()\<close> may come between any two accesses. The machine of
  \<open>Serving\<close>, where a datagram is one turn, is what this one does as long as no setting comes while it
  would make a difference to the datagram in hand; and what happens otherwise is here as well.
\<close>

section \<open>The machine\<close>

record 's working =
  base :: "'s peer"
  in_hand :: "('s, datagram list) steps option"

definition started_working :: "'s \<Rightarrow> bool \<Rightarrow> 's working" where
  "started_working self hears_broadcasts = \<lparr>base = started self hears_broadcasts, in_hand = None\<rparr>"

text \<open>The datagram the next \<open>recvfrom\<close> returns, and the Peer when it has been taken from its socket.\<close>

definition next_datagram :: "'s peer \<Rightarrow> (bool \<times> octets \<times> address) option" where
  "next_datagram p = (case thread p of
     Receiving (b # bs) \<Rightarrow> (case sock_of b p of
       Some k \<Rightarrow> if \<not> sk_open k then None
         else (case sk_queue k of Datagram data source # rest \<Rightarrow> Some (b, data, source) | _ \<Rightarrow> None)
     | None \<Rightarrow> None)
   | _ \<Rightarrow> None)"

definition take_datagram :: "bool \<Rightarrow> 's peer \<Rightarrow> 's peer" where
  "take_datagram b p = (case sock_of b p of
     None \<Rightarrow> p
   | Some k \<Rightarrow> (set_sock b (k\<lparr>sk_queue := tl (sk_queue k)\<rparr>) p)\<lparr>thread := Receiving (tl (pending_socks (thread p)))\<rparr>)"

text \<open>Where the thread goes when the datagram is done with: to the sends, or out of the loop.\<close>

fun answered_thread :: "datagram list result \<Rightarrow> bool list \<Rightarrow> thread" where
  "answered_thread (Inl e) bs = Raised e"
| "answered_thread (Inr sends) bs = Sending sends bs"

definition after_answer :: "datagram list result \<Rightarrow> 's peer \<Rightarrow> 's peer" where
  "after_answer r p = p\<lparr>thread := answered_thread r (pending_socks (thread p))\<rparr>"

text \<open>One turn: one access for the datagram in hand, or else a turn of the loop.\<close>

type_synonym 's step_handler = "octets \<Rightarrow> address \<Rightarrow> bool \<Rightarrow> ('s, datagram list) steps"

definition working_turn :: "'s step_handler \<Rightarrow> 's working \<Rightarrow> 's working" where
  "working_turn steps w =
     (case in_hand w of
        Some (Step m) \<Rightarrow> (case m (peer_self (base w)) of (rest, self) \<Rightarrow>
          \<lparr>base = (base w)\<lparr>peer_self := self\<rparr>, in_hand = Some rest\<rparr>)
      | Some (Finished r) \<Rightarrow> \<lparr>base = after_answer r (base w), in_hand = None\<rparr>
      | None \<Rightarrow> (case next_datagram (base w) of
          Some (b, data, source) \<Rightarrow> \<lparr>base = take_datagram b (base w), in_hand = Some (steps data source b)\<rparr>
        | None \<Rightarrow> w\<lparr>base := thread_turn (\<lambda>data source b. eret []) (base w)\<rparr>))"

fun working_event :: "'s step_handler \<Rightarrow> ('c \<Rightarrow> 's \<Rightarrow> 's) \<Rightarrow> 'c event \<Rightarrow> 's working \<Rightarrow> 's working option" where
  "working_event steps change Thread_turn w = (if ended (thread (base w)) then None else Some (working_turn steps w))"
| "working_event steps change Stop_turn w =
     (if caller (base w) = Stopped then None else Some (w\<lparr>base := stop_turn (base w)\<rparr>))"
| "working_event steps change (Arrives b a) w = map_option (\<lambda>p. w\<lparr>base := p\<rparr>) (arrives b a (base w))"
| "working_event steps change (Changes c) w =
     Some (w\<lparr>base := (base w)\<lparr>peer_self := change c (peer_self (base w))\<rparr>\<rparr>)"

inductive working_run :: "'s step_handler \<Rightarrow> ('c \<Rightarrow> 's \<Rightarrow> 's) \<Rightarrow> 's working \<Rightarrow> 'c event list \<Rightarrow> 's working \<Rightarrow> bool"
  for steps change w where
  Begin: "working_run steps change w [] w"
| Next: "working_run steps change w evs v \<Longrightarrow> working_event steps change ev v = Some v' \<Longrightarrow>
    working_run steps change w (evs @ [ev]) v'"

text \<open>
  A setting does not disturb the datagram in hand if what is left to do for it does the same before
  and after the setting. In a settled run no setting disturbs.
\<close>

definition undisturbed :: "('c \<Rightarrow> 's \<Rightarrow> 's) \<Rightarrow> 'c \<Rightarrow> 's working \<Rightarrow> bool" where
  "undisturbed change c w \<longleftrightarrow> (case in_hand w of
     None \<Rightarrow> True
   | Some rest \<Rightarrow> run_steps rest (change c (peer_self (base w))) =
       map_prod id (change c) (run_steps rest (peer_self (base w))))"

inductive settled_run :: "'s step_handler \<Rightarrow> ('c \<Rightarrow> 's \<Rightarrow> 's) \<Rightarrow> 's working \<Rightarrow> 'c event list \<Rightarrow> 's working \<Rightarrow> bool"
  for steps change w where
  Begin: "settled_run steps change w [] w"
| Next: "settled_run steps change w evs v \<Longrightarrow> working_event steps change ev v = Some v' \<Longrightarrow>
    (\<And>c. ev = Changes c \<Longrightarrow> undisturbed change c v) \<Longrightarrow> settled_run steps change w (evs @ [ev]) v'"

lemma settled_run_run: "settled_run steps change w evs v \<Longrightarrow> working_run steps change w evs v"
  by (induction rule: settled_run.induct) (auto intro: working_run.intros)

lemma settled_run_quiet:
  assumes "working_run steps change w evs v" "settings_in evs = []"
  shows "settled_run steps change w evs v"
  using assms by (induction rule: working_run.induct) (auto intro!: settled_run.intros)

lemma settled_run_change:
  "undisturbed change c w \<Longrightarrow> settled_run steps change w [Changes c] (w\<lparr>base := (base w)\<lparr>peer_self := change c (peer_self (base w))\<rparr>\<rparr>)"
  using settled_run.Next [where evs = "[]" and ev = "Changes c", OF settled_run.Begin] by simp

lemma settled_run_append:
  "settled_run steps change v evs' u \<Longrightarrow> settled_run steps change w evs v \<Longrightarrow> settled_run steps change w (evs @ evs') u"
  by (induction rule: settled_run.induct) (auto simp flip: append_assoc intro: settled_run.Next)

text \<open>Runs can be computed.\<close>

fun run_working :: "'s step_handler \<Rightarrow> ('c \<Rightarrow> 's \<Rightarrow> 's) \<Rightarrow> 'c event list \<Rightarrow> 's working \<Rightarrow> 's working option" where
  "run_working steps change [] w = Some w"
| "run_working steps change (ev # evs) w = Option.bind (working_event steps change ev w) (run_working steps change evs)"

lemma working_run_append:
  "working_run steps change v evs' u \<Longrightarrow> working_run steps change w evs v \<Longrightarrow> working_run steps change w (evs @ evs') u"
  by (induction rule: working_run.induct) (auto simp flip: append_assoc intro: working_run.Next)

lemma run_working_run: "run_working steps change evs w = Some v \<Longrightarrow> working_run steps change w evs v"
proof (induction evs arbitrary: w)
  case (Cons ev evs)
  then obtain w' where "working_event steps change ev w = Some w'" "working_run steps change w' evs v"
    by (auto simp: bind_eq_Some_conv)
  with working_run_append [of steps change w' evs v w "[ev]"] working_run.Next [OF working_run.Begin] show ?case by fastforce
qed (simp add: working_run.Begin)

section \<open>A datagram as one turn\<close>

text \<open>The Peer as it will be when the datagram in hand is done with and nothing else has happened.\<close>

definition completed :: "'s working \<Rightarrow> 's peer" where
  "completed w = (case in_hand w of
     None \<Rightarrow> base w
   | Some rest \<Rightarrow> (case run_steps rest (peer_self (base w)) of (r, self) \<Rightarrow> after_answer r ((base w)\<lparr>peer_self := self\<rparr>)))"

lemma completed_None [simp]: "in_hand w = None \<Longrightarrow> completed w = base w"
  by (simp add: completed_def)

lemma after_answer_fields [simp]:
  "own_sock (after_answer r p) = own_sock p" "broadcast_sock (after_answer r p) = broadcast_sock p"
  "running (after_answer r p) = running p" "caller (after_answer r p) = caller p"
  "put_out (after_answer r p) = put_out p" "peer_self (after_answer r p) = peer_self p"
  by (simp_all add: after_answer_def)

lemma completed_fields [simp]:
  "own_sock (completed w) = own_sock (base w)" "broadcast_sock (completed w) = broadcast_sock (base w)"
  "running (completed w) = running (base w)" "caller (completed w) = caller (base w)" "put_out (completed w) = put_out (base w)"
  by (simp_all add: completed_def split: option.splits prod.splits)

lemma sock_of_completed [simp]: "sock_of b (completed w) = sock_of b (base w)" "queue_of b (completed w) = queue_of b (base w)"
  by (simp_all add: sock_of_def queue_of_def)

lemma loop_turn: "next_datagram p = None \<Longrightarrow> thread_turn serve p = thread_turn serve' p"
  by (auto simp: next_datagram_def thread_turn_def receive_turn_def split: thread.splits list.splits option.splits
      arrival.splits if_splits)

lemma next_datagramE:
  assumes "next_datagram p = Some (b, data, source)"
  obtains bs k rest where "thread p = Receiving (b # bs)" "sock_of b p = Some k" "sk_open k" "sk_queue k = Datagram data source # rest"
  using assms by (auto simp: next_datagram_def split: thread.splits list.splits option.splits arrival.splits if_splits)

lemma datagram_turn:
  assumes "next_datagram p = Some (b, data, source)" "serve data source b (peer_self p) = (r, self)"
  shows "thread_turn serve p = after_answer r ((take_datagram b p)\<lparr>peer_self := self\<rparr>)"
  using assms(1)
  by (rule next_datagramE)
    (use assms(2) in \<open>simp add: thread_turn_def receive_turn_def take_datagram_def after_answer_def Let_def split: sum.splits\<close>)

lemma take_datagram_self [simp]: "peer_self (take_datagram b p) = peer_self p"
  by (simp add: take_datagram_def split: option.splits)

lemma working_turn_completes:
  assumes "\<And>data source b. run_steps (steps data source b) = serve data source b"
  shows "completed (working_turn steps w) = (if in_hand w = None then thread_turn serve (base w) else completed w)"
proof (cases "in_hand w")
  case None
  show ?thesis
  proof (cases "next_datagram (base w)")
    case None
    with \<open>in_hand w = None\<close> loop_turn [OF None, of _ serve] show ?thesis by (simp add: working_turn_def completed_def)
  next
    case (Some d)
    then obtain b data source where d: "next_datagram (base w) = Some (b, data, source)" by (cases d) auto
    obtain r self where "serve data source b (peer_self (base w)) = (r, self)" by (metis surj_pair)
    with datagram_turn [of "base w" b data source serve, OF d this] d None assms show ?thesis
      by (simp add: working_turn_def completed_def)
  qed
next
  case (Some rest)
  then show ?thesis
    by (cases rest) (auto simp: working_turn_def completed_def run_steps.simps after_answer_def split: prod.splits)
qed

lemma completed_stop: "completed (w\<lparr>base := stop_turn (base w)\<rparr>) = stop_turn (completed w)"
  by (auto simp: completed_def stop_turn_def after_answer_def split: option.splits prod.splits caller.splits)

lemma completed_arrives:
  "arrives b a (base w) = Some p \<Longrightarrow> arrives b a (completed w) = Some (completed (w\<lparr>base := p\<rparr>))"
  by (auto simp: arrives_def completed_def sock_of_def set_sock_def after_answer_def split: option.splits prod.splits if_splits)

lemma completed_changes:
  "undisturbed change c w \<Longrightarrow> completed (w\<lparr>base := (base w)\<lparr>peer_self := change c (peer_self (base w))\<rparr>\<rparr>) =
    (completed w)\<lparr>peer_self := change c (peer_self (completed w))\<rparr>"
  by (auto simp: completed_def undisturbed_def after_answer_def split: option.splits prod.splits)

text \<open>Each event of a settled run is an event of the machine of \<open>Serving\<close> or makes no difference there.\<close>

lemma working_event_simulated:
  assumes "\<And>data source b. run_steps (steps data source b) = serve data source b"
    and "working_event steps change ev w = Some v" "\<And>c. ev = Changes c \<Longrightarrow> undisturbed change c w"
  shows "peer_event serve change ev (completed w) = Some (completed v) \<or> ev = Thread_turn \<and> completed v = completed w"
proof (cases ev)
  case Thread_turn
  with assms(2) show ?thesis by (auto simp: working_turn_completes [of steps serve, OF assms(1)] split: if_splits)
next
  case Stop_turn
  with assms(2) show ?thesis by (auto simp: completed_stop split: if_splits)
next
  case (Arrives b a)
  with assms(2) show ?thesis by (auto simp: completed_arrives)
next
  case (Changes c)
  with assms(2,3) show ?thesis by (auto simp: completed_changes)
qed

lemma settled_run_simulated:
  assumes "settled_run steps change w evs v" and "\<And>data source b. run_steps (steps data source b) = serve data source b"
  shows "\<exists>coarse. peer_run serve change (completed w) coarse (completed v) \<and>
    arrivals_of coarse = arrivals_of evs \<and> settings_in coarse = settings_in evs"
  using assms(1)
proof (induction rule: settled_run.induct)
  case Begin
  show ?case by (intro exI [of _ "[]"]) (simp add: peer_run.Begin)
next
  case (Next evs v ev v')
  from Next.IH obtain coarse where c: "peer_run serve change (completed w) coarse (completed v)"
    "arrivals_of coarse = arrivals_of evs" "settings_in coarse = settings_in evs" by blast
  from working_event_simulated [OF assms(2) Next.hyps(2,3)] show ?case
  proof
    assume "peer_event serve change ev (completed v) = Some (completed v')"
    from peer_run.Next [OF c(1) this] c(2,3) show ?thesis by (intro exI [of _ "coarse @ [ev]"]) simp
  next
    assume "ev = Thread_turn \<and> completed v' = completed v"
    with c show ?thesis by (intro exI [of _ coarse]) simp
  qed
qed

section \<open>Stopping in the middle of a datagram\<close>

lemma peer_self_same: "peer_self p = s \<Longrightarrow> p\<lparr>peer_self := s\<rparr> = p"
  by (cases p) auto

lemma after_answer_ok: "peer_ok p \<Longrightarrow> peer_ok (after_answer r p)"
  unfolding after_answer_def by (rule peer_ok_thread) (cases r; simp add: peer_ok_def)+

lemma take_datagram_ok:
  assumes "peer_ok p" "next_datagram p = Some (b, data, source)"
  shows "peer_ok (take_datagram b p)"
proof -
  have "peer_ok (thread_turn (\<lambda>data source b. eret []) p)" by (rule thread_turn_ok [OF assms(1)])
  moreover have "(take_datagram b p)\<lparr>peer_self := peer_self p\<rparr> = take_datagram b p"
    by (rule peer_self_same) simp
  ultimately have "peer_ok ((take_datagram b p)\<lparr>thread := Sending [] (pending_socks (thread (take_datagram b p)))\<rparr>)"
    using datagram_turn [OF assms(2), of "\<lambda>data source b. eret []"] by (simp add: after_answer_def del: peer.update_convs)
  then have "peer_ok ((take_datagram b p)\<lparr>thread := Receiving (pending_socks (thread (take_datagram b p)))\<rparr>)"
    by (simp add: peer_ok_def split: option.splits)
  moreover have "thread (take_datagram b p) = Receiving (pending_socks (thread (take_datagram b p)))"
    using assms(2) by (rule next_datagramE) (simp add: take_datagram_def)
  ultimately show ?thesis by simp
qed

lemma working_turn_ok: "peer_ok (base w) \<Longrightarrow> peer_ok (base (working_turn steps w))"
  by (auto simp: working_turn_def after_answer_ok thread_turn_ok take_datagram_ok split: option.splits steps.splits prod.splits)

lemma working_event_ok:
  assumes "peer_ok (base w)" "working_event steps change ev w = Some v"
  shows "peer_ok (base v)"
  using assms by (cases ev) (auto simp: working_turn_ok stop_turn_ok arrives_ok split: if_splits)

lemma working_run_ok:
  assumes "working_run steps change w evs v" "peer_ok (base w)"
  shows "peer_ok (base v)"
  using assms by (induction rule: working_run.induct) (auto intro: working_event_ok)

text \<open>
  What the events do to the object alone, given what is left to do for the datagram in hand: the
  test's settings are made, and a turn of the thread is the next access.
\<close>

fun resume :: "('c \<Rightarrow> 's \<Rightarrow> 's) \<Rightarrow> 'c event \<Rightarrow> ('s, datagram list) steps option \<times> 's \<Rightarrow> ('s, datagram list) steps option \<times> 's" where
  "resume change (Changes c) (hand, self) = (hand, change c self)"
| "resume change Thread_turn (Some (Step m), self) = (case m self of (rest, self') \<Rightarrow> (Some rest, self'))"
| "resume change Thread_turn (Some (Finished r), self) = (None, self)"
| "resume change ev (hand, self) = (hand, self)"

lemma resume_idle [simp]: "fold (resume change) evs (None, self) = (None, changes change evs self)"
proof (induction evs arbitrary: self)
  case (Cons ev evs)
  then show ?case by (cases ev) (simp_all add: changes_def)
qed (simp add: changes_def)

text \<open>With the sockets closed, a turn sends nothing and takes nothing.\<close>

lemma closed_next_datagram: "all_closed p \<Longrightarrow> next_datagram p = None"
  by (auto simp: all_closed_def peer_ok_def next_datagram_def sock_of_def split: thread.splits list.splits option.splits)

lemma closed_queue:
  assumes "all_closed p"
  shows "queue_of b (thread_turn serve p) = queue_of b p"
  using assms
  by (auto simp: all_closed_def peer_ok_def thread_turn_def receive_turn_def sock_of_def
      split: thread.splits option.splits list.splits if_splits)

lemma working_event_closed:
  assumes "all_closed (base w)" "working_event steps change ev w = Some v"
  shows "all_closed (base v) \<and> put_out (base v) = put_out (base w) \<and> queue_of b (base v) = queue_of b (base w) \<and>
    (in_hand v, peer_self (base v)) = resume change ev (in_hand w, peer_self (base w))"
proof -
  have ok: "peer_ok (base v)" using working_event_ok [OF _ assms(2)] assms(1) by (simp add: all_closed_def)
  show ?thesis
  proof (cases ev)
    case Thread_turn
    with assms(2) have v: "v = working_turn steps w" by (simp split: if_splits)
    show ?thesis
    proof (cases "in_hand w")
      case None
      with v ok Thread_turn assms(1) closed_turn [OF assms(1), of "\<lambda>data source b. eret []"] show ?thesis
        by (simp add: working_turn_def closed_next_datagram closed_queue all_closed_def)
    next
      case (Some rest)
      with v ok Thread_turn assms(1) show ?thesis
        by (cases rest) (auto simp: working_turn_def all_closed_def after_answer_def split: prod.splits)
    qed
  next
    case (Arrives c a)
    with assms show ?thesis
      by (auto simp: all_closed_def peer_ok_def arrives_def sock_of_def split: option.splits if_splits)
  qed (use assms ok in \<open>auto simp: all_closed_def\<close>)
qed

lemma working_run_closed:
  assumes "working_run steps change w evs v" "all_closed (base w)"
  shows "all_closed (base v) \<and> put_out (base v) = put_out (base w) \<and> (\<forall>b. queue_of b (base v) = queue_of b (base w)) \<and>
    (in_hand v, peer_self (base v)) = fold (resume change) evs (in_hand w, peer_self (base w))"
  using assms
proof (induction rule: working_run.induct)
  case (Next evs v ev v')
  then have "all_closed (base v)" by blast
  from working_event_closed [OF this Next.hyps(2)] Next show ?case by simp
qed simp

section \<open>Claims\<close>

text \<open>C29: A run of a server is serializable if its settings are. However arrivals on both sockets, the
  accesses of the thread to the object and the settings of the test are interleaved before \<open>stop()\<close>: as
  long as every setting is made while no datagram is in hand, or while what is left to do for it does
  the same before and after the setting, there is one sequence of datagrams served and settings made
  that explains the run. On each socket what was served is what was taken, in order; the settings are
  those the test made, in order; done one at a time, each datagram in one piece, they give the state the
  server has and the datagrams it has sent or is about to send, once the datagram in hand is done with.
  Running on only adds to the end of the sequence.\<close>
theorem peer_run_serializable:
  assumes "settled_run server_steps server_change (started_working s hears_broadcasts) evs w"
    and "settled_run server_steps server_change w evs' v" "caller (base v) = Testing"
  shows "\<exists>h h'. serial server_serve server_change s evs (completed w) h \<and>
    serial server_serve server_change s (evs @ evs') (completed v) (h @ h')"
proof -
  from settled_run_simulated [OF assms(1) server_steps_run] obtain es where
    es: "peer_run server_serve server_change (started s hears_broadcasts) es (completed w)"
      "arrivals_of es = arrivals_of evs" "settings_in es = settings_in evs"
    by (auto simp: started_working_def completed_def)
  from settled_run_simulated [OF assms(2) server_steps_run] obtain es' where
    es': "peer_run server_serve server_change (completed w) es' (completed v)"
      "arrivals_of es' = arrivals_of evs'" "settings_in es' = settings_in evs'" by blast
  have v: "caller (completed v) = Testing" using assms(3) by simp
  from serial_runs [OF es(1) es'(1) v] obtain h h' where
    "serial server_serve server_change s es (completed w) h"
    "serial server_serve server_change s (es @ es') (completed v) (h @ h')" by blast
  with es(2,3) es'(2,3) show ?thesis unfolding serial_def by (intro exI [of _ h] exI [of _ h']) simp
qed

text \<open>The server goes offline while its answer to a Who-Is is ready; the next Who-Is stays unanswered.\<close>

definition until_answered :: "setting event list" where
  "until_answered = Arrives False (Datagram example_who_is ([49], 47808)) # replicate 6 Thread_turn"

definition when_offline :: "setting event list" where
  "when_offline = Arrives False (Datagram example_who_is ([49], 47808)) # replicate 9 Thread_turn"

definition answered_server :: "server working" where
  "answered_server = the (run_working server_steps server_change until_answered (started_working example_server False))"

definition set_offline :: "server working" where
  "set_offline = answered_server\<lparr>base := (base answered_server)\<lparr>peer_self := server_change (Mode ''offline'') (peer_self (base answered_server))\<rparr>\<rparr>"

definition offline_server :: "server working" where
  "offline_server = the (run_working server_steps server_change when_offline set_offline)"

lemma answered_runs:
  "settled_run server_steps server_change (started_working example_server False) until_answered answered_server"
  "settled_run server_steps server_change answered_server (Changes (Mode ''offline'') # when_offline) offline_server"
proof -
  have "run_working server_steps server_change until_answered (started_working example_server False) \<noteq> None"
    "run_working server_steps server_change when_offline set_offline \<noteq> None" by code_simp+
  then have runs: "working_run server_steps server_change (started_working example_server False) until_answered answered_server"
    "working_run server_steps server_change set_offline when_offline offline_server"
    unfolding answered_server_def offline_server_def by (metis option.exhaust_sel run_working_run)+
  have s: "settings_in until_answered = []" "settings_in when_offline = []" by code_simp+
  from settled_run_quiet [OF runs(1) s(1)]
  show "settled_run server_steps server_change (started_working example_server False) until_answered answered_server" .
  have "(case in_hand answered_server of Some (Finished r) \<Rightarrow> True | _ \<Rightarrow> False)" by code_simp
  then have "undisturbed server_change (Mode ''offline'') answered_server"
    by (auto simp: undisturbed_def run_steps.simps split: option.splits steps.splits)
  then have "settled_run server_steps server_change answered_server [Changes (Mode ''offline'')] set_offline"
    unfolding set_offline_def by (rule settled_run_change)
  from settled_run_append [OF settled_run_quiet [OF runs(2) s(2)] this]
  show "settled_run server_steps server_change answered_server (Changes (Mode ''offline'') # when_offline) offline_server" by simp
qed

theorem peer_run_serializable_witness:
  "\<exists>h h'. settings_of h = [] \<and> on_sock False (served_of h) = [Datagram example_who_is ([49], 47808)] \<and>
    settings_of (h @ h') = [Mode ''offline''] \<and> on_sock False (served_of (h @ h')) = replicate 2 (Datagram example_who_is ([49], 47808)) \<and>
    fold (perform server_serve server_change) (h @ h') ([], example_server) = (put_out (base offline_server), peer_self (base offline_server)) \<and>
    length (put_out (base offline_server)) = 1"
proof -
  have ends: "caller (base offline_server) = Testing" "in_hand offline_server = None" "queue_of False (base answered_server) = []"
    "queue_of False (base offline_server) = []" "pending_sends (thread (base offline_server)) = []"
    "length (put_out (base offline_server)) = 1" by code_simp+
  let ?evs = "until_answered @ Changes (Mode ''offline'') # when_offline"
  have evs: "on_sock False (arrivals_of until_answered) = [Datagram example_who_is ([49], 47808)]" "settings_in until_answered = []"
    "on_sock False (arrivals_of ?evs) = replicate 2 (Datagram example_who_is ([49], 47808))"
    "settings_in ?evs = [Mode ''offline'']" by code_simp+
  from peer_run_serializable [OF answered_runs ends(1)] obtain h h' where
    "serial server_serve server_change example_server until_answered (completed answered_server) h"
    "serial server_serve server_change example_server ?evs (completed offline_server) (h @ h')" by blast
  with ends evs show ?thesis
    unfolding serial_def by (intro exI [of _ h] exI [of _ h']) (simp only: append_Nil2 simp_thms completed_None sock_of_completed)
qed

text \<open>
  That no setting disturbs cannot be left out. A server that refuses writes, with a scripted Reject
  for the object, gets a write; the test sets it online when the handler has looked for failures and
  not yet for the mode. The write is accepted and stored: in either order of the two it would not be.
\<close>

definition writing_server :: server where
  "writing_server = example_server\<lparr>mode := ''refusing'', failures := [((1, 1), ''reject'')]\<rparr>"

definition description_datagram :: octets where
  "description_datagram = projr (rbind (write_property_request 7 1 1 28 [0x72, 0, 66] None None)
     (\<lambda>apdu. rbind (npdu apdu npdu_defaults) (\<lambda>n. bvlc n False)))"

definition disturbed_events :: "setting event list" where
  "disturbed_events = Arrives False (Datagram description_datagram ([49], 47808)) # replicate 5 Thread_turn @
     Changes (Mode ''online'') # replicate 11 Thread_turn"

definition disturbed_server :: "server working" where
  "disturbed_server = the (run_working server_steps server_change disturbed_events (started_working writing_server False))"

lemma only_effects:
  assumes "served_of h = [(b, a)]" "settings_of h = [c]"
  shows "h = [Served b a, Set_to c] \<or> h = [Set_to c, Served b a]"
proof -
  have served: "served_of (e # h) = (case e of Served b a \<Rightarrow> (b, a) # served_of h | Set_to c \<Rightarrow> served_of h)"
    "settings_of (e # h) = (case e of Served b a \<Rightarrow> settings_of h | Set_to c \<Rightarrow> c # settings_of h)" for e :: "'a effect" and h
    by (simp_all add: served_of_def settings_of_def map_filter_simps split: effect.splits)
  have none: "h = []" if "served_of h = []" "settings_of h = []" for h :: "'a effect list"
    using that by (cases h) (auto simp: served split: effect.splits)
  have one: "h = [Set_to c]" if "served_of h = []" "settings_of h = [c]" for h :: "'a effect list" and c
    using that none by (cases h) (auto simp: served split: effect.splits)
  have other: "h = [Served b a]" if "served_of h = [(b, a)]" "settings_of h = []" for h :: "'a effect list"
    using that none by (cases h) (auto simp: served split: effect.splits)
  show ?thesis
    using assms one other by (cases h) (auto simp: served split: effect.splits)
qed

lemma on_sock_only: "on_sock False tr = [a] \<Longrightarrow> on_sock True tr = [] \<Longrightarrow> tr = [(False, a)]"
proof (induction tr)
  case (Cons x tr)
  moreover have "on_sock c (x # tr) = on_sock c [x] @ on_sock c tr" for c
    by (simp add: on_sock_def)
  moreover have "tr = []" if "on_sock False tr = []" "on_sock True tr = []"
    using that by (cases tr) (auto simp: on_sock_def split: if_splits)
  ultimately show ?case by (cases x) (auto split: if_splits)
qed (simp add: on_sock_def)

theorem disturbed_run_not_serializable:
  "working_run server_steps server_change (started_working writing_server False) disturbed_events disturbed_server \<and>
    server_value (peer_self (base disturbed_server)) 1 1 28 = Some [0x72, 0, 66] \<and>
    \<not> (\<exists>h. serial server_serve server_change writing_server disturbed_events (completed disturbed_server) h)"
proof (intro conjI)
  let ?d = "Served False (Datagram description_datagram ([49], 47808))" and ?c = "Set_to (Mode ''online'')"
  let ?done = "fold (perform server_serve server_change)"
  have "run_working server_steps server_change disturbed_events (started_working writing_server False) \<noteq> None" by code_simp
  then show "working_run server_steps server_change (started_working writing_server False) disturbed_events disturbed_server"
    unfolding disturbed_server_def by (metis option.exhaust_sel run_working_run)
  show v: "server_value (peer_self (base disturbed_server)) 1 1 28 = Some [0x72, 0, 66]" by code_simp
  have "Option.is_none (in_hand disturbed_server)" by code_simp
  then have hand: "in_hand disturbed_server = None" by (simp add: Option.is_none_def)
  have evs: "on_sock False (arrivals_of disturbed_events) = [Datagram description_datagram ([49], 47808)]"
    "on_sock True (arrivals_of disturbed_events) = []" "settings_in disturbed_events = [Mode ''online'']"
    "queue_of False (base disturbed_server) = []" "queue_of True (base disturbed_server) = []" by code_simp+
  have orders: "server_value (snd (?done [?d, ?c] ([], writing_server))) 1 1 28 \<noteq> Some [0x72, 0, 66]"
    "server_value (snd (?done [?c, ?d] ([], writing_server))) 1 1 28 \<noteq> Some [0x72, 0, 66]" by code_simp+
  show "\<not> (\<exists>h. serial server_serve server_change writing_server disturbed_events (completed disturbed_server) h)"
  proof
    assume "\<exists>h. serial server_serve server_change writing_server disturbed_events (completed disturbed_server) h"
    then obtain h where h: "on_sock b (arrivals_of disturbed_events) = on_sock b (served_of h) @ queue_of b (base disturbed_server)"
      "settings_of h = settings_in disturbed_events" "snd (?done h ([], writing_server)) = peer_self (base disturbed_server)" for b
      using hand unfolding serial_def by auto
    from h(1) [of False] h(1) [of True] evs have "served_of h = [(False, Datagram description_datagram ([49], 47808))]"
      by (intro on_sock_only) simp_all
    from only_effects [OF this] h(2,3) evs(3) orders v show False by auto
  qed
qed

text \<open>C30: When \<open>stop()\<close> has returned, no Peer sends anything any more and takes nothing more from its
  sockets, wherever its thread was when the join timed out. Its state changes only by what the test sets
  and by what was left to do for the datagram then in hand; if none was in hand, only by what the test
  sets.\<close>
theorem stopped_peer_silent:
  assumes "working_run steps change (started_working s hears_broadcasts) evs w" and "caller (base w) = Stopped"
    and "working_run steps change w evs' v"
  shows "put_out (base v) = put_out (base w) \<and> (\<forall>b. queue_of b (base v) = queue_of b (base w)) \<and>
    (in_hand v, peer_self (base v)) = fold (resume change) evs' (in_hand w, peer_self (base w)) \<and>
    (in_hand w = None \<longrightarrow> peer_self (base v) = changes change evs' (peer_self (base w)))"
proof -
  have "peer_ok (base (started_working s hears_broadcasts))" by (simp add: started_working_def peer_ok_started)
  from working_run_ok [OF assms(1) this] assms(2) have "all_closed (base w)" by (simp add: all_closed_def)
  from working_run_closed [OF assms(3) this] have closed: "put_out (base v) = put_out (base w)"
    "\<forall>b. queue_of b (base v) = queue_of b (base w)"
    "(in_hand v, peer_self (base v)) = fold (resume change) evs' (in_hand w, peer_self (base w))" by blast+
  moreover have "peer_self (base v) = changes change evs' (peer_self (base w))" if "in_hand w = None"
    using closed(3) that by simp
  ultimately show ?thesis by blast
qed

text \<open>A write is in hand while \<open>stop()\<close> runs: it is stored after \<open>stop()\<close> has returned, and not answered.\<close>

definition stopped_in_write :: "server working" where
  "stopped_in_write = the (run_working server_steps server_change
     (Arrives False (Datagram description_datagram ([49], 47808)) # replicate 4 Thread_turn @ replicate 3 Stop_turn)
     (started_working example_server False))"

definition written_when_stopped :: "server working" where
  "written_when_stopped = the (run_working server_steps server_change (replicate 13 Thread_turn) stopped_in_write)"

theorem stopped_peer_silent_witness:
  "caller (base stopped_in_write) = Stopped \<and>
    server_value (peer_self (base stopped_in_write)) 1 1 28 = Some [0x72, 0, 65] \<and>
    server_value (peer_self (base written_when_stopped)) 1 1 28 = Some [0x72, 0, 66] \<and>
    put_out (base written_when_stopped) = [] \<and> ended (thread (base written_when_stopped))"
proof -
  have "run_working server_steps server_change
      (Arrives False (Datagram description_datagram ([49], 47808)) # replicate 4 Thread_turn @ replicate 3 Stop_turn)
      (started_working example_server False) \<noteq> None"
    "run_working server_steps server_change (replicate 13 Thread_turn) stopped_in_write \<noteq> None" by code_simp+
  then have runs: "working_run server_steps server_change (started_working example_server False)
      (Arrives False (Datagram description_datagram ([49], 47808)) # replicate 4 Thread_turn @ replicate 3 Stop_turn) stopped_in_write"
    "working_run server_steps server_change stopped_in_write (replicate 13 Thread_turn) written_when_stopped"
    unfolding stopped_in_write_def written_when_stopped_def by (metis option.exhaust_sel run_working_run)+
  have s: "caller (base stopped_in_write) = Stopped" "put_out (base stopped_in_write) = []"
    "server_value (peer_self (base stopped_in_write)) 1 1 28 = Some [0x72, 0, 65]"
    "server_value (peer_self (base written_when_stopped)) 1 1 28 = Some [0x72, 0, 66]"
    "ended (thread (base written_when_stopped))" by code_simp+
  from stopped_peer_silent [OF runs(1) s(1) runs(2)] s show ?thesis by simp
qed

end
