(* ===== verification/Limits.thy ===== *)
theory Limits
  imports Codec_Decode
begin

text \<open>
  How long a value may be before the length field of its tag overflows. \<open>application_bit_string\<close>
  writes the length of its body into the three low bits of the tag, whatever it is.
\<close>

section \<open>The octets of a long bit string\<close>

lemma application_bit_string_octets:
  "application_bit_string bits =
    rbind (py_bytes [0x80 OR int (length (bit_body bits))]) (\<lambda>h. Inr (h @ bit_body bits))"
proof -
  have "int ((length bits + 7) div 8 * 8) - int (length bits) \<in> {0..<8}" by (auto simp: of_nat_mult)
  then show ?thesis by (simp add: application_bit_string_def Let_def py_bytes_def bit_body_def)
qed

lemma bit_body_pad: "uint (bit_body bits ! 0) < 8"
proof -
  have "int ((length bits + 7) div 8 * 8) - int (length bits) \<in> {0..<8}" by (auto simp: of_nat_mult)
  then show ?thesis by (auto simp: bit_body_def Let_def uint_octet_of)
qed

lemma decode_bits_length: "decode_bits body = Inr bits \<Longrightarrow> length bits \<le> 8 * (length body - 1)"
  by (auto simp: decode_bits_def rbind_eq_Inr Let_def py_take_def min_def split: if_splits)

text \<open>A value that decodes to bits is read from at most seven octets, four if the length field is five.\<close>

lemma bits_from_short_body:
  assumes "decode_application (octet_of h # body) = Inr (PyBits bits)" and "0 \<le> h" "h < 256" and "uint (body ! 0) < 8"
  shows "length bits \<le> 48 \<and> (h AND 7 = 5 \<longrightarrow> length bits \<le> 8 * (length body - 2)) \<and> h AND 8 = 0"
proof -
  let ?data = "octet_of h # body"
  from assms(1) obtain t where t: "read_tag ?data 0 = Inr t" "\<not> tag_context t"
    "decode_body (tag_number t) (tag_body t) = Inr (PyBits bits)"
    by (auto simp: decode_application_def rbind_eq_Inr split: if_splits)
  then have bits: "tag_number t = 8" "decode_bits (tag_body t) = Inr bits"
    by (auto simp: decode_body_def rbind_eq_Inr split: if_splits)
  have f: "uint (octet_of h) = h" using assms(2,3) by (simp add: uint_octet_of)
  from t(1) obtain n q where n: "tag_number_field ?data 1 (octet_of h) = Inr (n, q)"
    and c: "tag_content ?data (h AND 8 \<noteq> 0) (h AND 7) n q = Inr t"
    by (auto simp: read_tag_def rbind_eq_Inr f)
  have num: "n = 8" using c bits(1) by (auto simp: tag_content_def rbind_eq_Inr split: if_splits)
  have q: "q = 1" using n num assms(4) by (auto simp: tag_number_field_def rbind_eq_Inr index_eq_Inr f split: if_splits)
  have ctx: "h AND 8 = 0" using c t(2) by (auto simp: tag_content_def rbind_eq_Inr split: if_splits)
  have "h AND 7 = h mod 8" using take_bit_eq_mask [of 3 h] by (simp add: take_bit_eq_mod mask_eq_exp_minus_1)
  then have lv: "0 \<le> h AND 7" "h AND 7 < 8" by simp_all
  have pad: "unat (body ! 0) < 8" using assms(4) uint_nat [of "body ! 0"] by linarith
  have len: "length (tag_body t) \<le> 7 \<and> (h AND 7 = 5 \<longrightarrow> length (tag_body t) \<le> length body - 1)"
  proof (cases "h AND 7 = 5")
    case True
    with c ctx num q assms(4) pad show ?thesis
      by (auto simp: min_def tag_content_def extended_length_def rbind_eq_Inr index_eq_Inr length_slice)
  next
    case False
    have "nat (h AND 7) \<le> 7" using lv by linarith
    with False c ctx num q show ?thesis by (auto simp: tag_content_def length_slice min_def)
  qed
  moreover have "length bits \<le> 8 * (length (tag_body t) - 1)" by (rule decode_bits_length [OF bits(2)])
  ultimately show ?thesis using ctx by auto
qed

text \<open>With six or seven octets the length field says so, and is not one of an opening or closing tag.\<close>

lemma bits_from_middle_body:
  assumes "length (bit_body bits) \<in> {6, 7}"
  shows "decode_application (octet_of (0x80 OR int (length (bit_body bits))) # bit_body bits) = Inr (PyBits bits)"
proof -
  have "read_tag (octet_of (0x80 OR int (length (bit_body bits))) # bit_body bits) 0 =
      Inr \<lparr>tag_number = 8, tag_context = False, tag_kind = Value, tag_body = bit_body bits, tag_next = 1 + length (bit_body bits)\<rparr>"
    using assms by (auto simp: read_tag_def tag_number_field_def tag_content_def uint_octet_of py_slice_def drop_bit_eq_div)
  then show ?thesis by (simp add: decode_application_def decode_body_def decode_bits_body)
qed

section \<open>Claims\<close>

text \<open>C23: A BIT STRING is read back as it was written exactly when it has at most 24 bits, or between 33 and
  48: with 25 to 32 the length field announces an extended length that does not follow, and from 49 bits on
  the length runs into the class bit and the tag number, or does not fit the octet.\<close>
theorem bit_string_limit:
  "rbind (application_bit_string bits) decode_application = Inr (PyBits bits) \<longleftrightarrow>
    length bits \<le> 24 \<or> 33 \<le> length bits \<and> length bits \<le> 48"
proof -
  let ?n = "length (bit_body bits)"
  let ?h = "0x80 OR int ?n"
  have n: "?n = Suc ((length bits + 7) div 8)" by (rule bit_body_length)
  have enc: "rbind (application_bit_string bits) decode_application =
      (if ?h < 256 then decode_application (octet_of ?h # bit_body bits) else Inl ValueError)"
    by (simp add: application_bit_string_octets py_bytes_def)
  consider "length bits \<le> 24" | "33 \<le> length bits" "length bits \<le> 48" | "25 \<le> length bits" "length bits \<le> 32" | "49 \<le> length bits"
    by linarith
  then show ?thesis
  proof cases
    case 1
    with bit_string_codec.decode_encode [of bits] show ?thesis by simp
  next
    case 2
    then have "?n \<in> {6, 7}" using n by (auto simp: Suc_eq_numeral le_div_geq)
    moreover from this have "?h < 256" by auto
    ultimately show ?thesis using enc bits_from_middle_body [of bits] 2 by simp
  next
    case 3
    then have "(length bits + 7) div 8 = 4" by linarith
    then have n5: "?n = 5" using n by simp
    have "length bits \<le> 24" if "decode_application (octet_of ?h # bit_body bits) = Inr (PyBits bits)"
      using bits_from_short_body [OF that _ _ bit_body_pad] n5 by simp
    with 3 enc show ?thesis by (auto split: if_splits)
  next
    case 4
    have "length bits \<le> 48" if "decode_application (octet_of ?h # bit_body bits) = Inr (PyBits bits)" "?h < 256"
      using bits_from_short_body [OF that(1) _ that(2) bit_body_pad] by simp
    with 4 enc show ?thesis by (auto split: if_splits)
  qed
qed

end
