(* ===== verification/Event_Summaries.thy ===== *)
theory Event_Summaries
  imports Alarm
begin

text \<open>
  The answer to GetEventInformation: what \<open>parse_event_summaries\<close> of \<^verbatim>\<open>src/wiretest/alarm.py\<close>
  makes of a GetEventInformation-ACK. The acknowledgement is written with the encoders of the code, field by
  field in the order of the production; \<open>summary_octets\<close> is its closed form.
\<close>

section \<open>The acknowledgement\<close>

text \<open>A time stamp is a date and time, or a sequence number, which the parser does not keep.\<close>

record event_summary =
  es_object :: object_ref
  es_event_state :: int
  es_acked_transitions :: "bool list"
  es_time_stamps :: "(date_time + int) list"
  es_notify_type :: int
  es_event_enable :: "bool list"
  es_priorities :: "int list"

definition encode_stamp :: "date_time + int \<Rightarrow> octets result" where
  "encode_stamp v = (case v of
     Inl (d, t) \<Rightarrow> cat [opening_tag 2, py_bytes [0xA4], Inr d, py_bytes [0xB4], Inr t, closing_tag 2]
   | Inr n \<Rightarrow> context_unsigned 1 n)"

definition encode_summary :: "event_summary \<Rightarrow> octets result" where
  "encode_summary e =
     cat ([case es_object e of (ot, i) \<Rightarrow> context_object_id 0 ot i, context_enumerated 1 (es_event_state e),
           context_bit_string 2 (es_acked_transitions e), opening_tag 3] @
          map encode_stamp (es_time_stamps e) @
          [closing_tag 3, context_enumerated 4 (es_notify_type e), context_bit_string 5 (es_event_enable e), opening_tag 6] @
          map application_unsigned (es_priorities e) @ [closing_tag 6])"

definition event_information_ack :: "int \<Rightarrow> event_summary list \<Rightarrow> bool \<Rightarrow> octets result" where
  "event_information_ack iid es more_events =
     cat ([py_bytes [push_bit 4 PDU_COMPLEX_ACK, iid, SERVICE_GET_EVENT_INFORMATION], opening_tag 0] @
          map encode_summary es @ [closing_tag 0, context_boolean 1 more_events])"

definition stamp_fits :: "date_time + int \<Rightarrow> bool" where
  "stamp_fits v = (case v of Inl (d, t) \<Rightarrow> length d = 4 \<and> length t = 4 | Inr n \<Rightarrow> unsigned32 n)"

definition summary_fits :: "event_summary \<Rightarrow> bool" where
  "summary_fits e \<longleftrightarrow> (case es_object e of (ot, i) \<Rightarrow> object_range ot i) \<and> unsigned32 (es_event_state e) \<and>
     length (es_acked_transitions e) \<le> 24 \<and> length (es_time_stamps e) = 3 \<and> list_all stamp_fits (es_time_stamps e) \<and>
     unsigned32 (es_notify_type e) \<and> length (es_event_enable e) \<le> 24 \<and> list_all (\<lambda>p. unsigned32 p) (es_priorities e)"

text \<open>What the parser makes of a summary.\<close>

definition kept_stamp :: "date_time + int \<Rightarrow> date_time option" where
  "kept_stamp v = (case v of Inl s \<Rightarrow> Some s | Inr n \<Rightarrow> None)"

definition decoded_summary :: "event_summary \<Rightarrow> summary" where
  "decoded_summary e = \<lparr>su_object = es_object e, su_event_state = Some (es_event_state e),
     su_acked_transitions = Some (es_acked_transitions e), su_time_stamps = Some (map kept_stamp (es_time_stamps e)),
     su_notify_type = Some (es_notify_type e), su_event_enable = Some (es_event_enable e),
     su_priorities = Some (es_priorities e)\<rparr>"

section \<open>Closed forms\<close>

definition choice_octets :: "date_time + int \<Rightarrow> octets" where
  "choice_octets v = (case v of Inl s \<Rightarrow> stamp_octets s | Inr n \<Rightarrow> ctx_prim 1 (u_octets n))"

definition priorities_octets :: "int list \<Rightarrow> octets" where
  "priorities_octets ps = concat (map (\<lambda>p. app_prim 2 (u_octets p)) ps)"

definition summary_octets :: "event_summary \<Rightarrow> octets" where
  "summary_octets e =
     ctx_prim 0 (oid (fst (es_object e)) (snd (es_object e))) @ ctx_prim 1 (u_octets (es_event_state e)) @
     ctx_prim 2 (bit_body (es_acked_transitions e)) @ enclosed 3 (concat (map choice_octets (es_time_stamps e))) @
     ctx_prim 4 (u_octets (es_notify_type e)) @ ctx_prim 5 (bit_body (es_event_enable e)) @
     enclosed 6 (priorities_octets (es_priorities e))"

lemma encode_stamp_eq: "stamp_fits v \<Longrightarrow> encode_stamp v = Inr (choice_octets v)"
  by (auto simp: encode_stamp_def stamp_fits_def choice_octets_def opening_tag_eq closing_tag_eq py_bytes_def stamp_octets_def
      enclosed_def app_prim_def length_octets_def context_unsigned_eq split: sum.splits)

lemma cat_map_eq: "list_all (\<lambda>x. f x = Inr (g x)) xs \<Longrightarrow> cat (map f xs) = Inr (concat (map g xs))"
  by (induction xs) auto

lemma encode_summary_eq:
  assumes "summary_fits e"
  shows "encode_summary e = Inr (summary_octets e)"
proof -
  have "cat (map encode_stamp (es_time_stamps e)) = Inr (concat (map choice_octets (es_time_stamps e)))"
    by (rule cat_map_eq) (use assms in \<open>auto simp: summary_fits_def list_all_iff encode_stamp_eq\<close>)
  moreover have "cat (map application_unsigned (es_priorities e)) = Inr (priorities_octets (es_priorities e))"
    unfolding priorities_octets_def
    by (rule cat_map_eq) (use assms in \<open>auto simp: summary_fits_def list_all_iff application_unsigned_eq\<close>)
  ultimately show ?thesis
    using assms
    by (cases "es_object e") (simp add: encode_summary_def cat_append summary_octets_def enclosed_def summary_fits_def
        context_object_id_eq context_enumerated_eq context_bit_string_eq opening_tag_eq closing_tag_eq)
qed

section \<open>Parsing\<close>

lemma read_choice_stamp:
  assumes "length d = 4" "length t = 4"
  shows "read_time_stamp_choice (pre @ stamp_octets (d, t) @ suf) (length pre) =
    Inr (Some (d, t), length (pre @ stamp_octets (d, t)))"
proof -
  let ?a = "pre @ open_prim 2" and ?d = "app_prim 10 d" and ?t = "app_prim 11 t" and ?c = "close_prim 2"
  have d: "is_tag ?d 10 False Value d" and t: "is_tag ?t 11 False Value t"
    using assms by (simp_all add: is_tag_app_prim)
  have "read_tag (pre @ open_prim 2 @ ?d @ ?t @ ?c @ suf) (length pre) =
      Inr \<lparr>tag_number = 2, tag_context = True, tag_kind = Open, tag_body = [], tag_next = length ?a\<rparr>"
    "read_tag (pre @ open_prim 2 @ ?d @ ?t @ ?c @ suf) (length ?a) =
      Inr \<lparr>tag_number = 10, tag_context = False, tag_kind = Value, tag_body = d, tag_next = length (?a @ ?d)\<rparr>"
    "read_tag (pre @ open_prim 2 @ ?d @ ?t @ ?c @ suf) (length (?a @ ?d)) =
      Inr \<lparr>tag_number = 11, tag_context = False, tag_kind = Value, tag_body = t, tag_next = length (?a @ ?d @ ?t)\<rparr>"
    "read_tag (pre @ open_prim 2 @ ?d @ ?t @ ?c @ suf) (length (?a @ ?d @ ?t)) =
      Inr \<lparr>tag_number = 2, tag_context = True, tag_kind = Close, tag_body = [], tag_next = length (?a @ ?d @ ?t @ ?c)\<rparr>"
    using read_tag_at [OF is_tag_open_prim [of 2], of pre "?d @ ?t @ ?c @ suf"]
      read_tag_at [OF d, of ?a "?t @ ?c @ suf"] read_tag_at [OF t, of "?a @ ?d" "?c @ suf"]
      read_tag_at [OF is_tag_close_prim [of 2], of "?a @ ?d @ ?t" suf]
    by (simp_all add: add.assoc)
  then have "read_time_stamp_choice (pre @ open_prim 2 @ ?d @ ?t @ ?c @ suf) (length pre) = Inr (Some (d, t), length (?a @ ?d @ ?t @ ?c))"
    unfolding read_time_stamp_choice_def by (simp only: rbind_Inr tag.simps) simp
  then show ?thesis by (simp add: stamp_octets_def enclosed_def)
qed

lemma read_choice_at:
  assumes "stamp_fits v"
  shows "read_time_stamp_choice (pre @ choice_octets v @ suf) (length pre) = Inr (kept_stamp v, length (pre @ choice_octets v))"
proof (cases v)
  case (Inl s)
  with assms read_choice_stamp [of "fst s" "snd s" pre suf] show ?thesis
    by (cases s) (simp add: stamp_fits_def choice_octets_def kept_stamp_def)
next
  case (Inr n)
  with read_tag_at [OF is_tag_unsigned [of 1 n], of pre suf] show ?thesis
    by (simp add: read_time_stamp_choice_def choice_octets_def kept_stamp_def)
qed

lemma three_stamps_at:
  assumes "length vs = 3" "list_all stamp_fits vs"
  shows "three_stamps (pre @ concat (map choice_octets vs) @ suf) (length pre) =
    Inr (map kept_stamp vs, length (pre @ concat (map choice_octets vs)))"
proof -
  from assms(1) obtain a b c where vs: "vs = [a, b, c]" by (auto simp: numeral_eq_Suc length_Suc_conv)
  with assms(2) read_choice_at [of a pre "choice_octets b @ choice_octets c @ suf"]
    read_choice_at [of b "pre @ choice_octets a" "choice_octets c @ suf"]
    read_choice_at [of c "pre @ choice_octets a @ choice_octets b" suf]
  show ?thesis by (simp add: three_stamps_def add.assoc)
qed

lemma priorities_at:
  assumes "list_all (\<lambda>p. unsigned32 p) ps"
  shows "priorities_until_close (pre @ priorities_octets ps @ close_prim 6 @ suf) (length pre) =
    Inr (ps, length (pre @ priorities_octets ps @ close_prim 6))"
  using assms
proof (induction ps arbitrary: pre)
  case Nil
  show ?case
    using read_tag_at [OF is_tag_close_prim [of 6], of pre suf]
    by (subst priorities_until_close.simps) (simp add: priorities_octets_def)
next
  case (Cons p ps)
  have "is_tag (app_prim 2 (u_octets p)) 2 False Value (u_octets p)" by (simp add: is_tag_app_prim small_body)
  from read_tag_at [OF this, of pre "priorities_octets ps @ close_prim 6 @ suf"] Cons.IH [of "pre @ app_prim 2 (u_octets p)"] Cons.prems
  show ?case
    by (subst priorities_until_close.simps) (simp add: priorities_octets_def add.assoc)
qed

text \<open>One turn of the loop at a tag.\<close>

lemma summaries_at:
  assumes "is_tag c n x k b"
  shows "summaries_loop (pre @ c @ suf) (length pre) s =
    rbind (summary_turn (pre @ c @ suf) \<lparr>tag_number = n, tag_context = x, tag_kind = k, tag_body = b,
        tag_next = length (pre @ c)\<rparr> s)
      (\<lambda>(s', after). summaries_loop (pre @ c @ suf) after s')"
  using is_tag_nonempty [OF assms] read_tag_at [OF assms, of pre suf]
  by (subst summaries_loop.simps) simp

lemma set_current_last: "ss_summaries s = done @ [c] \<Longrightarrow> set_current g s = Inr (s\<lparr>ss_summaries := done @ [g c]\<rparr>)"
  by (simp add: set_current_def)

text \<open>A primitive of the current summary: its number, its body, and what it sets.\<close>

definition summary_field :: "int \<Rightarrow> octets \<Rightarrow> summary \<Rightarrow> summary result" where
  "summary_field n b c =
     (if n = 1 then Inr (c\<lparr>su_event_state := Some (from_bytes b)\<rparr>)
      else if n = 2 then rbind (bits b) (\<lambda>v. Inr (c\<lparr>su_acked_transitions := Some v\<rparr>))
      else if n = 4 then Inr (c\<lparr>su_notify_type := Some (from_bytes b)\<rparr>)
      else rbind (bits b) (\<lambda>v. Inr (c\<lparr>su_event_enable := Some v\<rparr>)))"

lemma summaries_value:
  assumes "t \<in> {1, 2, 4, 5}" "length b < 65536" "summary_field t b c = Inr c'"
  shows "summaries_loop (pre @ ctx_prim t b @ suf) (length pre) \<lparr>ss_summaries = done @ [c], ss_more_events = m, ss_in_list = True\<rparr> =
    summaries_loop ((pre @ ctx_prim t b) @ suf) (length (pre @ ctx_prim t b)) \<lparr>ss_summaries = done @ [c'], ss_more_events = m, ss_in_list = True\<rparr>"
proof -
  have "is_tag (ctx_prim t b) t True Value b" by (rule is_tag_ctx_prim) (use assms in auto)
  from summaries_at [OF this, of pre suf] assms show ?thesis
    by (auto simp: summary_turn_def Let_def set_current_last summary_field_def rbind_eq_Inr)
qed

lemma summaries_object:
  assumes "object_range ot i"
  shows "summaries_loop (pre @ ctx_prim 0 (oid ot i) @ suf) (length pre) \<lparr>ss_summaries = done, ss_more_events = m, ss_in_list = True\<rparr> =
    summaries_loop ((pre @ ctx_prim 0 (oid ot i)) @ suf) (length (pre @ ctx_prim 0 (oid ot i)))
      \<lparr>ss_summaries = done @ [\<lparr>su_object = (ot, i), su_event_state = None, su_acked_transitions = None,
          su_time_stamps = None, su_notify_type = None, su_event_enable = None, su_priorities = None\<rparr>],
       ss_more_events = m, ss_in_list = True\<rparr>"
  using summaries_at [OF is_tag_oid [of 0 ot i], of pre suf] assms
  by (simp add: summary_turn_def Let_def)

lemma summaries_stamps:
  assumes "length vs = 3" "list_all stamp_fits vs"
  shows "summaries_loop (pre @ enclosed 3 (concat (map choice_octets vs)) @ suf) (length pre)
      \<lparr>ss_summaries = done @ [c], ss_more_events = m, ss_in_list = True\<rparr> =
    summaries_loop ((pre @ enclosed 3 (concat (map choice_octets vs))) @ suf) (length (pre @ enclosed 3 (concat (map choice_octets vs))))
      \<lparr>ss_summaries = done @ [c\<lparr>su_time_stamps := Some (map kept_stamp vs)\<rparr>], ss_more_events = m, ss_in_list = True\<rparr>"
proof -
  let ?v = "concat (map choice_octets vs)"
  note three_stamps_at [OF assms, of "pre @ open_prim 3" "close_prim 3 @ suf"]
  moreover note read_tag_at [OF is_tag_close_prim [of 3], of "pre @ open_prim 3 @ ?v" suf]
  ultimately show ?thesis
    using summaries_at [OF is_tag_open_prim [of 3], of pre "?v @ close_prim 3 @ suf"]
    by (simp add: enclosed_def summary_turn_def Let_def set_current_last add.assoc)
qed

lemma summaries_priorities:
  assumes "list_all (\<lambda>p. unsigned32 p) ps"
  shows "summaries_loop (pre @ enclosed 6 (priorities_octets ps) @ suf) (length pre)
      \<lparr>ss_summaries = done @ [c], ss_more_events = m, ss_in_list = True\<rparr> =
    summaries_loop ((pre @ enclosed 6 (priorities_octets ps)) @ suf) (length (pre @ enclosed 6 (priorities_octets ps)))
      \<lparr>ss_summaries = done @ [c\<lparr>su_priorities := Some ps\<rparr>], ss_more_events = m, ss_in_list = True\<rparr>"
  using priorities_at [OF assms, of "pre @ open_prim 6" suf]
    summaries_at [OF is_tag_open_prim [of 6], of pre "priorities_octets ps @ close_prim 6 @ suf"]
  by (simp add: enclosed_def summary_turn_def Let_def set_current_last add.assoc)

text \<open>A whole summary, and a list of them.\<close>

lemma summaries_summary:
  assumes "summary_fits e"
  shows "summaries_loop (pre @ summary_octets e @ suf) (length pre) \<lparr>ss_summaries = done, ss_more_events = m, ss_in_list = True\<rparr> =
    summaries_loop ((pre @ summary_octets e) @ suf) (length (pre @ summary_octets e))
      \<lparr>ss_summaries = done @ [decoded_summary e], ss_more_events = m, ss_in_list = True\<rparr>"
proof -
  obtain ot i where o: "es_object e = (ot, i)" by (cases "es_object e")
  have fits: "object_range ot i" "unsigned32 (es_event_state e)" "length (es_acked_transitions e) \<le> 24"
      "length (es_time_stamps e) = 3" "list_all stamp_fits (es_time_stamps e)" "unsigned32 (es_notify_type e)"
      "length (es_event_enable e) \<le> 24" "list_all (\<lambda>p. unsigned32 p) (es_priorities e)"
    using assms o by (auto simp: summary_fits_def)
  let ?a = "ctx_prim 0 (oid ot i)" and ?b = "ctx_prim 1 (u_octets (es_event_state e))"
  let ?c = "ctx_prim 2 (bit_body (es_acked_transitions e))" and ?d = "enclosed 3 (concat (map choice_octets (es_time_stamps e)))"
  let ?e = "ctx_prim 4 (u_octets (es_notify_type e))" and ?f = "ctx_prim 5 (bit_body (es_event_enable e))"
  let ?g = "enclosed 6 (priorities_octets (es_priorities e))"
  define s0 where "s0 = \<lparr>su_object = (ot, i), su_event_state = None, su_acked_transitions = None, su_time_stamps = None,
      su_notify_type = None, su_event_enable = None, su_priorities = None\<rparr>"
  define s1 where "s1 = s0\<lparr>su_event_state := Some (es_event_state e)\<rparr>"
  define s2 where "s2 = s1\<lparr>su_acked_transitions := Some (es_acked_transitions e)\<rparr>"
  define s3 where "s3 = s2\<lparr>su_time_stamps := Some (map kept_stamp (es_time_stamps e))\<rparr>"
  define s4 where "s4 = s3\<lparr>su_notify_type := Some (es_notify_type e)\<rparr>"
  define s5 where "s5 = s4\<lparr>su_event_enable := Some (es_event_enable e)\<rparr>"
  have f: "summary_field 1 (u_octets (es_event_state e)) s0 = Inr s1"
      "summary_field 2 (bit_body (es_acked_transitions e)) s1 = Inr s2"
      "summary_field 4 (u_octets (es_notify_type e)) s3 = Inr s4"
      "summary_field 5 (bit_body (es_event_enable e)) s4 = Inr s5"
    using fits by (simp_all add: summary_field_def bits_def decode_bits_body s1_def s2_def s4_def s5_def)
  have small: "length (bit_body (es_acked_transitions e)) < 65536" "length (bit_body (es_event_enable e)) < 65536"
    using fits by (simp_all add: bit_body_length)
  have last: "s5\<lparr>su_priorities := Some (es_priorities e)\<rparr> = decoded_summary e"
    by (simp add: s0_def s1_def s2_def s3_def s4_def s5_def decoded_summary_def o)
  show ?thesis
    using summaries_object [OF fits(1), of pre "?b @ ?c @ ?d @ ?e @ ?f @ ?g @ suf" "done" m]
      summaries_value [OF _ small_body(1) f(1), of "pre @ ?a" "?c @ ?d @ ?e @ ?f @ ?g @ suf" "done" m]
      summaries_value [OF _ small(1) f(2), of "pre @ ?a @ ?b" "?d @ ?e @ ?f @ ?g @ suf" "done" m]
      summaries_stamps [OF fits(4,5), of "pre @ ?a @ ?b @ ?c" "?e @ ?f @ ?g @ suf" "done" s2 m]
      summaries_value [OF _ small_body(1) f(3), of "pre @ ?a @ ?b @ ?c @ ?d" "?f @ ?g @ suf" "done" m]
      summaries_value [OF _ small(2) f(4), of "pre @ ?a @ ?b @ ?c @ ?d @ ?e" "?g @ suf" "done" m]
      summaries_priorities [OF fits(8), of "pre @ ?a @ ?b @ ?c @ ?d @ ?e @ ?f" suf "done" s5 m] last
    by (simp add: summary_octets_def o s0_def [symmetric] s3_def [symmetric])
qed

lemma summaries_list:
  assumes "list_all summary_fits es"
  shows "summaries_loop (pre @ concat (map summary_octets es) @ suf) (length pre) \<lparr>ss_summaries = done, ss_more_events = m, ss_in_list = True\<rparr> =
    summaries_loop ((pre @ concat (map summary_octets es)) @ suf) (length (pre @ concat (map summary_octets es)))
      \<lparr>ss_summaries = done @ map decoded_summary es, ss_more_events = m, ss_in_list = True\<rparr>"
  using assms
proof (induction es arbitrary: pre "done")
  case (Cons e es)
  with summaries_summary [of e pre "concat (map summary_octets es) @ suf" "done" m] Cons.IH [of "pre @ summary_octets e"]
  show ?case by simp
qed simp

lemma parse_event_summaries_octets:
  assumes "list_all summary_fits es" "length h = 3"
  shows "parse_event_summaries (h @ open_prim 0 @ concat (map summary_octets es) @ close_prim 0 @ ctx_prim 1 [of_bool more_events]) =
    Inr (map decoded_summary es, Some more_events)"
proof -
  let ?o = "open_prim 0" and ?v = "concat (map summary_octets es)" and ?c = "close_prim 0" and ?m = "ctx_prim 1 [of_bool more_events :: octet]"
  have more: "is_tag ?m 1 True Value [of_bool more_events]" by (rule is_tag_ctx_prim) simp_all
  have "summaries_loop (?o @ ?v @ ?c @ ?m) 0 \<lparr>ss_summaries = [], ss_more_events = None, ss_in_list = False\<rparr> =
      summaries_loop (?o @ ?v @ ?c @ ?m) (length ?o) \<lparr>ss_summaries = [], ss_more_events = None, ss_in_list = True\<rparr>"
    using summaries_at [OF is_tag_open_prim [of 0], of "[]" "?v @ ?c @ ?m"] by (simp add: summary_turn_def Let_def)
  also have "\<dots> = summaries_loop (?o @ ?v @ ?c @ ?m) (length (?o @ ?v)) \<lparr>ss_summaries = map decoded_summary es, ss_more_events = None, ss_in_list = True\<rparr>"
    using summaries_list [OF assms(1), of ?o "?c @ ?m" "[]" None] by simp
  also have "\<dots> = summaries_loop (?o @ ?v @ ?c @ ?m) (length (?o @ ?v @ ?c)) \<lparr>ss_summaries = map decoded_summary es, ss_more_events = None, ss_in_list = False\<rparr>"
    using summaries_at [OF is_tag_close_prim [of 0], of "?o @ ?v" ?m] by (simp add: summary_turn_def Let_def)
  also have "\<dots> = summaries_loop (?o @ ?v @ ?c @ ?m) (length (?o @ ?v @ ?c @ ?m))
      \<lparr>ss_summaries = map decoded_summary es, ss_more_events = Some more_events, ss_in_list = False\<rparr>"
    using summaries_at [OF more, of "?o @ ?v @ ?c" "[]"] by (simp add: summary_turn_def Let_def from_bytes_def)
  also have "\<dots> = Inr \<lparr>ss_summaries = map decoded_summary es, ss_more_events = Some more_events, ss_in_list = False\<rparr>"
    by (subst summaries_loop.simps) simp
  finally show ?thesis using assms(2) by (simp add: parse_event_summaries_def)
qed

section \<open>Claims\<close>

text \<open>C39: A GetEventInformation-ACK, with any number of event summaries, parses to these summaries in order,
  each with its object, event state, acknowledged transitions, three time stamps (those in the date and
  time form; a sequence number is not kept), notify type, event enable bits and priorities, and to the
  flag whether more events follow.\<close>
theorem event_summaries_roundtrip:
  assumes "unsigned8 iid" "list_all summary_fits es"
  shows "\<exists>apdu. event_information_ack iid es more_events = Inr apdu \<and>
    parse_event_summaries apdu = Inr (map decoded_summary es, Some more_events)"
proof -
  have "cat (map encode_summary es) = Inr (concat (map summary_octets es))"
    by (rule cat_map_eq) (use assms(2) in \<open>auto simp: list_all_iff encode_summary_eq\<close>)
  then have "event_information_ack iid es more_events = Inr ([0x30, octet_of iid, 29] @ open_prim 0 @
      concat (map summary_octets es) @ close_prim 0 @ ctx_prim 1 [of_bool more_events])"
    using assms(1)
    by (simp add: event_information_ack_def cat_append opening_tag_eq closing_tag_eq context_boolean_eq py_bytes_def
        octet_of_def push_bit_eq_mult)
  moreover from parse_event_summaries_octets [OF assms(2), of "[0x30, octet_of iid, 29]" more_events]
  have "parse_event_summaries ([0x30, octet_of iid, 29] @ open_prim 0 @ concat (map summary_octets es) @ close_prim 0 @
      ctx_prim 1 [of_bool more_events]) = Inr (map decoded_summary es, Some more_events)" by simp
  ultimately show ?thesis by blast
qed

definition example_summary :: event_summary where
  "example_summary = \<lparr>es_object = (0, 1), es_event_state = 3, es_acked_transitions = [False, True, True],
     es_time_stamps = [Inl ([126, 10, 15, 4], [12, 30, 0, 0]), Inr 7, Inr 0], es_notify_type = 0,
     es_event_enable = [True, True, True], es_priorities = [100, 100, 200]\<rparr>"

theorem event_summaries_roundtrip_witness:
  "\<exists>apdu. event_information_ack 5 [example_summary] False = Inr apdu \<and>
    parse_event_summaries apdu = Inr ([decoded_summary example_summary], Some False)"
proof -
  have "unsigned8 5" "list_all summary_fits [example_summary]" by code_simp+
  from event_summaries_roundtrip [OF this] show ?thesis by simp
qed

end
