(* ===== verification/Cov.thy ===== *)
theory Cov
  imports Services
begin

text \<open>
  COVNotificationMultiple: what \<open>CovNotificationMultiple\<close> of \<^verbatim>\<open>src/wiretest/services.py\<close> makes
  of a notification, confirmed or not, about any number of objects and properties. The notification is
  written with the encoders of the code; the closed forms are those of the tag library.
\<close>

section \<open>The notification\<close>

text \<open>A changed property: its identifier, its array index if any, and its new value.\<close>

type_synonym change = "int \<times> int option \<times> octets"

record cov_args =
  ca_process_identifier :: int
  ca_initiating_device :: int
  ca_time_remaining :: int
  ca_changes :: "(int \<times> int \<times> change list) list"

definition encode_change :: "change \<Rightarrow> octets result list" where
  "encode_change v = (case v of (p, ix, octets) \<Rightarrow>
     [context_unsigned 0 p] @ (case ix of None \<Rightarrow> [] | Some i \<Rightarrow> [context_unsigned 1 i]) @
     [opening_tag 2, Inr octets, closing_tag 2])"

definition encode_monitored :: "int \<times> int \<times> change list \<Rightarrow> octets result list" where
  "encode_monitored o' = (case o' of (ot, i, vs) \<Rightarrow>
     [context_object_id 0 ot i, opening_tag 1] @ concat (map encode_change vs) @ [closing_tag 1])"

definition cov_notification :: "int option \<Rightarrow> cov_args \<Rightarrow> octets result" where
  "cov_notification invoke a =
     rbind (cat ([context_unsigned 0 (ca_process_identifier a), context_object_id 1 OBJECT_TYPE_DEVICE (ca_initiating_device a),
                  context_unsigned 2 (ca_time_remaining a), opening_tag 4] @
                 concat (map encode_monitored (ca_changes a)) @ [closing_tag 4])) (\<lambda>parameters.
     case invoke of
       Some iid \<Rightarrow> confirmed_request iid SERVICE_CONFIRMED_COV_NOTIFICATION_MULTIPLE parameters
     | None \<Rightarrow> cat [py_bytes [push_bit 4 PDU_UNCONFIRMED_REQUEST, SERVICE_UNCONFIRMED_COV_NOTIFICATION_MULTIPLE], Inr parameters])"

definition change_fits :: "change \<Rightarrow> bool" where
  "change_fits v = (case v of (p, ix, octets) \<Rightarrow> unsigned32 p \<and> unsigned32_option ix \<and> balanced octets)"

definition monitored_fits :: "int \<times> int \<times> change list \<Rightarrow> bool" where
  "monitored_fits o' = (case o' of (ot, i, vs) \<Rightarrow> object_range ot i \<and> list_all change_fits vs)"

definition cov_fits :: "int option \<Rightarrow> cov_args \<Rightarrow> bool" where
  "cov_fits invoke a \<longleftrightarrow> (case invoke of None \<Rightarrow> True | Some iid \<Rightarrow> unsigned8 iid) \<and> unsigned32 (ca_process_identifier a) \<and>
     object_range OBJECT_TYPE_DEVICE (ca_initiating_device a) \<and> unsigned32 (ca_time_remaining a) \<and>
     list_all monitored_fits (ca_changes a)"

text \<open>Its changes as the decoder lists them.\<close>

definition decoded_changes :: "int \<times> int \<times> change list \<Rightarrow> cov_value list" where
  "decoded_changes o' = (case o' of (ot, i, vs) \<Rightarrow> map (\<lambda>(p, ix, octets). (Some (ot, i), Some p, ix, octets)) vs)"

section \<open>Closed forms\<close>

definition change_octets :: "change \<Rightarrow> octets" where
  "change_octets v = (case v of (p, ix, octets) \<Rightarrow> ctx_prim 0 (u_octets p) @ optional_unsigned 1 ix @ enclosed 2 octets)"

definition monitored_octets :: "int \<times> int \<times> change list \<Rightarrow> octets" where
  "monitored_octets o' = (case o' of (ot, i, vs) \<Rightarrow>
     ctx_prim 0 (oid ot i) @ enclosed 1 (concat (map change_octets vs)))"

definition cov_parameters :: "cov_args \<Rightarrow> octets" where
  "cov_parameters a = ctx_prim 0 (u_octets (ca_process_identifier a)) @ ctx_prim 1 (oid OBJECT_TYPE_DEVICE (ca_initiating_device a)) @
     ctx_prim 2 (u_octets (ca_time_remaining a)) @ enclosed 4 (concat (map monitored_octets (ca_changes a)))"

lemma cat_concat_map: "list_all (\<lambda>x. cat (f x) = Inr (g x)) xs \<Longrightarrow> cat (concat (map f xs)) = Inr (concat (map g xs))"
  by (induction xs) (auto simp: cat_append)

lemma encode_change_eq: "change_fits v \<Longrightarrow> cat (encode_change v) = Inr (change_octets v)"
  by (cases v) (auto simp: change_fits_def encode_change_def change_octets_def optional_unsigned_def enclosed_def
      context_unsigned_eq opening_tag_eq closing_tag_eq split: option.splits)

lemma encode_monitored_eq:
  assumes "monitored_fits o'"
  shows "cat (encode_monitored o') = Inr (monitored_octets o')"
proof -
  obtain ot i vs where o': "o' = (ot, i, vs)" by (cases o')
  have "cat (concat (map encode_change vs)) = Inr (concat (map change_octets vs))"
    by (rule cat_concat_map) (use assms o' in \<open>auto simp: monitored_fits_def list_all_iff encode_change_eq\<close>)
  with assms o' show ?thesis
    by (simp add: encode_monitored_def monitored_octets_def monitored_fits_def cat_append enclosed_def
        context_object_id_eq opening_tag_eq closing_tag_eq)
qed

definition cov_head :: "int option \<Rightarrow> octets" where
  "cov_head invoke = (case invoke of Some iid \<Rightarrow> [0, 5, octet_of iid, octet_of SERVICE_CONFIRMED_COV_NOTIFICATION_MULTIPLE]
     | None \<Rightarrow> [0x10, octet_of SERVICE_UNCONFIRMED_COV_NOTIFICATION_MULTIPLE])"

lemma cov_notification_eq:
  assumes "cov_fits invoke a"
  shows "cov_notification invoke a = Inr (cov_head invoke @ cov_parameters a)"
proof -
  have "cat (concat (map encode_monitored (ca_changes a))) = Inr (concat (map monitored_octets (ca_changes a)))"
    by (rule cat_concat_map) (use assms in \<open>auto simp: cov_fits_def list_all_iff encode_monitored_eq\<close>)
  with assms show ?thesis
    by (cases invoke) (simp_all add: cov_notification_def cov_head_def cov_parameters_def cov_fits_def cat_append enclosed_def
        context_unsigned_eq context_object_id_eq opening_tag_eq closing_tag_eq confirmed_request_eq py_bytes_def
        push_bit_eq_mult octet_of_def)
qed

section \<open>Decoding\<close>

lemma cov_at:
  assumes "is_tag c n x k b"
  shows "cov_loop (pre @ c @ suf) (length pre) s =
    (if k = Open \<and> cs_depth s = 2 \<and> n = 2 then
       rbind (constructed_body (pre @ c @ suf) (length (pre @ c))) (\<lambda>(v, after).
       cov_loop (pre @ c @ suf) after (s\<lparr>cs_cov := (cs_cov s)\<lparr>cov_values :=
         cov_values (cs_cov s) @ [(cs_monitored s, cs_property s, cs_index s, v)]\<rparr>, cs_index := None\<rparr>))
     else if k = Open then cov_loop (pre @ c @ suf) (length (pre @ c)) (s\<lparr>cs_depth := cs_depth s + 1\<rparr>)
     else if k = Close then cov_loop (pre @ c @ suf) (length (pre @ c)) (s\<lparr>cs_depth := cs_depth s - 1\<rparr>)
     else if \<not> x then cov_loop (pre @ c @ suf) (length (pre @ c)) s
     else rbind (cov_field n b s) (cov_loop (pre @ c @ suf) (length (pre @ c))))"
  using is_tag_nonempty [OF assms]
  by (subst cov_loop.simps) (simp add: read_tag_at [OF assms] cong: if_cong)

text \<open>What one changed property, and one monitored object, do to the decoder's variables.\<close>

definition after_change :: "change \<Rightarrow> cov_state \<Rightarrow> cov_state" where
  "after_change v s = (case v of (p, ix, octets) \<Rightarrow>
     s\<lparr>cs_property := Some p, cs_cov := (cs_cov s)\<lparr>cov_values := cov_values (cs_cov s) @ [(cs_monitored s, Some p, ix, octets)]\<rparr>\<rparr>)"

definition after_monitored :: "int \<times> int \<times> change list \<Rightarrow> cov_state \<Rightarrow> cov_state" where
  "after_monitored o' s = (case o' of (ot, i, vs) \<Rightarrow> fold after_change vs (s\<lparr>cs_monitored := Some (ot, i)\<rparr>))"

lemma cov_change:
  assumes "change_fits v" "cs_depth s = 2" "cs_index s = None"
  shows "cov_loop (pre @ change_octets v @ suf) (length pre) s =
    cov_loop ((pre @ change_octets v) @ suf) (length (pre @ change_octets v)) (after_change v s)"
proof -
  obtain p ix octets where v: "v = (p, ix, octets)" by (cases v)
  have fits: "unsigned32 p" "unsigned32_option ix" "balanced octets" using assms(1) v by (auto simp: change_fits_def)
  let ?p = "ctx_prim 0 (u_octets p)" and ?ix = "optional_unsigned 1 ix" and ?v = "enclosed 2 octets"
  let ?s = "s\<lparr>cs_property := Some p\<rparr>"
  have 1: "cov_loop (pre @ ?p @ ?ix @ ?v @ suf) (length pre) s = cov_loop ((pre @ ?p) @ ?ix @ ?v @ suf) (length (pre @ ?p)) ?s"
    using cov_at [OF is_tag_unsigned [of 0 p], of pre "?ix @ ?v @ suf" s] fits(1) assms(2) by (simp add: cov_field_def)
  have 2: "cov_loop ((pre @ ?p) @ ?ix @ ?v @ suf) (length (pre @ ?p)) ?s =
      cov_loop ((pre @ ?p @ ?ix) @ ?v @ suf) (length (pre @ ?p @ ?ix)) (?s\<lparr>cs_index := ix\<rparr>)"
  proof (cases ix)
    case None
    have "?s\<lparr>cs_index := None\<rparr> = ?s" using assms(3) by (cases s) simp
    with None show ?thesis by (simp add: optional_unsigned_def)
  next
    case (Some i)
    with cov_at [OF is_tag_unsigned [of 1 i], of "pre @ ?p" "?v @ suf" ?s] fits(2) assms(2) show ?thesis
      by (simp add: cov_field_def optional_unsigned_def)
  qed
  have 3: "cov_loop ((pre @ ?p @ ?ix) @ ?v @ suf) (length (pre @ ?p @ ?ix)) (?s\<lparr>cs_index := ix\<rparr>) =
      cov_loop ((pre @ ?p @ ?ix @ ?v) @ suf) (length (pre @ ?p @ ?ix @ ?v)) (after_change v s\<lparr>cs_index := None\<rparr>)"
    using cov_at [OF is_tag_open_prim [of 2], of "pre @ ?p @ ?ix" "octets @ close_prim 2 @ suf" "?s\<lparr>cs_index := ix\<rparr>"]
      constructed_body_enclosed [OF fits(3), of 2 "pre @ ?p @ ?ix" suf] assms(2)
    by (simp add: enclosed_def after_change_def v)
  have "after_change v s\<lparr>cs_index := None\<rparr> = after_change v s" using assms(3) by (simp add: after_change_def v)
  with 1 2 3 show ?thesis by (simp add: change_octets_def v)
qed

lemma after_change_fields [simp]:
  "cs_depth (after_change v s) = cs_depth s" "cs_index (after_change v s) = cs_index s"
  "cs_monitored (after_change v s) = cs_monitored s"
  by (simp_all add: after_change_def split: prod.splits)

lemma fold_after_change_fields [simp]:
  "cs_depth (fold after_change vs s) = cs_depth s" "cs_index (fold after_change vs s) = cs_index s"
  by (induction vs arbitrary: s) simp_all

lemma cov_changes:
  assumes "list_all change_fits vs" "cs_depth s = 2" "cs_index s = None"
  shows "cov_loop (pre @ concat (map change_octets vs) @ suf) (length pre) s =
    cov_loop ((pre @ concat (map change_octets vs)) @ suf) (length (pre @ concat (map change_octets vs))) (fold after_change vs s)"
  using assms
proof (induction vs arbitrary: pre s)
  case (Cons v vs)
  with cov_change [of v s pre "concat (map change_octets vs) @ suf"] Cons.IH [of "after_change v s" "pre @ change_octets v"]
  show ?case by simp
qed simp

text \<open>The records commute with the depth, which only the opening and closing tags change.\<close>

lemma after_change_depth: "after_change v (s\<lparr>cs_depth := d\<rparr>) = after_change v s\<lparr>cs_depth := d\<rparr>"
  by (simp add: after_change_def split: prod.splits)

lemma fold_after_change_depth: "fold after_change vs (s\<lparr>cs_depth := d\<rparr>) = fold after_change vs s\<lparr>cs_depth := d\<rparr>"
  by (induction vs arbitrary: s) (simp_all add: after_change_depth)

lemma cov_monitored:
  assumes "monitored_fits o'" "cs_depth s = 1" "cs_index s = None"
  shows "cov_loop (pre @ monitored_octets o' @ suf) (length pre) s =
    cov_loop ((pre @ monitored_octets o') @ suf) (length (pre @ monitored_octets o')) (after_monitored o' s)"
proof -
  obtain ot i vs where o': "o' = (ot, i, vs)" by (cases o')
  have fits: "object_range ot i" "list_all change_fits vs" using assms(1) o' by (auto simp: monitored_fits_def)
  let ?o = "ctx_prim 0 (oid ot i)" and ?v = "concat (map change_octets vs)"
  let ?s = "s\<lparr>cs_monitored := Some (ot, i)\<rparr>"
  have id: "object_identifier (oid ot i) = Inr (ot, i)" using fits(1) by (rule object_identifier_oid)
  have "cov_loop (pre @ ?o @ enclosed 1 ?v @ suf) (length pre) s = cov_loop ((pre @ ?o) @ enclosed 1 ?v @ suf) (length (pre @ ?o)) ?s"
    using cov_at [OF is_tag_oid [of 0 ot i], of pre "enclosed 1 ?v @ suf" s] assms(2) id by (simp add: cov_field_def)
  also have "\<dots> = cov_loop ((pre @ ?o @ open_prim 1) @ ?v @ close_prim 1 @ suf) (length (pre @ ?o @ open_prim 1)) (?s\<lparr>cs_depth := 2\<rparr>)"
    using cov_at [OF is_tag_open_prim [of 1], of "pre @ ?o" "?v @ close_prim 1 @ suf" ?s] assms(2) by (simp add: enclosed_def)
  also have "\<dots> = cov_loop ((pre @ ?o @ open_prim 1 @ ?v) @ close_prim 1 @ suf) (length (pre @ ?o @ open_prim 1 @ ?v))
      (fold after_change vs ?s\<lparr>cs_depth := 2\<rparr>)"
    using cov_changes [OF fits(2), of "?s\<lparr>cs_depth := 2\<rparr>" "pre @ ?o @ open_prim 1" "close_prim 1 @ suf"] assms(3)
    by (simp add: fold_after_change_depth)
  also have "\<dots> = cov_loop ((pre @ ?o @ enclosed 1 ?v) @ suf) (length (pre @ ?o @ enclosed 1 ?v)) (fold after_change vs ?s\<lparr>cs_depth := 1\<rparr>)"
    using cov_at [OF is_tag_close_prim [of 1], of "pre @ ?o @ open_prim 1 @ ?v" suf "fold after_change vs ?s\<lparr>cs_depth := 2\<rparr>"]
    by (simp add: enclosed_def)
  also have "fold after_change vs ?s\<lparr>cs_depth := 1\<rparr> = after_monitored o' s"
    using assms(2) by (cases s) (simp add: after_monitored_def o' flip: fold_after_change_depth)
  finally show ?thesis by (simp add: monitored_octets_def o')
qed

lemma after_monitored_fields [simp]:
  "cs_depth (after_monitored o' s) = cs_depth s" "cs_index (after_monitored o' s) = cs_index s"
  by (simp_all add: after_monitored_def split: prod.splits)

lemma cov_objects:
  assumes "list_all monitored_fits os" "cs_depth s = 1" "cs_index s = None"
  shows "cov_loop (pre @ concat (map monitored_octets os) @ suf) (length pre) s =
    cov_loop ((pre @ concat (map monitored_octets os)) @ suf) (length (pre @ concat (map monitored_octets os))) (fold after_monitored os s)"
  using assms
proof (induction os arbitrary: pre s)
  case (Cons o' os)
  with cov_monitored [of o' s pre "concat (map monitored_octets os) @ suf"] Cons.IH [of "after_monitored o' s" "pre @ monitored_octets o'"]
  show ?case by simp
qed simp

lemma fold_after_change_cov:
  "cs_cov (fold after_change vs s) = (cs_cov s)\<lparr>cov_values := cov_values (cs_cov s) @
     map (\<lambda>(p, ix, octets). (cs_monitored s, Some p, ix, octets)) vs\<rparr>"
  by (induction vs arbitrary: s) (simp_all add: after_change_def split: prod.splits)

lemma fold_after_monitored_cov:
  "cs_cov (fold after_monitored os s) = (cs_cov s)\<lparr>cov_values := cov_values (cs_cov s) @ concat (map decoded_changes os)\<rparr>"
  by (induction os arbitrary: s) (simp_all add: after_monitored_def decoded_changes_def fold_after_change_cov split: prod.splits)

lemma fold_after_monitored_depth [simp]: "cs_depth (fold after_monitored os s) = cs_depth s"
  by (induction os arbitrary: s) simp_all

lemma cov_loop_parameters:
  assumes "cov_fits invoke a" "cs_depth s = 0" "cs_index s = None" "cov_values (cs_cov s) = []"
  shows "\<exists>s'. cov_loop (cov_parameters a) 0 s = Inr s' \<and> cs_cov s' = (cs_cov s)\<lparr>
    cov_process_identifier := Some (ca_process_identifier a),
    cov_initiating_device := Some (OBJECT_TYPE_DEVICE, ca_initiating_device a),
    cov_time_remaining := Some (ca_time_remaining a), cov_values := concat (map decoded_changes (ca_changes a))\<rparr>"
proof -
  have fits: "unsigned32 (ca_process_identifier a)" "object_range OBJECT_TYPE_DEVICE (ca_initiating_device a)"
      "unsigned32 (ca_time_remaining a)" "list_all monitored_fits (ca_changes a)"
    using assms(1) by (auto simp: cov_fits_def)
  let ?p = "ctx_prim 0 (u_octets (ca_process_identifier a))" and ?d = "ctx_prim 1 (oid OBJECT_TYPE_DEVICE (ca_initiating_device a))"
  let ?t = "ctx_prim 2 (u_octets (ca_time_remaining a))" and ?v = "concat (map monitored_octets (ca_changes a))"
  let ?e = "enclosed 4 ?v"
  define c where "c = (cs_cov s)\<lparr>cov_process_identifier := Some (ca_process_identifier a),
    cov_initiating_device := Some (OBJECT_TYPE_DEVICE, ca_initiating_device a), cov_time_remaining := Some (ca_time_remaining a)\<rparr>"
  define s1 where "s1 = s\<lparr>cs_cov := c\<rparr>"
  have id: "object_identifier (oid OBJECT_TYPE_DEVICE (ca_initiating_device a)) = Inr (OBJECT_TYPE_DEVICE, ca_initiating_device a)"
    using fits(2) by (rule object_identifier_oid)
  have "cov_loop (?p @ ?d @ ?t @ ?e) 0 s = cov_loop (?p @ ?d @ ?t @ ?e) (length (?p @ ?d @ ?t)) s1"
    using cov_at [OF is_tag_unsigned [of 0 "ca_process_identifier a"], of "[]" "?d @ ?t @ ?e" s]
      cov_at [OF is_tag_oid [of 1 OBJECT_TYPE_DEVICE "ca_initiating_device a"], of ?p "?t @ ?e"]
      cov_at [OF is_tag_unsigned [of 2 "ca_time_remaining a"], of "?p @ ?d" ?e] fits id assms(2)
    by (simp add: cov_field_def s1_def c_def)
  also have "\<dots> = cov_loop ((?p @ ?d @ ?t @ open_prim 4) @ ?v @ close_prim 4) (length (?p @ ?d @ ?t @ open_prim 4)) (s1\<lparr>cs_depth := 1\<rparr>)"
    using cov_at [OF is_tag_open_prim [of 4], of "?p @ ?d @ ?t" "?v @ close_prim 4" s1] assms(2) by (simp add: enclosed_def s1_def)
  also have "\<dots> = cov_loop ((?p @ ?d @ ?t @ open_prim 4 @ ?v) @ close_prim 4) (length (?p @ ?d @ ?t @ open_prim 4 @ ?v))
      (fold after_monitored (ca_changes a) (s1\<lparr>cs_depth := 1\<rparr>))"
    using cov_objects [OF fits(4), of "s1\<lparr>cs_depth := 1\<rparr>" "?p @ ?d @ ?t @ open_prim 4" "close_prim 4"] assms(3)
    by (simp add: s1_def)
  also have "\<dots> = cov_loop (?p @ ?d @ ?t @ ?e) (length (?p @ ?d @ ?t @ ?e)) (fold after_monitored (ca_changes a) (s1\<lparr>cs_depth := 1\<rparr>)\<lparr>cs_depth := 0\<rparr>)"
    using cov_at [OF is_tag_close_prim [of 4], of "?p @ ?d @ ?t @ open_prim 4 @ ?v" "[]"
        "fold after_monitored (ca_changes a) (s1\<lparr>cs_depth := 1\<rparr>)"]
    by (simp add: enclosed_def)
  also have "\<dots> = Inr (fold after_monitored (ca_changes a) (s1\<lparr>cs_depth := 1\<rparr>)\<lparr>cs_depth := 0\<rparr>)"
    by (subst cov_loop.simps) simp
  finally show ?thesis
    using assms(4) by (simp add: cov_parameters_def fold_after_monitored_cov s1_def c_def)
qed

section \<open>Claims\<close>

text \<open>C32: A COVNotificationMultiple, confirmed or not, is recognised as one and decodes to the process, the
  device and the time remaining it was made with, and to every changed property of every monitored
  object in order: the object, the property, its array index if it has one, and the octets of its value.\<close>
theorem cov_roundtrip:
  assumes "cov_fits invoke a"
  shows "\<exists>apdu. cov_notification invoke a = Inr apdu \<and> (\<forall>f. payload f = apdu \<and> network_message f = None \<longrightarrow>
    is_cov_notification_multiple f = Inr True \<and>
    CovNotificationMultiple f = Inr \<lparr>cov_frame = f, cov_confirmed = (invoke \<noteq> None),
      cov_process_identifier = Some (ca_process_identifier a),
      cov_initiating_device = Some (OBJECT_TYPE_DEVICE, ca_initiating_device a),
      cov_time_remaining = Some (ca_time_remaining a), cov_values = concat (map decoded_changes (ca_changes a))\<rparr>)"
proof (intro exI conjI allI impI)
  show "cov_notification invoke a = Inr (cov_head invoke @ cov_parameters a)" by (rule cov_notification_eq [OF assms])
  fix f :: frame
  assume f: "payload f = cov_head invoke @ cov_parameters a \<and> network_message f = None"
  have iid: "unsigned8 iid" if "invoke = Some iid" for iid using assms that by (simp add: cov_fits_def)
  have t: "pdu_type f = Some (if invoke = None then PDU_UNCONFIRMED_REQUEST else PDU_CONFIRMED_REQUEST)"
    using f by (auto simp: pdu_type_def cov_head_def drop_bit_eq_div split: option.splits)
  with f show "is_cov_notification_multiple f = Inr True"
    by (auto simp: is_cov_notification_multiple_def is_service_def service_def cov_head_def cov_parameters_def enclosed_def
        open_prim_def uint_octet_of split: option.splits)
  let ?c = "\<lparr>cov_frame = f, cov_confirmed = (invoke \<noteq> None), cov_process_identifier = None, cov_initiating_device = None,
    cov_time_remaining = None, cov_values = []\<rparr>"
  obtain s where "cov_loop (cov_parameters a) 0 \<lparr>cs_cov = ?c, cs_depth = 0, cs_monitored = None, cs_property = None, cs_index = None\<rparr> = Inr s"
    "cs_cov s = ?c\<lparr>cov_process_identifier := Some (ca_process_identifier a),
      cov_initiating_device := Some (OBJECT_TYPE_DEVICE, ca_initiating_device a),
      cov_time_remaining := Some (ca_time_remaining a), cov_values := concat (map decoded_changes (ca_changes a))\<rparr>"
    using cov_loop_parameters [OF assms, of "\<lparr>cs_cov = ?c, cs_depth = 0, cs_monitored = None, cs_property = None, cs_index = None\<rparr>"]
    by auto
  with f t show "CovNotificationMultiple f = Inr \<lparr>cov_frame = f, cov_confirmed = (invoke \<noteq> None),
      cov_process_identifier = Some (ca_process_identifier a),
      cov_initiating_device = Some (OBJECT_TYPE_DEVICE, ca_initiating_device a),
      cov_time_remaining = Some (ca_time_remaining a), cov_values = concat (map decoded_changes (ca_changes a))\<rparr>"
    by (cases invoke) (simp_all add: CovNotificationMultiple_def cov_head_def Let_def)
qed

definition example_cov :: cov_args where
  "example_cov = \<lparr>ca_process_identifier = 12, ca_initiating_device = 8001, ca_time_remaining = 300,
     ca_changes = [(0, 1, [(85, None, [0x44, 0x42, 0xC8, 0, 0]), (87, Some 8, [0x00])]), (5, 2, [(85, None, [0x91, 1])])]\<rparr>"

theorem cov_roundtrip_witness:
  "\<exists>c. CovNotificationMultiple (example_frame (cov_notification (Some 9) example_cov)) = Inr c \<and> cov_confirmed c \<and>
    cov_values c = [(Some (0, 1), Some 85, None, [0x44, 0x42, 0xC8, 0, 0]), (Some (0, 1), Some 87, Some 8, [0x00]),
      (Some (5, 2), Some 85, None, [0x91, 1])]"
proof -
  let ?f = "example_frame (cov_notification (Some 9) example_cov)"
  have "cov_fits (Some 9) example_cov" by code_simp
  moreover have "cov_notification (Some 9) example_cov = Inr (payload ?f)" "network_message ?f = None" by code_simp+
  ultimately show ?thesis
    using cov_roundtrip [of "Some 9" example_cov] by (auto simp: example_cov_def decoded_changes_def)
qed

end
