(* ===== verification/Decode_Safety.thy ===== *)
theory Decode_Safety
  imports Codec_Decode
begin

text \<open>
  The decoders of \<^verbatim>\<open>src/wiretest/codec.py\<close> on arbitrary octets: which exceptions they can
  raise, and what the values they return look like. \<open>raises_only\<close> is carried through sequencing the way
  the code is put together.
\<close>

section \<open>Exceptions\<close>

definition raises_only :: "py_error set \<Rightarrow> 'a result \<Rightarrow> bool" where
  "raises_only es r \<longleftrightarrow> (\<forall>e. r = Inl e \<longrightarrow> e \<in> es)"

named_theorems raises_intros \<open>exceptions of decoders\<close>

text \<open>What a scan of tagged octets can raise: a missing octet, a cut length, a BOOLEAN of more than 255.\<close>

abbreviation (input) scan_errors :: "py_error set" where
  "scan_errors \<equiv> {IndexError, StructError, ValueError}"

lemma raises_Inr [raises_intros]: "raises_only es (Inr x)"
  by (simp add: raises_only_def)

lemma raises_bind [raises_intros]:
  "raises_only es m \<Longrightarrow> (\<And>x. m = Inr x \<Longrightarrow> raises_only es (f x)) \<Longrightarrow> raises_only es (rbind m f)"
  by (cases m) (simp_all add: raises_only_def)

lemma raises_if [raises_intros]:
  "(b \<Longrightarrow> raises_only es m) \<Longrightarrow> (\<not> b \<Longrightarrow> raises_only es n) \<Longrightarrow> raises_only es (if b then m else n)"
  by simp

lemma raises_prod [raises_intros]:
  "(\<And>a b. v = (a, b) \<Longrightarrow> raises_only es (f a b)) \<Longrightarrow> raises_only es (case v of (a, b) \<Rightarrow> f a b)"
  by (cases v) simp

lemma raises_prod_app [raises_intros]:
  "(\<And>a b. v = (a, b) \<Longrightarrow> raises_only es (f a b x)) \<Longrightarrow> raises_only es ((case v of (a, b) \<Rightarrow> f a b) x)"
  by (cases v) simp

lemma raises_option [raises_intros]:
  "(v = None \<Longrightarrow> raises_only es m) \<Longrightarrow> (\<And>x. v = Some x \<Longrightarrow> raises_only es (n x)) \<Longrightarrow>
   raises_only es (case v of None \<Rightarrow> m | Some x \<Rightarrow> n x)"
  by (cases v) auto

lemma raises_index [raises_intros]: "raises_only scan_errors (index data p)"
  by (simp add: raises_only_def index_def)

lemma raises_unpack [raises_intros]:
  "raises_only scan_errors (unpack_H bs)" "raises_only scan_errors (unpack_I bs)"
  "raises_only scan_errors (unpack_f bs)" "raises_only scan_errors (unpack_d bs)"
  by (simp_all add: raises_only_def unpack_H_def unpack_I_def unpack_f_def unpack_d_def)

lemma raises_py_bytes [raises_intros]: "raises_only scan_errors (py_bytes ns)"
  by (simp add: raises_only_def py_bytes_def)

lemma raises_read_tag [raises_intros]: "raises_only scan_errors (read_tag data p)"
  unfolding read_tag_def tag_number_field_def tag_content_def extended_length_def
  by (intro raises_intros)

lemma raises_kind [raises_intros]:
  "(k = Open \<Longrightarrow> raises_only es a) \<Longrightarrow> (k = Close \<Longrightarrow> raises_only es b) \<Longrightarrow> (k = Value \<Longrightarrow> raises_only es c) \<Longrightarrow>
   raises_only es (case k of Open \<Rightarrow> a | Close \<Rightarrow> b | Value \<Rightarrow> c)"
  by (cases k) auto

lemma raises_close_of [raises_intros]: "raises_only scan_errors (close_of data d p)"
proof (induction data d p rule: close_of.induct)
  case (1 data d p)
  show ?case
    by (subst close_of.simps) (intro raises_intros "1.IH")
qed

text \<open>A loop whose step keeps an invariant, and only raises what a scan raises where the invariant holds.\<close>

lemma raises_tag_loop_inv:
  assumes "\<And>p t acc. I acc \<Longrightarrow> raises_only scan_errors (step p t acc)"
    and "\<And>p t acc acc'. I acc \<Longrightarrow> step p t acc = Inr acc' \<Longrightarrow> I acc'" and "I acc"
  shows "raises_only scan_errors (tag_loop data step p acc)"
  using assms
proof (induction data step p acc rule: tag_loop.induct)
  case (1 data step p acc)
  have step: "raises_only scan_errors (step p t acc)" for t by (rule "1.prems"(1) [OF "1.prems"(3)])
  have rest: "raises_only scan_errors (tag_loop data step (tag_next t) acc')"
    if "p < length data" "read_tag data p = Inr t" "step p t acc = Inr acc'" for t acc'
    by (rule "1.IH" [OF that]) (use "1.prems" that(3) in blast)+
  show ?case
    by (subst tag_loop.simps) (intro raises_if raises_bind raises_Inr raises_read_tag step rest)
qed

lemma raises_tag_loop [raises_intros]:
  assumes "\<And>p t acc. raises_only scan_errors (step p t acc)"
  shows "raises_only scan_errors (tag_loop data step p acc)"
  by (rule raises_tag_loop_inv [where I = "\<lambda>_. True"]) (use assms in auto)

text \<open>Every decoder that scans tags.\<close>

lemma raises_decode_bits [raises_intros]: "raises_only scan_errors (decode_bits body)"
  unfolding decode_bits_def Let_def by (intro raises_intros)

lemma raises_decode_application [raises_intros]: "raises_only scan_errors (decode_application octets)"
  unfolding decode_application_def decode_body_def by (intro raises_intros)

lemma raises_scans [raises_intros]:
  "raises_only scan_errors (application_elements octets)" "raises_only scan_errors (application_values octets)"
  "raises_only scan_errors (context_values octets)" "raises_only scan_errors (decoded_values octets)"
  "raises_only scan_errors (application_tag octets)"
  unfolding application_elements_def application_values_def context_values_def decoded_values_def application_tag_def
  by (intro raises_intros)+

lemma raises_read_property_value [raises_intros]: "raises_only scan_errors (read_property_value apdu)"
proof -
  have "raises_only scan_errors (read_property_value_from apdu p)" for p
  proof (induction apdu p rule: read_property_value_from.induct)
    case (1 apdu p)
    show ?case by (subst read_property_value_from.simps) (intro raises_intros "1.IH")
  qed
  then show ?thesis by (simp add: read_property_value_def)
qed

lemma raises_except_none: "raises_only scan_errors m \<Longrightarrow> raises_only {ValueError} (except_none m)"
  by (cases m) (auto simp: except_none_def raises_only_def)

lemma raises_object_and_property [raises_intros]: "raises_only scan_errors (read_object_and_property apdu)"
  unfolding read_object_and_property_def by (intro raises_intros)

text \<open>In \<open>read_access_specifications\<close> the current object is always a key of the dictionary.\<close>

lemma raises_read_access_specifications [raises_intros]: "raises_only scan_errors (read_access_specifications v)"
proof -
  define I :: "members \<times> object_ref option \<Rightarrow> bool" where
    "I = (\<lambda>(members, current). case current of None \<Rightarrow> True | Some key \<Rightarrow> map_of members key \<noteq> None)"
  have r: "raises_only scan_errors (members_step p t s)" if "I s" for p t s
    using that unfolding members_step_def
    by (auto intro!: raises_intros simp: I_def Let_def split: prod.splits option.splits)
  have k: "I s'" if "I s" "members_step p t s = Inr s'" for p t s s'
    using that unfolding members_step_def
    by (auto simp: I_def Let_def rbind_eq_Inr update_conv split: prod.splits option.splits if_splits)
  have "raises_only scan_errors (tag_loop v members_step 0 ([], None))"
    by (rule raises_tag_loop_inv [where I = I]) (use r k in \<open>auto simp: I_def\<close>)
  then show ?thesis unfolding read_access_specifications_def by (intro raises_bind raises_prod raises_Inr)
qed

text \<open>The decoding of a frame reads its octets by index and by \<open>struct\<close> only.\<close>

lemma raises_net_address: "raises_only {IndexError, StructError} (net_address octets position)"
  by (simp add: raises_only_def net_address_def Let_def)

lemma raises_index': "raises_only {IndexError, StructError} (index data p)"
  by (simp add: raises_only_def index_def)

lemma raises_Frame: "raises_only {IndexError, StructError} (Frame data source)"
  unfolding Frame_def decode_frame_def decode_npdu_def decode_destination_def decode_source_def decode_message_def Let_def
  by (intro raises_Inr raises_bind raises_if raises_prod raises_net_address raises_index')

section \<open>Types of values\<close>

text \<open>The code points of a Python string that UTF-8 can carry.\<close>

definition is_char :: "nat \<Rightarrow> bool" where
  "is_char c \<longleftrightarrow> c < 0xD800 \<or> 0xE000 \<le> c \<and> c < 0x110000"

lemma utf8_tail_value:
  assumes "0x80 \<le> lo" "hi \<le> 0xBF"
  shows "fst (utf8_tail (Suc k) lo hi acc bs) = 0xFFFD \<or>
    acc * 64 ^ Suc k + (lo - 0x80) * 64 ^ k \<le> fst (utf8_tail (Suc k) lo hi acc bs) \<and>
    fst (utf8_tail (Suc k) lo hi acc bs) < acc * 64 ^ Suc k + (hi - 0x7F) * 64 ^ k"
  using assms
proof (induction k arbitrary: lo hi acc bs)
  case 0
  then show ?case by (cases bs) (auto simp: less_Suc_eq_le)
next
  case (Suc k)
  show ?case
  proof (cases bs)
    case (Cons c cs)
    show ?thesis
    proof (cases "lo \<le> unat c \<and> unat c \<le> hi")
      case True
      let ?acc = "acc * 64 + (unat c - 0x80)"
      have "?acc * 64 ^ Suc k \<ge> acc * 64 ^ Suc (Suc k) + (lo - 0x80) * 64 ^ Suc k"
      proof -
        have "(lo - 0x80) * 64 ^ Suc k \<le> (unat c - 0x80) * 64 ^ Suc k" by (rule mult_le_mono1) (use True in \<open>simp add: diff_le_mono\<close>)
        then show ?thesis by (simp add: add_mult_distrib)
      qed
      moreover have "?acc * 64 ^ Suc k + 64 * 64 ^ k \<le> acc * 64 ^ Suc (Suc k) + (hi - 0x7F) * 64 ^ Suc k"
      proof -
        have "unat c - 0x80 + 1 \<le> hi - 0x7F" using True Suc.prems by linarith
        then have "(unat c - 0x80 + 1) * 64 ^ Suc k \<le> (hi - 0x7F) * 64 ^ Suc k" by (rule mult_le_mono1)
        then show ?thesis by (simp add: algebra_simps)
      qed
      ultimately show ?thesis
        using Suc.IH [of "0x80" "0xBF" ?acc cs] True Cons by (auto simp del: power_Suc)
    qed (use Cons in auto)
  qed simp
qed

lemma utf8_tail_char:
  "a < 0x20 \<Longrightarrow> is_char (fst (utf8_tail 1 0x80 0xBF a bs))"
  "is_char (fst (utf8_tail 2 0xA0 0xBF 0 bs))" "is_char (fst (utf8_tail 2 0x80 0x9F 0xD bs))"
  "a < 0xD \<or> a = 0xE \<or> a = 0xF \<Longrightarrow> is_char (fst (utf8_tail 2 0x80 0xBF a bs))"
  "is_char (fst (utf8_tail 3 0x90 0xBF 0 bs))" "0 < a \<Longrightarrow> a < 4 \<Longrightarrow> is_char (fst (utf8_tail 3 0x80 0xBF a bs))"
  "is_char (fst (utf8_tail 3 0x80 0x8F 4 bs))"
  using utf8_tail_value [of "0x80" "0xBF" 0 a bs] utf8_tail_value [of "0xA0" "0xBF" 1 0 bs]
    utf8_tail_value [of "0x80" "0x9F" 1 "0xD" bs] utf8_tail_value [of "0x80" "0xBF" 1 a bs]
    utf8_tail_value [of "0x90" "0xBF" 2 0 bs] utf8_tail_value [of "0x80" "0xBF" 2 a bs]
    utf8_tail_value [of "0x80" "0x8F" 2 4 bs]
  by (simp_all add: is_char_def del: utf8_tail.simps flip: numeral_2_eq_2 numeral_3_eq_3) linarith+

lemma utf8_lead_char:
  assumes "b < 256"
  shows "is_char (fst (utf8_lead b bs))"
proof -
  consider (one) "b < 0x80" | (two) "0xC2 \<le> b" "b \<le> 0xDF" | (three) "0xE1 \<le> b" "b \<le> 0xEF" "b \<noteq> 0xED"
    | (four) "0xF1 \<le> b" "b \<le> 0xF3" | (first) "b \<in> {0xE0, 0xED, 0xF0, 0xF4}" | (ill) "0x80 \<le> b" "b < 0xC2 \<or> 0xF4 < b"
    by force
  then show ?thesis
  proof cases
    case one
    then show ?thesis by (simp add: utf8_lead_def is_char_def)
  next
    case two
    then have "b - 0xC0 < 0x20" by simp
    from utf8_tail_char(1) [OF this, of bs] two show ?thesis by (simp add: utf8_lead_def)
  next
    case three
    then have "b - 0xE0 < 0xD \<or> b - 0xE0 = 0xE \<or> b - 0xE0 = 0xF" by linarith
    from utf8_tail_char(4) [OF this, of bs] three show ?thesis by (simp add: utf8_lead_def)
  next
    case four
    then have "0 < b - 0xF0" "b - 0xF0 < 4" by simp_all
    from utf8_tail_char(6) [OF this, of bs] four show ?thesis by (simp add: utf8_lead_def)
  next
    case first
    then show ?thesis using utf8_tail_char by (auto simp: utf8_lead_def)
  next
    case ill
    then have "utf8_lead b bs = (0xFFFD, bs)" by (auto simp: utf8_lead_def)
    then show ?thesis by (simp add: is_char_def)
  qed
qed

lemma utf8_decode_chars: "list_all is_char (utf8_decode bs)"
  by (induction bs rule: utf8_decode.induct) (simp_all add: Let_def utf8_lead_char unsigned_less [where 'a = nat, of "_ :: 8 word", simplified])

text \<open>What a value decoded under an application tag looks like.\<close>

definition typed_as :: "int \<Rightarrow> py_value \<Rightarrow> bool" where
  "typed_as number v = (case v of
     PyNone \<Rightarrow> number = TAG_NULL
   | PyBool b \<Rightarrow> number = TAG_BOOLEAN
   | PyInt n \<Rightarrow> number \<in> {TAG_UNSIGNED, TAG_ENUMERATED} \<and> 0 \<le> n \<or> number = TAG_SIGNED
   | PyFloat x \<Rightarrow> number \<in> {TAG_REAL, TAG_DOUBLE}
   | PyStr s \<Rightarrow> number = TAG_CHARACTER_STRING \<and> list_all is_char s
   | PyBits bs \<Rightarrow> number = TAG_BIT_STRING
   | PyObject ot i \<Rightarrow> number = TAG_OBJECT_IDENTIFIER \<and> object_range ot i
   | PyBytes bs \<Rightarrow> number \<notin> {TAG_NULL, TAG_BOOLEAN, TAG_UNSIGNED, TAG_SIGNED, TAG_REAL, TAG_DOUBLE,
       TAG_CHARACTER_STRING, TAG_BIT_STRING, TAG_ENUMERATED, TAG_OBJECT_IDENTIFIER})"

lemma object_identifier_range:
  assumes "unpack_I body = Inr raw"
  shows "object_range (drop_bit 22 raw) (raw AND MAX_INSTANCE)"
proof -
  have "0 \<le> raw" "raw < 2 ^ 32"
    using assms from_bytes_less [of body] by (auto simp: unpack_I_def split: if_splits)
  moreover have "0 \<le> raw mod 4194304" "raw mod 4194304 < 4194304" "raw = 4194304 * (raw div 4194304) + raw mod 4194304"
    by simp_all
  moreover have "raw AND MAX_INSTANCE = raw mod 4194304" "drop_bit 22 raw = raw div 4194304"
    using take_bit_eq_mask [of 22 raw] by (simp_all add: take_bit_eq_mod mask_eq_exp_minus_1 drop_bit_eq_div)
  ultimately show ?thesis by auto
qed

lemma decode_body_typed: "decode_body number body = Inr v \<Longrightarrow> typed_as number v"
  unfolding decode_body_def
  by (auto simp: typed_as_def rbind_eq_Inr utf8_decode_chars split: if_splits dest: object_identifier_range)

lemma application_tag_is_value: "read_tag octets p = Inr t \<Longrightarrow> \<not> tag_context t \<Longrightarrow> tag_kind t = Value"
  by (auto simp: read_tag_def tag_content_def rbind_eq_Inr split: if_splits)

section \<open>Claims\<close>

text \<open>C33: When \<open>decode_application\<close> returns, the octets have a tag, and the value is of the type of that
  tag: \<open>None\<close> for NULL and for a context tag, a number that is not negative for Unsigned and Enumerated,
  a string of Unicode characters for CharacterString, an object type and instance in their ranges for
  ObjectIdentifier, and so on; octets only under the tags that have no type of their own.\<close>
theorem decode_application_typed:
  assumes "decode_application octets = Inr v"
  shows "\<exists>tag. application_tag octets = Inr tag \<and> (case tag of None \<Rightarrow> v = PyNone | Some n \<Rightarrow> typed_as n v)"
proof (cases "octets = []")
  case True
  with assms show ?thesis by (simp add: decode_application_def application_tag_def)
next
  case False
  with assms obtain t where t: "read_tag octets 0 = Inr t"
    and v: "(if tag_context t \<or> tag_kind t \<noteq> Value then Inr PyNone else decode_body (tag_number t) (tag_body t)) = Inr v"
    by (auto simp: decode_application_def rbind_eq_Inr)
  with False application_tag_is_value [OF t] show ?thesis
    by (auto simp: application_tag_def decode_body_typed split: if_splits)
qed

theorem decode_application_typed_witness:
  "\<exists>tag. application_tag [0xC4, 0x02, 0, 0, 0x07] = Inr tag \<and>
    (case tag of None \<Rightarrow> PyObject 8 7 = PyNone | Some n \<Rightarrow> typed_as n (PyObject 8 7))"
proof -
  have "decode_application [0xC4, 0x02, 0, 0, 0x07] = Inr (PyObject 8 7)" by code_simp
  then show ?thesis by (rule decode_application_typed)
qed

text \<open>The \<open>ValueError\<close> does occur: a WriteProperty whose value is a BOOLEAN of extended length 256.\<close>

lemma long_boolean_raises:
  "parse_write_property_request [0, 5, 1, 15, 0x0C, 0, 0x40, 0, 1, 0x19, 85, 0x3E, 0x15, 254, 1, 0, 0x3F] = Inl ValueError"
  by code_simp

text \<open>C18: On arbitrary octets the decoders raise nothing but \<open>IndexError\<close>, \<open>struct.error\<close> and the
  \<open>ValueError\<close> of an over-long BOOLEAN; the parsers of requests, which catch the first two, raise only the
  third, and do raise it for some WriteProperty; decoding a datagram raises only the first two.\<close>
theorem decoders_raise_only:
  "raises_only {ValueError} (parse_read_property_request apdu) \<and>
   raises_only {ValueError} (parse_read_property_request_indexed apdu) \<and>
   raises_only {ValueError} (parse_write_property_request apdu) \<and>
   raises_only {IndexError, StructError, ValueError} (read_property_value apdu) \<and>
   raises_only {IndexError, StructError, ValueError} (decoded_values octets) \<and>
   raises_only {IndexError, StructError, ValueError} (context_values octets) \<and>
   raises_only {IndexError, StructError, ValueError} (read_access_specifications octets) \<and>
   raises_only {IndexError, StructError, ValueError} (i_am_device_instance apdu) \<and>
   raises_only {IndexError, StructError, ValueError} (error_class_and_code apdu) \<and>
   raises_only {IndexError, StructError} (Frame data source) \<and>
   (\<exists>apdu. parse_write_property_request apdu = Inl ValueError)"
proof (intro conjI)
  show "raises_only {ValueError} (parse_read_property_request apdu)"
    unfolding parse_read_property_request_def by (intro raises_except_none raises_intros)
  show "raises_only {ValueError} (parse_read_property_request_indexed apdu)"
    unfolding parse_read_property_request_indexed_def by (intro raises_except_none raises_intros)
  show "raises_only {ValueError} (parse_write_property_request apdu)"
    unfolding parse_write_property_request_def Let_def by (intro raises_except_none raises_intros)
  show "raises_only {IndexError, StructError, ValueError} (i_am_device_instance apdu)"
    unfolding i_am_device_instance_def by (intro raises_intros)
  show "raises_only {IndexError, StructError, ValueError} (error_class_and_code apdu)"
    unfolding error_class_and_code_def by (intro raises_intros)
  show "\<exists>apdu. parse_write_property_request apdu = Inl ValueError" using long_boolean_raises by blast
qed (rule raises_read_property_value raises_scans raises_read_access_specifications raises_Frame)+

end
