(* ===== verification/Protocol_Numbers.thy ===== *)
theory Protocol_Numbers
  imports Alarm Services
begin

text \<open>
  The protocol numbers of \<^verbatim>\<open>codec.py\<close>, \<^verbatim>\<open>alarm.py\<close> and \<^verbatim>\<open>services.py\<close> as tables, one per
  enumeration of the standard, with the names the source gives them. Most of them reach the package only
  as arguments from a test, so what matters of them is that no two names of an enumeration share a
  number, that every number fits where the encoders put it, and that it is read back there.
\<close>

type_synonym numbers = "(string \<times> int) list"

section \<open>The tables\<close>

text \<open>The BVLL functions.\<close>

definition bvlc_functions :: numbers where
  "bvlc_functions =
    [(''BVLC_RESULT'', BVLC_RESULT),
     (''BVLC_WRITE_BROADCAST_DISTRIBUTION_TABLE'', BVLC_WRITE_BROADCAST_DISTRIBUTION_TABLE),
     (''BVLC_READ_BROADCAST_DISTRIBUTION_TABLE'', BVLC_READ_BROADCAST_DISTRIBUTION_TABLE),
     (''BVLC_READ_BROADCAST_DISTRIBUTION_TABLE_ACK'', BVLC_READ_BROADCAST_DISTRIBUTION_TABLE_ACK),
     (''BVLC_FORWARDED_NPDU'', BVLC_FORWARDED_NPDU),
     (''BVLC_REGISTER_FOREIGN_DEVICE'', BVLC_REGISTER_FOREIGN_DEVICE),
     (''BVLC_READ_FOREIGN_DEVICE_TABLE'', BVLC_READ_FOREIGN_DEVICE_TABLE),
     (''BVLC_READ_FOREIGN_DEVICE_TABLE_ACK'', BVLC_READ_FOREIGN_DEVICE_TABLE_ACK),
     (''BVLC_DELETE_FOREIGN_DEVICE_TABLE_ENTRY'', BVLC_DELETE_FOREIGN_DEVICE_TABLE_ENTRY),
     (''BVLC_DISTRIBUTE_BROADCAST_TO_NETWORK'', BVLC_DISTRIBUTE_BROADCAST_TO_NETWORK),
     (''BVLC_ORIGINAL_UNICAST'', BVLC_ORIGINAL_UNICAST), (''BVLC_ORIGINAL_BROADCAST'', BVLC_ORIGINAL_BROADCAST)]"

text \<open>The result codes of a BVLC-Result.\<close>

definition bvlc_result_codes :: numbers where
  "bvlc_result_codes =
    [(''BVLC_RESULT_SUCCESSFUL_COMPLETION'', 0x0), (''BVLC_RESULT_WRITE_BDT_NAK'', 0x10),
     (''BVLC_RESULT_READ_BDT_NAK'', 0x20), (''BVLC_RESULT_REGISTER_FOREIGN_DEVICE_NAK'', 0x30),
     (''BVLC_RESULT_READ_FDT_NAK'', 0x40), (''BVLC_RESULT_DELETE_FDT_ENTRY_NAK'', 0x50),
     (''BVLC_RESULT_DISTRIBUTE_BROADCAST_TO_NETWORK_NAK'', 0x60)]"

text \<open>The message types of the network layer.\<close>

definition network_layer_messages :: numbers where
  "network_layer_messages =
    [(''NL_WHO_IS_ROUTER_TO_NETWORK'', 0x0), (''NL_I_AM_ROUTER_TO_NETWORK'', 0x1),
     (''NL_REJECT_MESSAGE_TO_NETWORK'', 0x3), (''NL_WHAT_IS_NETWORK_NUMBER'', 0x12),
     (''NL_NETWORK_NUMBER_IS'', 0x13)]"

text \<open>The PDU types.\<close>

definition pdu_types :: numbers where
  "pdu_types =
    [(''PDU_CONFIRMED_REQUEST'', PDU_CONFIRMED_REQUEST), (''PDU_UNCONFIRMED_REQUEST'', PDU_UNCONFIRMED_REQUEST),
     (''PDU_SIMPLE_ACK'', PDU_SIMPLE_ACK), (''PDU_COMPLEX_ACK'', PDU_COMPLEX_ACK), (''PDU_ERROR'', PDU_ERROR),
     (''PDU_REJECT'', PDU_REJECT), (''PDU_ABORT'', PDU_ABORT)]"

text \<open>The confirmed service choices of the three modules.\<close>

definition codec_confirmed_services :: numbers where
  "codec_confirmed_services =
    [(''SERVICE_ADD_LIST_ELEMENT'', 8), (''SERVICE_REMOVE_LIST_ELEMENT'', 9),
     (''SERVICE_READ_PROPERTY'', SERVICE_READ_PROPERTY), (''SERVICE_WRITE_PROPERTY'', SERVICE_WRITE_PROPERTY),
     (''SERVICE_READ_PROPERTY_MULTIPLE'', SERVICE_READ_PROPERTY_MULTIPLE),
     (''SERVICE_REINITIALIZE_DEVICE'', SERVICE_REINITIALIZE_DEVICE)]"

definition alarm_confirmed_services :: numbers where
  "alarm_confirmed_services =
    [(''SERVICE_ACKNOWLEDGE_ALARM'', SERVICE_ACKNOWLEDGE_ALARM),
     (''SERVICE_CONFIRMED_EVENT_NOTIFICATION'', SERVICE_CONFIRMED_EVENT_NOTIFICATION),
     (''SERVICE_DEVICE_COMMUNICATION_CONTROL'', SERVICE_DEVICE_COMMUNICATION_CONTROL),
     (''SERVICE_GET_EVENT_INFORMATION'', SERVICE_GET_EVENT_INFORMATION)]"

definition services_confirmed_services :: numbers where
  "services_confirmed_services =
    [(''SERVICE_ATOMIC_READ_FILE'', SERVICE_ATOMIC_READ_FILE),
     (''SERVICE_ATOMIC_WRITE_FILE'', SERVICE_ATOMIC_WRITE_FILE),
     (''SERVICE_CREATE_OBJECT'', SERVICE_CREATE_OBJECT), (''SERVICE_DELETE_OBJECT'', SERVICE_DELETE_OBJECT),
     (''SERVICE_READ_RANGE'', SERVICE_READ_RANGE),
     (''SERVICE_LIFE_SAFETY_OPERATION'', SERVICE_LIFE_SAFETY_OPERATION),
     (''SERVICE_SUBSCRIBE_COV_PROPERTY_MULTIPLE'', SERVICE_SUBSCRIBE_COV_PROPERTY_MULTIPLE),
     (''SERVICE_CONFIRMED_COV_NOTIFICATION_MULTIPLE'', SERVICE_CONFIRMED_COV_NOTIFICATION_MULTIPLE)]"

text \<open>The unconfirmed service choices of the three modules.\<close>

definition codec_unconfirmed_services :: numbers where
  "codec_unconfirmed_services =
    [(''SERVICE_I_AM'', SERVICE_I_AM), (''SERVICE_WHO_IS'', SERVICE_WHO_IS),
     (''SERVICE_WRITE_GROUP'', SERVICE_WRITE_GROUP)]"

definition alarm_unconfirmed_services :: numbers where
  "alarm_unconfirmed_services =
    [(''SERVICE_UNCONFIRMED_EVENT_NOTIFICATION'', SERVICE_UNCONFIRMED_EVENT_NOTIFICATION),
     (''SERVICE_TIME_SYNCHRONIZATION'', SERVICE_TIME_SYNCHRONIZATION)]"

definition services_unconfirmed_services :: numbers where
  "services_unconfirmed_services =
    [(''SERVICE_UNCONFIRMED_COV_NOTIFICATION_MULTIPLE'', SERVICE_UNCONFIRMED_COV_NOTIFICATION_MULTIPLE)]"

text \<open>The states of ReinitializeDevice, object types and properties.\<close>

definition reinitialize_states :: numbers where
  "reinitialize_states =
    [(''REINITIALIZE_COLDSTART'', 0), (''REINITIALIZE_WARMSTART'', 1), (''REINITIALIZE_START_BACKUP'', 2),
     (''REINITIALIZE_END_BACKUP'', 3), (''REINITIALIZE_START_RESTORE'', 4), (''REINITIALIZE_END_RESTORE'', 5),
     (''REINITIALIZE_ABORT_RESTORE'', 6), (''REINITIALIZE_ACTIVATE_CHANGES'', 7)]"

definition object_types :: numbers where
  "object_types =
    [(''OBJECT_TYPE_ANALOG_INPUT'', 0), (''OBJECT_TYPE_ANALOG_OUTPUT'', 1), (''OBJECT_TYPE_ANALOG_VALUE'', 2),
     (''OBJECT_TYPE_BINARY_INPUT'', 3), (''OBJECT_TYPE_BINARY_OUTPUT'', 4), (''OBJECT_TYPE_BINARY_VALUE'', 5),
     (''OBJECT_TYPE_CALENDAR'', 6), (''OBJECT_TYPE_DEVICE'', OBJECT_TYPE_DEVICE),
     (''OBJECT_TYPE_FILE'', OBJECT_TYPE_FILE), (''OBJECT_TYPE_GROUP'', 11),
     (''OBJECT_TYPE_MULTI_STATE_INPUT'', 13), (''OBJECT_TYPE_MULTI_STATE_OUTPUT'', 14),
     (''OBJECT_TYPE_NOTIFICATION_CLASS'', 15), (''OBJECT_TYPE_SCHEDULE'', 17),
     (''OBJECT_TYPE_MULTI_STATE_VALUE'', 19), (''OBJECT_TYPE_LIFE_SAFETY_POINT'', 21),
     (''OBJECT_TYPE_LIFE_SAFETY_ZONE'', 22), (''OBJECT_TYPE_EVENT_LOG'', 25),
     (''OBJECT_TYPE_LIGHTING_OUTPUT'', 54), (''OBJECT_TYPE_NETWORK_PORT'', 56),
     (''OBJECT_TYPE_ELEVATOR_GROUP'', 57), (''OBJECT_TYPE_ESCALATOR'', 58), (''OBJECT_TYPE_LIFT'', 59)]"

definition properties :: numbers where
  "properties =
    [(''PROPERTY_DESCRIPTION'', 28), (''PROPERTY_DEVICE_ADDRESS_BINDING'', 30), (''PROPERTY_EVENT_STATE'', 36),
     (''PROPERTY_LIST_OF_GROUP_MEMBERS'', 53), (''PROPERTY_LIST_OF_OBJECT_PROPERTY_REFERENCES'', 54),
     (''PROPERTY_NUMBER_OF_APDU_RETRIES'', 73), (''PROPERTY_OBJECT_IDENTIFIER'', PROPERTY_OBJECT_IDENTIFIER),
     (''PROPERTY_OBJECT_LIST'', 76), (''PROPERTY_OBJECT_NAME'', PROPERTY_OBJECT_NAME),
     (''PROPERTY_OUT_OF_SERVICE'', 81), (''PROPERTY_PRESENT_VALUE'', PROPERTY_PRESENT_VALUE),
     (''PROPERTY_PRIORITY_ARRAY'', 87), (''PROPERTY_RELIABILITY'', 103), (''PROPERTY_RELINQUISH_DEFAULT'', 104),
     (''PROPERTY_STATE_TEXT'', 110), (''PROPERTY_STATUS_FLAGS'', 111), (''PROPERTY_SYSTEM_STATUS'', 112),
     (''PROPERTY_UNITS'', 117), (''PROPERTY_LOG_BUFFER'', 131), (''PROPERTY_ENABLE'', 133),
     (''PROPERTY_RECORD_COUNT'', 141), (''PROPERTY_TOTAL_RECORD_COUNT'', 145), (''PROPERTY_MODE'', 160),
     (''PROPERTY_OPERATION_EXPECTED'', 161), (''PROPERTY_SILENCED'', 163), (''PROPERTY_TRACKING_VALUE'', 164),
     (''PROPERTY_ZONE_MEMBERS'', 165), (''PROPERTY_PROPERTY_LIST'', 371), (''PROPERTY_LIGHTING_COMMAND'', 380),
     (''PROPERTY_NETWORK_NUMBER'', 425), (''PROPERTY_NETWORK_NUMBER_QUALITY'', 426),
     (''PROPERTY_CURRENT_COMMAND_PRIORITY'', 431), (''PROPERTY_ASSIGNED_LANDING_CALLS'', 447),
     (''PROPERTY_LANDING_CALLS'', 470), (''PROPERTY_LANDING_CALL_CONTROL'', 471)]"

definition alarm_properties :: numbers where
  "alarm_properties =
    [(''PROPERTY_ACKED_TRANSITIONS'', 0), (''PROPERTY_EVENT_STATE'', 36), (''PROPERTY_EVENT_TIME_STAMPS'', 130),
     (''PROPERTY_LOCAL_DATE'', 56), (''PROPERTY_LOCAL_TIME'', 57), (''PROPERTY_RECIPIENT_LIST'', 102)]"

text \<open>Error classes and codes.\<close>

definition error_classes :: numbers where
  "error_classes =
    [(''ERROR_CLASS_DEVICE'', 0), (''ERROR_CLASS_OBJECT'', ERROR_CLASS_OBJECT),
     (''ERROR_CLASS_PROPERTY'', ERROR_CLASS_PROPERTY), (''ERROR_CLASS_RESOURCES'', 3),
     (''ERROR_CLASS_SECURITY'', 4), (''ERROR_CLASS_SERVICES'', 5)]"

definition error_codes :: numbers where
  "error_codes =
    [(''ERROR_CODE_DYNAMIC_CREATION_NOT_SUPPORTED'', 4), (''ERROR_CODE_NO_SPACE_FOR_OBJECT'', 18),
     (''ERROR_CODE_OBJECT_DELETION_NOT_PERMITTED'', 23), (''ERROR_CODE_OBJECT_IDENTIFIER_ALREADY_EXISTS'', 24),
     (''ERROR_CODE_PASSWORD_FAILURE'', 26), (''ERROR_CODE_SERVICE_REQUEST_DENIED'', 29),
     (''ERROR_CODE_UNKNOWN_OBJECT'', ERROR_CODE_UNKNOWN_OBJECT),
     (''ERROR_CODE_UNKNOWN_PROPERTY'', ERROR_CODE_UNKNOWN_PROPERTY), (''ERROR_CODE_UNSUPPORTED_OBJECT_TYPE'', 36),
     (''ERROR_CODE_VALUE_OUT_OF_RANGE'', 37),
     (''ERROR_CODE_WRITE_ACCESS_DENIED'', ERROR_CODE_WRITE_ACCESS_DENIED),
     (''ERROR_CODE_INVALID_ARRAY_INDEX'', ERROR_CODE_INVALID_ARRAY_INDEX),
     (''ERROR_CODE_LIST_ELEMENT_NOT_FOUND'', 81), (''ERROR_CODE_BUSY'', 82),
     (''ERROR_CODE_INVALID_OPERATION_IN_THIS_STATE'', 139)]"

definition alarm_error_codes :: numbers where
  "alarm_error_codes =
    [(''ERROR_CODE_INVALID_TIMESTAMP'', 14), (''ERROR_CODE_PASSWORD_FAILURE'', 26),
     (''ERROR_CODE_SERVICE_REQUEST_DENIED'', 29)]"

text \<open>Enumerated values.\<close>

definition reliabilities :: numbers where
  "reliabilities =
    [(''RELIABILITY_NO_FAULT_DETECTED'', 0), (''RELIABILITY_UNRELIABLE_OTHER'', 7),
     (''RELIABILITY_MULTI_STATE_FAULT'', 9), (''RELIABILITY_COMMUNICATION_FAILURE'', 12)]"

definition device_statuses :: numbers where
  "device_statuses =
    [(''DEVICE_STATUS_OPERATIONAL'', 0), (''DEVICE_STATUS_BACKUP_IN_PROGRESS'', 5)]"

definition status_flag_positions :: numbers where
  "status_flag_positions =
    [(''STATUS_FLAG_IN_ALARM'', 0), (''STATUS_FLAG_FAULT'', 1), (''STATUS_FLAG_OVERRIDDEN'', 2),
     (''STATUS_FLAG_OUT_OF_SERVICE'', 3)]"

definition application_tags :: numbers where
  "application_tags =
    [(''TAG_NULL'', TAG_NULL), (''TAG_BOOLEAN'', TAG_BOOLEAN), (''TAG_UNSIGNED'', TAG_UNSIGNED),
     (''TAG_SIGNED'', TAG_SIGNED), (''TAG_REAL'', TAG_REAL), (''TAG_DOUBLE'', TAG_DOUBLE),
     (''TAG_OCTET_STRING'', 6), (''TAG_CHARACTER_STRING'', TAG_CHARACTER_STRING),
     (''TAG_BIT_STRING'', TAG_BIT_STRING), (''TAG_ENUMERATED'', TAG_ENUMERATED),
     (''TAG_OBJECT_IDENTIFIER'', TAG_OBJECT_IDENTIFIER)]"

definition event_states :: numbers where
  "event_states =
    [(''EVENT_STATE_NORMAL'', EVENT_STATE_NORMAL), (''EVENT_STATE_FAULT'', 1), (''EVENT_STATE_OFFNORMAL'', 2),
     (''EVENT_STATE_HIGH_LIMIT'', 3), (''EVENT_STATE_LOW_LIMIT'', 4), (''EVENT_STATE_LIFE_SAFETY_ALARM'', 5)]"

definition notify_types :: numbers where
  "notify_types =
    [(''NOTIFY_TYPE_ALARM'', 0), (''NOTIFY_TYPE_EVENT'', 1),
     (''NOTIFY_TYPE_ACK_NOTIFICATION'', NOTIFY_TYPE_ACK_NOTIFICATION)]"

definition event_types :: numbers where
  "event_types =
    [(''EVENT_TYPE_CHANGE_OF_STATE'', 1), (''EVENT_TYPE_OUT_OF_RANGE'', EVENT_TYPE_OUT_OF_RANGE),
     (''EVENT_TYPE_CHANGE_OF_LIFE_SAFETY'', 8), (''EVENT_TYPE_CHANGE_OF_RELIABILITY'', 19)]"

definition transition_bits :: numbers where
  "transition_bits =
    [(''TO_OFFNORMAL'', 0), (''TO_FAULT'', 1), (''TO_NORMAL'', 2)]"

definition dcc_choices :: numbers where
  "dcc_choices =
    [(''DCC_ENABLE'', 0), (''DCC_DISABLE'', 1), (''DCC_DISABLE_INITIATION'', 2)]"

definition life_safety_operations :: numbers where
  "life_safety_operations =
    [(''LIFE_SAFETY_OPERATION_NONE'', 0), (''LIFE_SAFETY_OPERATION_SILENCE'', 1),
     (''LIFE_SAFETY_OPERATION_SILENCE_AUDIBLE'', 2), (''LIFE_SAFETY_OPERATION_SILENCE_VISUAL'', 3),
     (''LIFE_SAFETY_OPERATION_RESET'', 4), (''LIFE_SAFETY_OPERATION_RESET_ALARM'', 5),
     (''LIFE_SAFETY_OPERATION_RESET_FAULT'', 6), (''LIFE_SAFETY_OPERATION_UNSILENCE'', 7)]"

definition life_safety_states :: numbers where
  "life_safety_states =
    [(''LIFE_SAFETY_STATE_QUIET'', 0), (''LIFE_SAFETY_STATE_ALARM'', 2), (''LIFE_SAFETY_STATE_FAULT'', 3)]"

definition silenced_states :: numbers where
  "silenced_states =
    [(''SILENCED_UNSILENCED'', 0), (''SILENCED_AUDIBLE'', 1), (''SILENCED_VISIBLE'', 2), (''SILENCED_ALL'', 3)]"

definition lift_car_directions :: numbers where
  "lift_car_directions =
    [(''LIFT_CAR_DIRECTION_UNKNOWN'', 0), (''LIFT_CAR_DIRECTION_NONE'', 1), (''LIFT_CAR_DIRECTION_STOPPED'', 2),
     (''LIFT_CAR_DIRECTION_UP'', 3), (''LIFT_CAR_DIRECTION_DOWN'', 4), (''LIFT_CAR_DIRECTION_UP_AND_DOWN'', 5)]"

definition lighting_operations :: numbers where
  "lighting_operations =
    [(''LIGHTING_OPERATION_NONE'', 0), (''LIGHTING_OPERATION_FADE_TO'', 1), (''LIGHTING_OPERATION_RAMP_TO'', 2),
     (''LIGHTING_OPERATION_STEP_UP'', 3), (''LIGHTING_OPERATION_STEP_DOWN'', 4),
     (''LIGHTING_OPERATION_STEP_ON'', 5), (''LIGHTING_OPERATION_STEP_OFF'', 6), (''LIGHTING_OPERATION_WARN'', 7),
     (''LIGHTING_OPERATION_WARN_OFF'', 8), (''LIGHTING_OPERATION_WARN_RELINQUISH'', 9),
     (''LIGHTING_OPERATION_STOP'', 10), (''LIGHTING_OPERATION_RESTORE_ON'', 11),
     (''LIGHTING_OPERATION_DEFAULT_ON'', 12), (''LIGHTING_OPERATION_TOGGLE_RESTORE'', 13),
     (''LIGHTING_OPERATION_TOGGLE_DEFAULT'', 14)]"

definition lighting_progress :: numbers where
  "lighting_progress =
    [(''LIGHTING_IN_PROGRESS_IDLE'', 0), (''LIGHTING_IN_PROGRESS_FADE_ACTIVE'', 1),
     (''LIGHTING_IN_PROGRESS_RAMP_ACTIVE'', 2)]"

section \<open>No two names share a number\<close>

definition confirmed_services :: numbers where
  "confirmed_services = codec_confirmed_services @ alarm_confirmed_services @ services_confirmed_services"

definition unconfirmed_services :: numbers where
  "unconfirmed_services = codec_unconfirmed_services @ alarm_unconfirmed_services @ services_unconfirmed_services"

definition enumerations :: "numbers list" where
  "enumerations =
    [bvlc_functions, bvlc_result_codes, network_layer_messages, pdu_types, confirmed_services, unconfirmed_services,
     reinitialize_states, object_types, error_classes, error_codes, reliabilities, device_statuses,
     status_flag_positions, application_tags, event_states, notify_types, event_types, transition_bits,
     dcc_choices, life_safety_operations, life_safety_states, silenced_states, lift_car_directions,
     lighting_operations, lighting_progress]"

definition numbered :: "numbers \<Rightarrow> bool" where
  "numbered t \<longleftrightarrow> distinct (map snd t) \<and> list_all (\<lambda>(_, n). 0 \<le> n \<and> n < 0x400000) t"

lemma enumerations_numbered: "list_all numbered enumerations"
  by code_simp

text \<open>Two properties are named by both \<^verbatim>\<open>codec.py\<close> and \<^verbatim>\<open>alarm.py\<close>, with one number.\<close>

lemma properties_numbered: "numbered properties" "numbered alarm_properties"
  by code_simp+

definition agree :: "numbers \<Rightarrow> numbers \<Rightarrow> bool" where
  "agree t u \<longleftrightarrow> list_all (\<lambda>(a, m). list_all (\<lambda>(b, n). (a = b) = (m = n)) u) t"

lemma modules_agree: "agree properties alarm_properties" "agree error_codes alarm_error_codes"
  by code_simp+

text \<open>A service choice fits the octet it has in a request; a message type fits the octet it has in an NPDU.\<close>

lemma table_octets:
  "list_all (\<lambda>t. list_all (\<lambda>(_, n). unsigned8 n) t)
     [bvlc_functions, network_layer_messages, confirmed_services, unconfirmed_services, error_classes, error_codes]"
  by code_simp

section \<open>Every number comes back\<close>

lemma in_table: "(name, n) \<in> set t \<Longrightarrow> numbered t \<Longrightarrow> 0 \<le> n \<and> n < 0x400000"
  by (fastforce simp: numbered_def list_all_iff)

lemma object_types_fit: "(name, ot) \<in> set object_types \<Longrightarrow> 0 \<le> ot \<and> ot < 1024"
proof -
  have "list_all (\<lambda>(_, n). 0 \<le> n \<and> n < (1024 :: int)) object_types" by code_simp
  then show "(name, ot) \<in> set object_types \<Longrightarrow> 0 \<le> ot \<and> ot < 1024" by (fastforce simp: list_all_iff)
qed

text \<open>A ReadProperty of any named property of any instance of any named type is parsed as asked.\<close>

lemma named_read_parsed:
  assumes "(a, ot) \<in> set object_types" "(b, p) \<in> set properties" "0 \<le> i" "i \<le> MAX_INSTANCE" "unsigned8 iid"
  shows "rbind (read_property_request iid ot i p None) parse_read_property_request_indexed = Inr (Some ((ot, i, p), None))"
  using parse_read_property_request_roundtrip [of iid ot i p None] object_types_fit [OF assms(1)]
    in_table [OF assms(2) properties_numbered(1)] assms(3-5) by simp

text \<open>An Error of any named class and code, to any named confirmed service, is decoded as sent.\<close>

lemma named_error_decoded:
  assumes "(a, c) \<in> set error_classes" "(b, d) \<in> set error_codes" "(s, srv) \<in> set confirmed_services" "unsigned8 iid"
  shows "rbind (error_pdu iid srv c d) error_class_and_code = Inr (Some (c, d))"
proof -
  have "unsigned8 c" "unsigned8 d" "unsigned8 srv" using table_octets assms(1-3) by (fastforce simp: list_all_iff)+
  with assms(4) show ?thesis by (intro error_class_and_code_roundtrip) auto
qed

text \<open>The positions number the four flags of \<open>status_flags\<close>, and four flags are read back as given.\<close>

lemma status_flags_read_back:
  assumes "length flags = length status_flag_positions"
  shows "map snd status_flag_positions = map int [0..<length flags]"
    and "rbind (status_flags flags) decode_application = Inr (PyBits flags)"
proof -
  have l: "length status_flag_positions = 4" by code_simp
  show "map snd status_flag_positions = map int [0..<length flags]" unfolding assms l by code_simp
  show "rbind (status_flags flags) decode_application = Inr (PyBits flags)"
    using assms l bit_string_codec.decode_encode [of flags] by (simp add: status_flags_def)
qed

text \<open>A BVLC-Result of any named code is read as that code.\<close>

lemma named_result_read:
  assumes "(name, code) \<in> set bvlc_result_codes"
  shows "\<exists>data f. rbind (pack_H code) (bvll BVLC_RESULT) = Inr data \<and> Frame data source = Inr f \<and> result_code f = Some code"
proof -
  have "list_all (\<lambda>(_, n). 0 \<le> n \<and> n < (65536 :: int)) bvlc_result_codes" by code_simp
  with assms have c: "0 \<le> code" "code < 65536" by (fastforce simp: list_all_iff)+
  let ?data = "[octet_of BVLC_TYPE, octet_of BVLC_RESULT] @ be_octets 2 (4 + 2) @ be_octets 2 code"
  have d: "rbind (pack_H code) (bvll BVLC_RESULT) = Inr ?data" using c by (simp add: pack_H_def bvll_eq)
  have parts: "uint (?data ! 0) = BVLC_TYPE" "uint (?data ! 1) = BVLC_RESULT" "drop 4 ?data = be_octets 2 code" "4 \<le> length ?data"
    by (simp_all add: uint_octet_of)
  then have "Frame ?data source = Inr ((frame_init ?data source)\<lparr>bvlc_function := Some BVLC_RESULT,
      bvll_data := be_octets 2 code, frame_ok := True\<rparr>)"
    by (simp add: Frame_def decode_frame_def Let_def frame_init_def)
  moreover have "from_bytes (be_octets 2 code) = code" using c by simp
  ultimately show ?thesis using d by (auto simp: result_code_def)
qed

end
