(* ===== verification/Spec2Isabelle.thy ===== *)
theory Spec2Isabelle
  imports System Threaded_Network Stepwise_Serving Limits Event_Summaries Cov Decode_Safety Protocol_Numbers
begin

text \<open>
  A verification library for \<^verbatim>\<open>src/wiretest\<close>, the Python package with which the
  BACnet example of this repository is tested on the wire.

  \<^bold>\<open>The program.\<close> \<^verbatim>\<open>codec.py\<close> encodes and decodes BVLL, NPDU and APDU octets;
  \<^verbatim>\<open>alarm.py\<close> and \<^verbatim>\<open>services.py\<close> add the alarm services and the confirmed services beyond
  ReadProperty and WriteProperty. \<^verbatim>\<open>endpoint.py\<close> is a UDP socket that keeps the frames it
  receives; \<^verbatim>\<open>client.py\<close> sends confirmed requests through it with retries and wraps what comes
  back; \<^verbatim>\<open>workstation.py\<close> is a client that also receives event notifications on a thread.
  \<^verbatim>\<open>peer.py\<close> simulates the devices the example talks to: \<open>SimulatedDevice\<close> answers for its own
  Device object, \<open>SimulatedServer\<close> serves objects with modes, scripted failures, array elements and
  priority arrays. \<^verbatim>\<open>control.py\<close> sends test-only commands, \<^verbatim>\<open>wait.py\<close> polls and samples,
  \<^verbatim>\<open>results.py\<close> keeps the outcome of the checks and \<^verbatim>\<open>process.py\<close> runs the example and
  counts its I-Am broadcasts.

  \<^bold>\<open>The theories.\<close>
  \<^item> \<open>Wire_Prelude\<close>: octets as 8-bit words, \<open>py_error\<close> and \<open>'a result\<close> (an exception or a value),
    \<open>rbind\<close>, \<open>cat\<close> (a \<open>+\<close> of octets that may raise), indexing and slicing as Python has them,
    \<open>int.to_bytes\<close>/\<open>from_bytes\<close>, \<open>bytes([...])\<close>, \<open>struct\<close> formats. \<open>Py_Text\<close>: UTF-8 with
    replacement. \<open>Py_Float\<close>: a float is its 64 bits; \<open>struct\<close>'s single precision is rounding and
    widening on them. \<open>Py_Exec\<close>: methods as functions from a state to an outcome and the state they
    leave, also when they raise, with the rules for what a method keeps, yields and preserves.
  \<^item> \<open>Codec_Numbers\<close>: the numbers the modelled code refers to; \<open>Protocol_Numbers\<close>: all of them, as
    tables of the enumerations of the standard, consistent with each other and read back where they
    are encoded.
  \<^item> \<open>Codec_Encode\<close>, \<open>Codec_Tag\<close>, \<open>Codec_Frame\<close>, \<open>Codec_Decode\<close>: \<^verbatim>\<open>codec.py\<close>, one
    definition per function. \<open>is_tag\<close> and \<open>balanced\<close> describe what one tag and a complete run of
    tags look like; \<open>ctx_prim\<close>, \<open>app_prim\<close>, \<open>open_prim\<close> and \<open>close_prim\<close> are the closed forms of the
    encoders. The locale \<open>primitive_codec\<close> is the contract of one application-tagged encoder; it is
    interpreted on the ten of them. \<open>Decode_Safety\<close>: which exceptions a decoder can raise
    on any octets at all, and which Python type a decoded value has. \<open>Limits\<close>: from which length on a
    bit string is no longer read back.
  \<^item> \<open>Peer_Device\<close>, \<open>Peer_Server\<close>: \<^verbatim>\<open>peer.py\<close>. The server's record extends the device's as the class
    does. \<open>serve_one\<close> is one turn of the serving thread; the locale \<open>responder\<close> is what a test relies
    on of any peer, interpreted on both. \<open>server_ok\<close> is the priority-array invariant,
    \<open>write_effect\<close> the specification of an accepted write.
  \<^item> \<open>Serving\<close>: \<open>_serve\<close> and \<open>stop\<close> as a state machine. A \<open>peer\<close> is the object, its sockets, the
    program counter of its thread and the caller's progress through \<open>stop()\<close>; \<open>peer_run\<close> is any
    interleaving of their turns with arrivals and with what the test changes. The handler of a datagram
    is an argument: \<open>server_serve\<close>, \<open>device_serve\<close> and the workstation's \<open>ws_serve\<close>. The locale
    \<open>recording_peer\<close> adds to \<open>responder\<close> that a handler keeps the frame it was given.
    \<open>Peer_Progress\<close>: no arrival waits behind the other socket. \<open>Serial_History\<close>: a run of thread, test
    and arrivals, a datagram served as one turn, is explained by one sequence of datagrams served and
    settings made.
  \<^item> \<open>Server_Steps\<close>, \<open>Stepwise_Serving\<close>: the same thread one access at a time. A method is a \<open>steps\<close>
    value, whose every \<open>Step\<close> is one read or assignment of an attribute; \<open>server_steps\<close> is the body of
    the loop, and run without a pause it is \<open>server_serve\<close> (\<open>server_steps_run\<close>). A \<open>working\<close> Peer has a
    datagram in hand and what is left to do for it; arrivals, settings and \<open>stop()\<close> come between any two
    accesses. \<open>settled_run_simulated\<close> says when the machine of \<open>Serving\<close> is what this one does.
  \<^item> \<open>Host\<close>: opening, binding and closing the sockets of every class, on a table of the host's sockets.
  \<^item> \<open>Alarm\<close>, \<open>Services\<close>: \<^verbatim>\<open>alarm.py\<close> and \<^verbatim>\<open>services.py\<close>, one definition per function and one
    per loop. \<open>Event_Summaries\<close> and \<open>Cov\<close> encode GetEventInformation answers and COV notifications the way
    a device does, which the source only decodes, and show that the decoders invert them.
  \<^item> \<open>Endpoint\<close>, \<open>Client\<close>, \<open>Workstation\<close>: the sockets and the requests made through them. The locale
    \<open>retrying\<close> is the contract of one attempt (it sends the request once, and what it returns answers
    it); it is interpreted on the clients of \<^verbatim>\<open>client.py\<close>, \<^verbatim>\<open>workstation.py\<close> and \<^verbatim>\<open>control.py\<close>.
  \<^item> \<open>Harness\<close>: \<^verbatim>\<open>results.py\<close>, \<^verbatim>\<open>wait.py\<close>, \<^verbatim>\<open>control.py\<close>, whose command file lives in a map from
    paths to contents. \<open>Process\<close>: \<^verbatim>\<open>process.py\<close>, with the running example (its console, whether it
    has ended, how it reacts to \<open>q\<close>) as a parameter.
    \<open>Descriptions\<close>: the texts that frames, notifications and answers are printed as.
  \<^item> \<open>System\<close> joins a client and a server: the server is the client's network. \<open>Threaded_Network\<close>
    shows that this network is what the serving thread implements. This theory holds the
    properties of the two together.

  \<^bold>\<open>State and time.\<close> What lies behind a socket is a parameter: a function from the state of the far
  side and a datagram to the arrivals it causes, each with its delay in milliseconds. The clock moves
  only while a receive waits or a sleep passes. The locks of the Python classes protect the
  lists and counters a step appends to. An exception ends a step with the state it left, as it ends the
  thread.

  \<^bold>\<open>Granularity.\<close> Two machines model the serving thread. In \<open>Serving\<close> a datagram, from \<open>recvfrom\<close> to
  the answer, is one turn and sending the answer is the next; the test and the thread may be interleaved
  between any two turns. The properties of \<open>Serving\<close>, \<open>Peer_Progress\<close>, \<open>Threaded_Network\<close> and the
  invariant of the priority arrays below are about this machine. The code is finer: \<open>_answer\<close> and \<open>_write\<close>
  read \<open>self.mode\<close> up to four times, log and store at separate points, and may wait in a callable or in
  \<open>on_write\<close> while the test acts. \<open>Stepwise_Serving\<close> is that machine. A run of it in which no setting
  disturbs the datagram in hand is a run of the coarse one (\<open>settled_run_simulated\<close>), so what holds there
  of the Peer holds here of the Peer with the datagram in hand done with; \<open>disturbed_run_not_serializable\<close>
  is a run where a setting does disturb, with an outcome no order of datagram and setting has. What
  \<open>stop()\<close> leaves behind is stated on the fine machine, since the join may time out inside a datagram.

  \<^bold>\<open>What is shown.\<close> The wire formats: decoding inverts encoding for frames, tagged values, requests,
  answers, notifications and constructed values, and scanning always ends. The peers: answers carry
  the invoke id of the request and reach its sender, every write has its specified effect or is
  refused, the priority arrays stay consistent, an offline server is silent. Their threads: every
  datagram that arrives is kept once and in order or still queued, the thread takes the next one of
  either socket within seven turns, its runs are serializable when settings do not disturb the datagram
  in hand, a stopped thread ends within seven turns, and after \<open>stop()\<close> nothing is sent and no datagram
  taken, though the one in hand may still be stored and logged. Arbitrary octets: the decoders raise nothing
  but what is listed, and the cases no caller expects are shown. The clients: the same datagram at most
  once per attempt, answers that match, waits that end by their deadline. Together: what is written
  through a client is what is read back, by the rules of command prioritization. Some theorems show
  inputs on which the code does not do what it means to.

  \<^bold>\<open>Bounds and fuel.\<close> \<open>wait_until\<close> and \<open>sample\<close> take fuel, because the check they poll is the test's
  own; fuel for the milliseconds to the deadline is enough (\<open>wait_until_returns\<close>, \<open>sample_returns\<close>). Every other
  loop is total. The end-to-end claims bound a value by 1900 octets, so that request and answer fit
  the 2048 octets of one receive.

  \<^bold>\<open>Not modelled.\<close> The lines printed about checks and retries, the operating system behind sockets,
  files and processes, the test scripts under \<^verbatim>\<open>src/tests\<close> and the TypeScript example itself.
  Parameters: the network and the far side, the running example, \<open>socket.inet_aton\<close>, the Unicode
  digits, Python's \<open>repr\<close> and \<open>str\<close>, \<open>Path.resolve\<close>, the addresses of the host's interfaces, the ports
  and temporary names the operating system picks, whether a program can be run, the callables a test
  serves values from.
\<close>

section \<open>Examples\<close>

definition example_client :: "server \<Rightarrow> server client" where
  "example_client s = \<lparr>clock = 0, inbox = [], sent = [], world = s, ep_frames = [], client_invoke_id = 41,
     client_retries = 2, client_timeout = 1000\<rparr>"

lemma example_client_ready: "client_ready 20 (example_client s)" "world (example_client s) = s"
  by (simp_all add: client_ready_def example_client_def)

definition example_net :: "server network" where
  "example_net = server_network (py_text ''192.168.1.9'', 0xBAC0) (py_text ''192.168.1.10'', 0xBAC0) 20"

definition example_target :: address where
  "example_target = (py_text ''192.168.1.10'', 0xBAC0)"

text \<open>The server after a command of 100.0 at priority 8.\<close>

definition commanded_server :: server where
  "commanded_server = write_effect (example_write 85 [0x44, 0x42, 0xC8, 0, 0] (Some 8)) False example_server"

lemma example_accepts:
  "p \<in> {85, 28} \<Longrightarrow> accepts example_server (example_write p v pr)"
  by (auto simp: accepts_def example_server_ok example_write_def refusal_of_def check_write_def)

lemma commanded_server_fields:
  "failures commanded_server = []" "mode commanded_server = ''online''" "whole_arrays_refused commanded_server = {}"
  "writable commanded_server = None" "commandable commanded_server = Some {(1, 1)}"
  "priority_arrays commanded_server = [(1, 1) \<mapsto> (replicate 16 None)[7 := Some [0x44, 0x42, 0xC8, 0, 0]]]"
  "objects commanded_server (1, 1) = Some [85 \<mapsto> Octets [0x44, 0x42, 0xC8, 0, 0], 28 \<mapsto> Octets [0x72, 0, 65], 87 \<mapsto> Octets [0x00, 0x21, 7]]"
  "relinquish_defaults commanded_server = [(1, 1) \<mapsto> Octets [0x44, 0, 0, 0, 0]]"
  by (simp_all add: commanded_server_def write_effect_def example_write_def is_commanded_def commanded_slots_def
      slot_index_def fun_eq_iff numeral_eq_Suc)

lemma commanded_server_ok: "server_ok commanded_server"
  by (auto simp: server_ok_def commanded_ok_def commanded_server_fields numeral_eq_Suc)

lemma commanded_accepts: "accepts commanded_server (example_write 85 v pr)"
  by (auto simp: accepts_def commanded_server_ok commanded_server_fields example_write_def refusal_of_def check_write_def)

section \<open>The system\<close>

text \<open>C1: Whatever a server with commandable objects receives, however the test changes its mode, failures
  and refusals, and however thread, test and \<open>stop()\<close> are interleaved between the datagrams: as long as no datagram has ended
  the thread with an exception, every commandable object keeps sixteen slots, and the Present_Value it
  serves is the first slot in use or, with none in use, its Relinquish_Default.\<close>
theorem priority_array_invariant:
  assumes "SimulatedServer inst name vendor objs may_write keys elements = Inr s"
    and "peer_run server_serve server_change (started s hears_broadcasts) evs p" and "\<And>e. thread p \<noteq> Raised e"
    and "commandable (peer_self p) = Some ks" and "(ot, i) \<in> ks"
  shows "\<exists>slots d. priority_arrays (peer_self p) (ot, i) = Some slots \<and> length slots = 16 \<and>
    relinquish_defaults (peer_self p) (ot, i) = Some d \<and>
    server_value (peer_self p) ot i PROPERTY_PRESENT_VALUE = Some (call_served (winning_value slots d))"
proof -
  have "sound_server (started s hears_broadcasts)"
    using SimulatedServer_ok [OF assms(1)] by (simp add: sound_server_def started_def)
  then have "server_ok (peer_self p)"
    using server_run_sound [OF assms(2)] assms(3) by (simp add: sound_server_def)
  then show ?thesis
    by (rule server_okE [OF _ assms(4,5)]) (auto simp: server_value_def)
qed

text \<open>A command of 100.0 at priority 8 arrives and is served.\<close>

definition command_datagram :: octets where
  "command_datagram = projr (rbind (write_property_request 7 1 1 85 [0x44, 0x42, 0xC8, 0, 0] (Some 8) None)
     (\<lambda>apdu. rbind (npdu apdu npdu_defaults) (\<lambda>n. bvlc n False)))"

definition command_events :: "setting event list" where
  "command_events = [Arrives False (Datagram command_datagram ([49], 47808)), Thread_turn, Thread_turn, Thread_turn, Thread_turn]"

definition commanded_peer :: "server peer" where
  "commanded_peer = the (run_events server_serve server_change command_events (started example_server False))"

theorem priority_array_invariant_witness:
  "\<exists>slots d. priority_arrays (peer_self commanded_peer) (1, 1) = Some slots \<and> length slots = 16 \<and>
    server_value (peer_self commanded_peer) 1 1 PROPERTY_PRESENT_VALUE = Some (call_served (winning_value slots d)) \<and>
    server_value (peer_self commanded_peer) 1 1 PROPERTY_PRESENT_VALUE = Some [0x44, 0x42, 0xC8, 0, 0]"
proof -
  have "run_events server_serve server_change command_events (started example_server False) \<noteq> None" by code_simp
  then have run: "peer_run server_serve server_change (started example_server False) command_events commanded_peer"
    unfolding commanded_peer_def by (metis option.exhaust_sel run_events_run)
  have t: "thread commanded_peer = Receiving []" by code_simp
  have c: "commandable (peer_self commanded_peer) = Some {(1, 1)}" by code_simp
  have v: "server_value (peer_self commanded_peer) 1 1 PROPERTY_PRESENT_VALUE = Some [0x44, 0x42, 0xC8, 0, 0]" by code_simp
  from priority_array_invariant [OF example_server_eq run _ c] t v show ?thesis by fastforce
qed

text \<open>C2: A client that writes a property which is not commanded, with a value that is not NULL and a
  request the server accepts, gets an acknowledgement, and reading the property afterwards returns
  exactly the octets written: through both codecs, both NPDU and BVLL layers, the server's dispatch
  and the client's waiting.\<close>
theorem client_write_then_read:
  assumes "request_fits r" "client_ready delay c" "accepts (world c) r" "\<not> is_commanded r (world c)"
    and "application_tag (wr_value_octets r) = Inr tag" "tag \<noteq> Some TAG_NULL"
  shows "\<exists>g c' h c''. write_request_to (server_network here there delay) target r c = (Inr (Some g), c') \<and>
    acked (Some g) \<and> read_back_from (server_network here there delay) target r c' = (Inr (Some h), c'') \<and>
    value_octets (Some h) = Inr (Some (wr_value_octets r))"
proof -
  obtain props where "objects (world c) (write_key r) = Some props" using assms(3) by (auto simp: accepts_def)
  from client_write_read [OF assms(1-3,5) _ write_effect_plain [OF this assms(4)], of "Octets (wr_value_octets r)"] assms
  show ?thesis by (simp add: null_ignored_def call_served_def request_fits_def)
qed

theorem client_write_then_read_witness:
  "\<exists>g c' h c''. write_request_to example_net example_target (example_write 28 [0x72, 0, 66] None) (example_client example_server) = (Inr (Some g), c') \<and>
    acked (Some g) \<and> read_back_from example_net example_target (example_write 28 [0x72, 0, 66] None) c' = (Inr (Some h), c'') \<and>
    value_octets (Some h) = Inr (Some [0x72, 0, 66])"
proof -
  let ?r = "example_write 28 [0x72, 0, 66] None"
  have r: "request_fits ?r" "application_tag (wr_value_octets ?r) = Inr (Some 7)" by code_simp+
  have c: "client_ready 20 (example_client example_server)" "accepts (world (example_client example_server)) ?r"
    "\<not> is_commanded ?r (world (example_client example_server))"
    using example_accepts by (auto simp: example_client_ready is_commanded_def example_write_def)
  from client_write_then_read [OF r(1) c r(2)] show ?thesis by (simp add: example_net_def example_write_def)
qed

text \<open>C3: A client that commands a Present_Value, at a priority above which no slot is in use, reads back
  the value it commanded.\<close>
theorem client_command_then_read:
  assumes "request_fits r" "client_ready delay c" "accepts (world c) r" "is_commanded r (world c)"
    and "priority_arrays (world c) (write_key r) = Some slots" "\<And>j. j < slot_index (wr_priority r) \<Longrightarrow> slots ! j = None"
    and "application_tag (wr_value_octets r) = Inr tag" "tag \<noteq> Some TAG_NULL"
  shows "\<exists>g c' h c''. write_request_to (server_network here there delay) target r c = (Inr (Some g), c') \<and>
    acked (Some g) \<and> read_back_from (server_network here there delay) target r c' = (Inr (Some h), c'') \<and>
    value_octets (Some h) = Inr (Some (wr_value_octets r))"
proof -
  have ok: "server_ok (world c)" using assms(3) by (simp add: accepts_def)
  from is_commandedE [OF ok assms(4)] assms(5) obtain d where d: "relinquish_defaults (world c) (write_key r) = Some d"
    and l: "length slots = 16" by (metis option.inject)
  have k: "slot_index (wr_priority r) < 16" using assms(1) by (simp add: request_fits_def slot_index_less)
  have "winning_value (commanded_slots slots r False) d = Octets (wr_value_octets r)"
    by (rule winning_first [of "slot_index (wr_priority r)"]) (use k l assms(6) in \<open>simp_all add: commanded_slots_def\<close>)
  with write_effect_commanded [OF ok assms(4,5) d, of False] obtain props where
    "objects (write_effect r (tag = Some TAG_NULL) (world c)) (write_key r) = Some props"
    "props (wr_property_identifier r) = Some (Octets (wr_value_octets r))" using assms(8) by metis
  from client_write_read [OF assms(1-3,7) _ this] assms
  show ?thesis by (simp add: null_ignored_def call_served_def request_fits_def)
qed

theorem client_command_then_read_witness:
  "\<exists>g c' h c''. write_request_to example_net example_target (example_write 85 [0x44, 0x42, 0xC8, 0, 0] (Some 8)) (example_client example_server) =
      (Inr (Some g), c') \<and> acked (Some g) \<and>
    read_back_from example_net example_target (example_write 85 [0x44, 0x42, 0xC8, 0, 0] (Some 8)) c' = (Inr (Some h), c'') \<and>
    value_octets (Some h) = Inr (Some [0x44, 0x42, 0xC8, 0, 0])"
proof -
  let ?r = "example_write 85 [0x44, 0x42, 0xC8, 0, 0] (Some 8)"
  have r: "request_fits ?r" "application_tag (wr_value_octets ?r) = Inr (Some 4)" by code_simp+
  have c: "client_ready 20 (example_client example_server)" "accepts (world (example_client example_server)) ?r"
    "is_commanded ?r (world (example_client example_server))"
    "priority_arrays (world (example_client example_server)) (write_key ?r) = Some (replicate 16 None)"
    using example_accepts by (auto simp: example_client_ready is_commanded_def example_write_def)
  have "replicate 16 None ! j = (None :: octets option)" if "j < slot_index (wr_priority ?r)" for j
    using that by (simp add: example_write_def slot_index_def)
  from client_command_then_read [OF r(1) c this r(2)] show ?thesis by (simp add: example_net_def example_write_def)
qed

text \<open>C4: A client that commands (or relinquishes) a Present_Value while a slot of higher priority is in
  use is acknowledged, and reading the Present_Value still returns the value of the highest-priority
  slot in use.\<close>
theorem client_outranked_write:
  assumes "request_fits r" "client_ready delay c" "accepts (world c) r" "is_commanded r (world c)"
    and "priority_arrays (world c) (write_key r) = Some slots"
    and "k < 16" "slots ! k = Some x" "\<And>j. j < k \<Longrightarrow> slots ! j = None" "k < slot_index (wr_priority r)"
    and "balanced x" "length x \<le> 1900" "application_tag (wr_value_octets r) = Inr tag"
  shows "\<exists>g c' h c''. write_request_to (server_network here there delay) target r c = (Inr (Some g), c') \<and>
    acked (Some g) \<and> read_back_from (server_network here there delay) target r c' = (Inr (Some h), c'') \<and>
    value_octets (Some h) = Inr (Some x)"
proof -
  have ok: "server_ok (world c)" using assms(3) by (simp add: accepts_def)
  from is_commandedE [OF ok assms(4)] assms(5) obtain d where d: "relinquish_defaults (world c) (write_key r) = Some d"
    and l: "length slots = 16" by (metis option.inject)
  have "winning_value (commanded_slots slots r n) d = Octets x" for n
    by (rule winning_first [of k]) (use l assms(6-9) in \<open>simp_all add: commanded_slots_def\<close>)
  with write_effect_commanded [OF ok assms(4,5) d] obtain props where
    "objects (write_effect r (tag = Some TAG_NULL) (world c)) (write_key r) = Some props"
    "props (wr_property_identifier r) = Some (Octets x)" by metis
  from client_write_read [OF assms(1-3,12) _ this] assms
  show ?thesis by (simp add: null_ignored_def call_served_def)
qed

theorem client_outranked_write_witness:
  "\<exists>g c' h c''. write_request_to example_net example_target (example_write 85 [0x44, 0x41, 0x20, 0, 0] None) (example_client commanded_server) =
      (Inr (Some g), c') \<and> acked (Some g) \<and>
    read_back_from example_net example_target (example_write 85 [0x44, 0x41, 0x20, 0, 0] None) c' = (Inr (Some h), c'') \<and>
    value_octets (Some h) = Inr (Some [0x44, 0x42, 0xC8, 0, 0])"
proof -
  let ?r = "example_write 85 [0x44, 0x41, 0x20, 0, 0] None" and ?slots = "(replicate 16 None)[7 := Some [0x44, 0x42, 0xC8, 0, 0 :: octet]]"
  have r: "request_fits ?r" "application_tag (wr_value_octets ?r) = Inr (Some 4)" by code_simp+
  have b: "balanced [0x44, 0x42, 0xC8, 0, 0]" "length [0x44, 0x42, 0xC8, 0, 0 :: octet] \<le> 1900" by code_simp+
  have c: "client_ready 20 (example_client commanded_server)" "accepts (world (example_client commanded_server)) ?r"
    "is_commanded ?r (world (example_client commanded_server))"
    "priority_arrays (world (example_client commanded_server)) (write_key ?r) = Some ?slots"
    using commanded_accepts by (auto simp: example_client_ready is_commanded_def example_write_def commanded_server_fields)
  have s: "7 < (16 :: nat)" "?slots ! 7 = Some [0x44, 0x42, 0xC8, 0, 0]" "\<And>j. j < 7 \<Longrightarrow> ?slots ! j = None"
    "7 < slot_index (wr_priority ?r)" by (simp_all add: example_write_def slot_index_def)
  from client_outranked_write [OF r(1) c s b r(2)] show ?thesis by (simp add: example_net_def)
qed

text \<open>C5: A client that writes NULL at the only priority in use relinquishes it: reading the Present_Value
  afterwards returns the Relinquish_Default.\<close>
theorem client_relinquish_to_default:
  assumes "request_fits r" "client_ready delay c" "accepts (world c) r" "is_commanded r (world c)"
    and "priority_arrays (world c) (write_key r) = Some slots"
    and "\<And>j. j < 16 \<Longrightarrow> j \<noteq> slot_index (wr_priority r) \<Longrightarrow> slots ! j = None"
    and "relinquish_defaults (world c) (write_key r) = Some d" "balanced (call_served d)" "length (call_served d) \<le> 1900"
    and "application_tag (wr_value_octets r) = Inr (Some TAG_NULL)"
  shows "\<exists>g c' h c''. write_request_to (server_network here there delay) target r c = (Inr (Some g), c') \<and>
    acked (Some g) \<and> read_back_from (server_network here there delay) target r c' = (Inr (Some h), c'') \<and>
    value_octets (Some h) = Inr (Some (call_served d))"
proof -
  have ok: "server_ok (world c)" using assms(3) by (simp add: accepts_def)
  from is_commandedE [OF ok assms(4)] assms(5) have l: "length slots = 16" by (metis option.inject)
  have k: "slot_index (wr_priority r) < 16" using assms(1) by (simp add: request_fits_def slot_index_less)
  have "winning_value (commanded_slots slots r True) d = d"
    by (rule winning_none) (use k l assms(6) in \<open>auto simp: commanded_slots_def nth_list_update\<close>)
  with write_effect_commanded [OF ok assms(4,5,7), of True] obtain props where
    "objects (write_effect r True (world c)) (write_key r) = Some props"
    "props (wr_property_identifier r) = Some d" by metis
  with client_write_read [OF assms(1-3,10), of props d] assms
  show ?thesis by (simp add: null_ignored_def)
qed

theorem client_relinquish_to_default_witness:
  "\<exists>g c' h c''. write_request_to example_net example_target (example_write 85 [0x00] (Some 8)) (example_client commanded_server) =
      (Inr (Some g), c') \<and> acked (Some g) \<and>
    read_back_from example_net example_target (example_write 85 [0x00] (Some 8)) c' = (Inr (Some h), c'') \<and>
    value_octets (Some h) = Inr (Some [0x44, 0, 0, 0, 0])"
proof -
  let ?r = "example_write 85 [0x00] (Some 8)" and ?slots = "(replicate 16 None)[7 := Some [0x44, 0x42, 0xC8, 0, 0 :: octet]]"
    and ?d = "Octets [0x44, 0, 0, 0, 0]"
  have r: "request_fits ?r" "application_tag (wr_value_octets ?r) = Inr (Some TAG_NULL)" by code_simp+
  have d: "balanced (call_served ?d)" "length (call_served ?d) \<le> 1900" by code_simp+
  have c: "client_ready 20 (example_client commanded_server)" "accepts (world (example_client commanded_server)) ?r"
    "is_commanded ?r (world (example_client commanded_server))"
    "priority_arrays (world (example_client commanded_server)) (write_key ?r) = Some ?slots"
    "relinquish_defaults (world (example_client commanded_server)) (write_key ?r) = Some ?d"
    using commanded_accepts by (auto simp: example_client_ready is_commanded_def example_write_def commanded_server_fields)
  have s: "?slots ! j = None" if "j < 16" "j \<noteq> slot_index (wr_priority ?r)" for j
    using that by (simp add: example_write_def slot_index_def)
  from client_relinquish_to_default [OF r(1) c(1-4) s c(5) d r(2)] show ?thesis by (simp add: example_net_def call_served_def)
qed

text \<open>C6: A ReadPropertyMultiple to an online server with no failure scripted, about distinct
  objects and properties, is answered under its invoke id with what the server serves at that moment,
  and the client's parser of the acknowledgement returns for every property its value, or the error UNKNOWN_PROPERTY where it is not served; nothing the
  server serves changes.\<close>
theorem read_multiple_snapshot:
  assumes specs: "list_all specification_fits specs" "distinct (map fst specs)" "\<forall>(_, ps) \<in> set specs. distinct ps"
    and vals: "\<forall>((ot, i), ps) \<in> set specs. \<forall>p \<in> set ps. \<forall>v. server_value s ot i p = Some v \<longrightarrow> balanced v"
    and s: "failures s = []" "mode s \<noteq> ''offline''"
    and f: "unsigned8 iid" "network_message f = None"
      "read_property_multiple_request iid (map (\<lambda>((ot, i), ps). (ot, i, map (\<lambda>p. (p, None)) ps)) specs) = Inr (payload f)"
  shows "\<exists>a s'. server_answer f s = (Inr (Some a), s') \<and> same_service s s' \<and> answers iid a \<and>
    (\<forall>g. payload g = a \<and> network_message g = None \<longrightarrow>
       parse_read_property_multiple_ack (Some g) = Inr (Some (map rpm_parsed (served_results s specs))))"
proof -
  have e: "cat (map (\<lambda>((ot, i), ps). read_access_specification ot i (map (\<lambda>p. (p, None)) ps)) specs) =
      cat (map (\<lambda>(ot, i, refs). read_access_specification ot i refs) (map (\<lambda>((ot, i), ps). (ot, i, map (\<lambda>p. (p, None)) ps)) specs))"
    by (simp add: comp_def split_def)
  from read_access_specifications_roundtrip [OF specs(1,2)] obtain params where
    p: "cat (map (\<lambda>(ot, i, refs). read_access_specification ot i refs) (map (\<lambda>((ot, i), ps). (ot, i, map (\<lambda>p. (p, None)) ps)) specs)) = Inr params"
    and ras: "read_access_specifications params = Inr specs"
    unfolding e by (auto simp: rbind_eq_Inr)
  have pl: "payload f = [0, 5, octet_of iid, octet_of 14] @ params"
    using f p by (simp add: read_property_multiple_request_def confirmed_request_eq octet_of_def)
  note c = confirmed_frame [OF pl f(2,1)]
  have fits: "list_all result_fits (served_results s specs)"
    using specs(1,3) vals
    by (fastforce simp: list_all_iff served_results_def result_fits_def specification_fits_def entry_fits_def comp_def
        split: option.splits)
  have dist: "distinct (map (\<lambda>(ot, i, _). (ot, i)) (served_results s specs))"
    using specs(2) by (simp add: served_results_def comp_def split_def)
  obtain a where a: "read_property_multiple_ack iid (served_results s specs) = Inr a"
    using read_property_multiple_ack_eq [OF f(1) fits] by auto
  have "server_answer f s = (Inr (Some a), s\<lparr>read_requests := read_requests s @
      [(SERVICE_READ_PROPERTY_MULTIPLE, map (\<lambda>((ot, i), ps). (ot, i, ps)) specs)]\<rparr>)"
    using s c a ras pl
    by (simp add: server_answer_def failure_of_none answer_by_mode_def note_write_def read_multiple_def note_read_def
        answer_with_def answered_id_def needed_def served_results_def server_value_def)
  moreover have "same_service s (s\<lparr>read_requests := r\<rparr>)" for r by (simp add: same_service_def)
  ultimately show ?thesis
    using parse_rpm_roundtrip [OF f(1) fits dist] a answers_read_property_multiple_ack [OF a] by auto
qed

theorem read_multiple_snapshot_witness:
  "\<exists>a s'. server_answer (example_frame (read_property_multiple_request 5 [(1, 1, [(28, None), (117, None)])])) example_server = (Inr (Some a), s') \<and>
    parse_read_property_multiple_ack (Some (example_frame (Inr a))) =
      Inr (Some [((1, 1), [((Some 28, None), Rpm_value [0x72, 0, 65]), ((Some 117, None), Rpm_error [2, 32])])])"
proof -
  let ?specs = "[((1, 1), [28, 117])] :: (object_ref \<times> int list) list"
  let ?f = "example_frame (read_property_multiple_request 5 [(1, 1, [(28, None), (117, None)])])"
  have specs: "list_all specification_fits ?specs" "distinct (map fst ?specs)" "\<forall>(_, ps) \<in> set ?specs. distinct ps" by code_simp+
  have b: "balanced [0x72, 0, 65]" by code_simp
  have v: "\<forall>((ot, i), ps) \<in> set ?specs. \<forall>p \<in> set ps. \<forall>v. server_value example_server ot i p = Some v \<longrightarrow> balanced v"
    using b by (simp add: server_value_def call_served_def)
  have f: "unsigned8 5" "network_message ?f = None"
    "read_property_multiple_request 5 (map (\<lambda>((ot, i), ps). (ot, i, map (\<lambda>p. (p, None)) ps)) ?specs) = Inr (payload ?f)" by code_simp+
  from read_multiple_snapshot [OF specs v _ _ f] obtain a s' where a: "server_answer ?f example_server = (Inr (Some a), s')"
    and p: "\<And>g. payload g = a \<and> network_message g = None \<Longrightarrow>
      parse_read_property_multiple_ack (Some g) = Inr (Some (map rpm_parsed (served_results example_server ?specs)))" by auto
  have "payload (example_frame (Inr a)) = a \<and> network_message (example_frame (Inr a)) = None"
    by (simp add: example_frame_def npdu_frame_def npdu_defaults_def)
  from p [OF this] a show ?thesis
    by (simp add: served_results_def rpm_parsed_def rpm_outcome_def server_value_def call_served_def)
qed

end
